(* ===== verification/Qau_Prelude.thy ===== *)
theory Qau_Prelude
  imports Main "HOL-Library.Word"
begin

unbundle bit_operations_syntax

text \<open>
  What every theory of the development shares: the machine types of the Go code, the pieces
  of the language and of its standard library that the code uses (slices and \<open>copy\<close>,
  \<open>math/big\<close> conversions), the state-and-error monad in which the opcode handlers are
  written, and the two proof devices that carry the component proofs: a Hoare triple for
  handlers that may fail (\<open>triple\<close>) and the locale \<open>step_rel\<close> of reflexive and
  transitive relations between the state before and the state after a handler.
\<close>

named_theorems word64 "facts that move 64-bit words to natural numbers"
named_theorems op_simps "unfolding rules of the primitive operations"

section \<open>Machine types\<close>

type_synonym byte = "8 word"
type_synonym u64 = "64 word"
type_synonym Word = "256 word"
type_synonym Hash = "256 word"
type_synonym Address = "160 word"

definition MaxUint64 :: u64 where
  "MaxUint64 = 18446744073709551615"

definition ulen :: "'a list \<Rightarrow> u64" where
  "ulen xs = of_nat (length xs)"

lemma unat_u64_bound [simp]: "unat (x :: u64) < 18446744073709551616"
  using unsigned_less [of x] by simp

lemma unat_MaxUint64 [simp]: "unat MaxUint64 = 18446744073709551615"
  by (simp add: MaxUint64_def)

lemma unat_add64: "unat (a + b :: u64) = (unat a + unat b) mod 18446744073709551616"
  by (simp add: unat_word_ariths)

lemma unat_mult64: "unat (a * b :: u64) = (unat a * unat b) mod 18446744073709551616"
  by (simp add: unat_word_ariths)

lemma unat_add64_id: "unat a + unat b < 18446744073709551616 \<Longrightarrow> unat (a + b :: u64) = unat a + unat b"
  by (simp add: unat_add64)

lemma unat_mult64_id: "unat a * unat b < 18446744073709551616 \<Longrightarrow> unat (a * b :: u64) = unat a * unat b"
  by (simp add: unat_mult64)

lemma unat_sub64: "b \<le> a \<Longrightarrow> unat (a - b :: u64) = unat a - unat b"
  by (simp add: unat_sub word_le_nat_alt)

lemma unat_div64: "unat (a div b :: u64) = unat a div unat b"
  by (rule unat_div_distrib)

lemma unat_mod64: "unat (a mod b :: u64) = unat a mod unat b"
  by (rule unat_mod_distrib)

lemma unat_MaxUint64_sub [simp]: "unat (MaxUint64 - x) = 18446744073709551615 - unat x"
proof -
  have "x \<le> MaxUint64" by (simp add: word_le_nat_alt) (use unat_u64_bound [of x] in linarith)
  then show ?thesis by (simp add: unat_sub64)
qed

text \<open>The overflow test \<open>a + b < a\<close> of the Go code, and its form \<open>a > MaxUint64 - b\<close>.\<close>

lemma add_wraps_iff: "(a + b :: u64) < a \<longleftrightarrow> 18446744073709551616 \<le> unat a + unat b"
proof (cases "unat a + unat b < 18446744073709551616")
  case True
  then show ?thesis by (simp add: word_less_nat_alt unat_add64_id)
next
  case False
  have less: "unat a + unat b - 18446744073709551616 < 18446744073709551616"
    using unat_u64_bound [of a] unat_u64_bound [of b] by linarith
  have "unat (a + b) = unat a + unat b - 18446744073709551616"
    using False unfolding unat_add64 by (simp add: le_mod_geq mod_less [OF less])
  with False unat_u64_bound [of b] show ?thesis unfolding word_less_nat_alt by linarith
qed

lemma gt_Max_sub_iff: "a > MaxUint64 - b \<longleftrightarrow> 18446744073709551616 \<le> unat a + unat b"
  unfolding word_less_nat_alt unat_MaxUint64_sub using unat_u64_bound [of b] by linarith

lemma unat_ulen: "length xs < 18446744073709551616 \<Longrightarrow> unat (ulen xs) = length xs"
  by (simp add: ulen_def unat_of_nat)

lemmas word64_basic [word64] =
  word_less_nat_alt word_le_nat_alt unat_add64_id unat_mult64_id unat_sub64 unat_div64 unat_mod64

section \<open>Slices\<close>

text \<open>\<open>xs[i:j]\<close>, and the built-in \<open>copy(dst[off:], src)\<close>, which copies as many elements as
  both slices have.\<close>

definition slice :: "'a list \<Rightarrow> nat \<Rightarrow> nat \<Rightarrow> 'a list" where
  "slice xs i j = take (j - i) (drop i xs)"

definition go_copy :: "'a list \<Rightarrow> nat \<Rightarrow> 'a list \<Rightarrow> 'a list" where
  "go_copy dst off src =
     (let n = min (length dst - off) (length src)
      in take off dst @ take n src @ drop (off + n) dst)"

lemma length_slice: "j \<le> length xs \<Longrightarrow> length (slice xs i j) = j - i"
  by (simp add: slice_def)

lemma length_go_copy [simp]: "off \<le> length dst \<Longrightarrow> length (go_copy dst off src) = length dst"
  by (simp add: go_copy_def Let_def)

lemma slice_go_copy:
  assumes "off + length src \<le> length dst"
  shows "slice (go_copy dst off src) off (off + length src) = src"
  using assms by (auto simp: slice_def go_copy_def Let_def min_def)

lemma nth_go_copy_outside:
  assumes "off + length src \<le> length dst" and "k < length dst" and "k < off \<or> off + length src \<le> k"
  shows "go_copy dst off src ! k = dst ! k"
  using assms by (auto simp: go_copy_def Let_def nth_append min_def)

section \<open>Big integers\<close>

text \<open>\<open>big.Int.SetBytes\<close> reads a big-endian byte string; \<open>big.Int.Bytes\<close> writes the absolute
  value as the shortest one; \<open>BitLen\<close> is the length of the absolute value in bits.\<close>

definition big_SetBytes :: "byte list \<Rightarrow> int" where
  "big_SetBytes bs = foldl (\<lambda>a b. a * 256 + uint b) 0 bs"

fun nat_bytes :: "nat \<Rightarrow> byte list" where
  "nat_bytes n = (if n = 0 then [] else nat_bytes (n div 256) @ [of_nat (n mod 256)])"

declare nat_bytes.simps [simp del]

definition big_Bytes :: "int \<Rightarrow> byte list" where
  "big_Bytes v = nat_bytes (nat \<bar>v\<bar>)"

fun nat_bitlen :: "nat \<Rightarrow> nat" where
  "nat_bitlen n = (if n = 0 then 0 else Suc (nat_bitlen (n div 2)))"

declare nat_bitlen.simps [simp del]

definition big_BitLen :: "int \<Rightarrow> nat" where
  "big_BitLen v = nat_bitlen (nat \<bar>v\<bar>)"

lemma foldl_bytes_append:
  "foldl (\<lambda>a b. a * 256 + uint b) k bs = k * 256 ^ length bs + big_SetBytes (bs :: byte list)"
proof (induction bs arbitrary: k rule: rev_induct)
  case Nil
  then show ?case by (simp add: big_SetBytes_def)
next
  case (snoc b bs)
  have "big_SetBytes (bs @ [b]) = big_SetBytes bs * 256 + uint b"
    by (simp add: big_SetBytes_def)
  with snoc [of k] show ?case by (simp add: algebra_simps)
qed

lemma big_SetBytes_Nil [simp]: "big_SetBytes [] = 0"
  by (simp add: big_SetBytes_def)

lemma big_SetBytes_snoc [simp]: "big_SetBytes (bs @ [b]) = big_SetBytes bs * 256 + uint b"
  by (simp add: big_SetBytes_def)

lemma big_SetBytes_append: "big_SetBytes (xs @ ys) = big_SetBytes xs * 256 ^ length ys + big_SetBytes ys"
  using foldl_bytes_append [of "big_SetBytes xs" ys] by (simp add: big_SetBytes_def)

lemma uint_byte_bound [simp]: "uint (b :: byte) < 256"
  using unsigned_less [of b] by simp

lemma big_SetBytes_nonneg [simp]: "0 \<le> big_SetBytes bs"
  by (induction bs rule: rev_induct) simp_all

lemma big_SetBytes_less: "big_SetBytes bs < 256 ^ length bs"
proof (induction bs rule: rev_induct)
  case (snoc b bs)
  have "big_SetBytes bs + 1 \<le> 256 ^ length bs" using snoc by simp
  then have "(big_SetBytes bs + 1) * 256 \<le> 256 ^ length bs * 256" by simp
  with uint_byte_bound [of b] show ?case by (simp add: mult.commute del: uint_byte_bound)
qed simp

lemma big_SetBytes_replicate_0 [simp]: "big_SetBytes (replicate n 0) = 0"
  by (induction n) (simp_all add: big_SetBytes_def)

lemma big_SetBytes_nat_bytes [simp]: "big_SetBytes (nat_bytes n) = int n"
proof (induction n rule: nat_bytes.induct)
  case (1 n)
  show ?case
  proof (cases "n = 0")
    case False
    have "uint (of_nat (n mod 256) :: byte) = int (n mod 256)"
      by (simp add: unsigned_of_nat take_bit_eq_mod zmod_int)
    with "1" False show ?thesis
      by (subst nat_bytes.simps) (simp add: zmod_int zdiv_int)
  qed (simp add: nat_bytes.simps)
qed

lemma big_SetBytes_big_Bytes [simp]: "big_SetBytes (big_Bytes v) = \<bar>v\<bar>"
  by (simp add: big_Bytes_def)

lemma nat_bytes_0 [simp]: "nat_bytes 0 = []"
  by (simp add: nat_bytes.simps)

lemma nat_bytes_pos: "0 < n \<Longrightarrow> nat_bytes n = nat_bytes (n div 256) @ [of_nat (n mod 256)]"
  by (subst nat_bytes.simps) simp

lemma length_nat_bytes_le: "length (nat_bytes n) \<le> k \<longleftrightarrow> n < 256 ^ k"
proof (induction n arbitrary: k rule: nat_bytes.induct)
  case (1 n)
  show ?case
  proof (cases "n = 0")
    case False
    show ?thesis
    proof (cases k)
      case 0
      with False show ?thesis by (simp add: nat_bytes_pos)
    next
      case (Suc j)
      have "n < 256 * 256 ^ j \<longleftrightarrow> n div 256 < 256 ^ j" by (simp add: div_less_iff_less_mult mult.commute)
      with 1 [of j] False Suc show ?thesis by (simp add: nat_bytes_pos)
    qed
  qed simp
qed

lemma nat_bitlen_le_iff: "nat_bitlen n \<le> k \<longleftrightarrow> n < 2 ^ k"
proof (induction n arbitrary: k rule: nat_bitlen.induct)
  case (1 n)
  show ?case
  proof (cases "n = 0")
    case False
    show ?thesis
    proof (cases k)
      case 0
      with False show ?thesis by (simp add: nat_bitlen.simps)
    next
      case (Suc j)
      have "n < 2 * 2 ^ j \<longleftrightarrow> n div 2 < 2 ^ j" by linarith
      with "1" [of j] False Suc show ?thesis by (subst nat_bitlen.simps) simp
    qed
  qed (simp add: nat_bitlen.simps)
qed

lemma big_BitLen_le_iff: "big_BitLen v \<le> k \<longleftrightarrow> \<bar>v\<bar> < 2 ^ k"
  by (simp add: big_BitLen_def nat_bitlen_le_iff nat_less_iff)

section \<open>Fixed-size byte arrays\<close>

text \<open>\<open>[32]byte\<close> and \<open>[20]byte\<close> values are big-endian words; \<open>arr_bytes n w\<close> is the array's
  contents and \<open>arr_of bs\<close> the array with the contents \<open>bs\<close>.\<close>

definition arr_of :: "byte list \<Rightarrow> 'l::len word" where
  "arr_of bs = word_of_int (big_SetBytes bs)"

definition arr_bytes :: "nat \<Rightarrow> 'l::len word \<Rightarrow> byte list" where
  "arr_bytes n w = map (\<lambda>k. ucast (drop_bit (8 * (n - 1 - k)) w)) [0..<n]"

lemma length_arr_bytes [simp]: "length (arr_bytes n w) = n"
  by (simp add: arr_bytes_def)

lemma nth_arr_bytes: "k < n \<Longrightarrow> arr_bytes n w ! k = ucast (drop_bit (8 * (n - 1 - k)) w)"
  by (simp add: arr_bytes_def)

lemma big_SetBytes_Cons: "big_SetBytes (b # bs) = uint b * 256 ^ length bs + big_SetBytes bs"
  using big_SetBytes_append [of "[b]" bs] by (simp add: big_SetBytes_def)

lemma arr_bytes_Suc: "arr_bytes (Suc n) w = ucast (drop_bit (8 * n) w) # arr_bytes n w"
  by (simp add: arr_bytes_def upt_conv_Cons map_Suc_upt [symmetric] comp_def del: upt_Suc)

lemma uint_byte_at: "uint (ucast (drop_bit k w) :: byte) = (uint w div 2 ^ k) mod 256"
  by (simp add: unsigned_ucast_eq take_bit_eq_mod unsigned_drop_bit_eq drop_bit_eq_div [where 'a = int])

lemma big_SetBytes_arr_bytes: "big_SetBytes (arr_bytes n w) = uint w mod 256 ^ n"
proof (induction n)
  case 0
  then show ?case by (simp add: arr_bytes_def)
next
  case (Suc n)
  have "(2 :: int) ^ (8 * n) = 256 ^ n" by (simp add: power_mult)
  then have "big_SetBytes (arr_bytes (Suc n) w)
      = (uint w div 256 ^ n mod 256) * 256 ^ n + uint w mod 256 ^ n"
    by (simp add: arr_bytes_Suc big_SetBytes_Cons uint_byte_at Suc)
  also have "\<dots> = uint w mod (256 ^ n * 256)"
    by (subst zmod_zmult2_eq) simp_all
  finally show ?case by (simp add: mult.commute)
qed

lemma big_SetBytes_inj:
  assumes "length xs = length ys" and "big_SetBytes xs = big_SetBytes ys"
  shows "xs = ys"
  using assms
proof (induction xs arbitrary: ys rule: rev_induct)
  case (snoc x xs)
  then obtain y ys' where ys: "ys = ys' @ [y]" by (cases ys rule: rev_cases) auto
  have eq: "big_SetBytes xs * 256 + uint x = big_SetBytes ys' * 256 + uint y" using snoc.prems ys by simp
  have low: "(a * 256 + uint b) mod 256 = uint b" for a and b :: byte
    by (simp add: mod_pos_pos_trivial)
  have "x = y" using eq low [of "big_SetBytes xs" x] low [of "big_SetBytes ys'" y] by (simp add: word_uint_eq_iff)
  with eq snoc ys show ?case by simp
qed simp

lemma uint_arr_of: "256 ^ length bs \<le> (2 :: int) ^ LENGTH('l) \<Longrightarrow> uint (arr_of bs :: 'l::len word) = big_SetBytes bs"
  using big_SetBytes_less [of bs] by (simp add: arr_of_def uint_word_of_int_eq take_bit_int_eq_self)

lemma arr_of_arr_bytes: "256 ^ n = (2 :: int) ^ LENGTH('l) \<Longrightarrow> arr_of (arr_bytes n w) = (w :: 'l::len word)"
  by (simp add: arr_of_def big_SetBytes_arr_bytes)

lemma arr_bytes_arr_of:
  assumes "256 ^ length bs = (2 :: int) ^ LENGTH('l)"
  shows "arr_bytes (length bs) (arr_of bs :: 'l::len word) = bs"
  using assms big_SetBytes_less [of bs]
  by (intro big_SetBytes_inj) (simp_all add: big_SetBytes_arr_bytes uint_arr_of)

section \<open>The monad of the opcode handlers\<close>

text \<open>
  A handler \<open>func (i *Interpreter) opX(env *Environment) error\<close> changes the environment in
  place and may return an error at any point, with the changes made so far kept. Its model is
  a function from the environment to an error or a value, and the new environment in both
  cases. The error values the code compares or names are constructors, those built by
  \<open>fmt.Errorf\<close> keep the error they wrap, or their text; \<open>Panic\<close> is a run-time panic.
\<close>

datatype qerr =
    ErrStackOverflow | ErrStackUnderflow | ErrInvalidIndex
  | ErrMemoryOverflow | ErrOutOfGas | ErrGasOverflow
  | ErrInvalidOpcode | ErrInvalidJumpDest | ErrWriteProtection
  | ErrMaxCodeSizeExceeded | ErrContractAddressCollision | ErrExecutionReverted
  | ErrDepthExceeded | ErrInsufficientBalance | ErrInvalidNonce
  | ErrZeroAddress | ErrNonDeterministicOpcode | ErrInitCodeSizeExceeded
  | ErrInvalidBytecode | ErrCodeTooLarge | ErrInvalidPushData | ErrUnknownOpcode
  | ErrInvalidCodePrefix
  | ErrNegativeBigInt | ErrUnsupportedType | ErrExpectedString | ErrExpectedList
  | ErrCanonicalInt | ErrCanonicalSize | ErrValueTooLarge | ErrMoreThanOneValue
  | ErrElemTooLarge | EOL | EOF | ErrUnexpectedEOF
  | ErrMaxSizeExceeded | ErrMaxDepthExceeded | ErrMaxListLenExceeded | ErrInvalidInput | ErrNilInput
  | ErrDepositNotFound | ErrDepositAlreadyMinted | ErrInsufficientL1Liquidity
  | ErrWithdrawalAlreadyProcessed | ErrInvalidWithdrawalProof | ErrDepositNotFinalized
  | ErrInvalidStateTransition | ErrFraudProofInvalid | ErrBatchNotFound | ErrBatchFull | ErrInsufficientTxs
  | ErrBatchAlreadySubmitted | ErrBatchNotSubmitted | ErrBatchChallenged | ErrChallengePeriodNotOver | ErrInvalidGasLimit
  | Panic string | Errorf string

type_synonym 'a res = "qerr + 'a"
type_synonym ('e, 'a) op = "'e \<Rightarrow> 'a res \<times> 'e"

definition ret :: "'a \<Rightarrow> ('e, 'a) op" where
  "ret a = (\<lambda>e. (Inr a, e))"

definition fail :: "qerr \<Rightarrow> ('e, 'a) op" where
  "fail x = (\<lambda>e. (Inl x, e))"

definition bind :: "('e, 'a) op \<Rightarrow> ('a \<Rightarrow> ('e, 'b) op) \<Rightarrow> ('e, 'b) op" where
  "bind m k = (\<lambda>e. case m e of (Inl x, e') \<Rightarrow> (Inl x, e') | (Inr a, e') \<Rightarrow> k a e')"

definition gets :: "('e \<Rightarrow> 'a) \<Rightarrow> ('e, 'a) op" where
  "gets f = (\<lambda>e. (Inr (f e), e))"

definition modify :: "('e \<Rightarrow> 'e) \<Rightarrow> ('e, unit) op" where
  "modify f = (\<lambda>e. (Inr (), f e))"

definition lift_res :: "'a res \<Rightarrow> ('e, 'a) op" where
  "lift_res r = (\<lambda>e. (r, e))"

text \<open>The Go idiom \<open>x, err := f(); if err != nil { return g() }\<close>.\<close>

definition catch :: "('e, 'a) op \<Rightarrow> (qerr \<Rightarrow> ('e, 'b) op) \<Rightarrow> ('a \<Rightarrow> ('e, 'b) op) \<Rightarrow> ('e, 'b) op" where
  "catch m h k = (\<lambda>e. case m e of (Inl x, e') \<Rightarrow> h x e' | (Inr a, e') \<Rightarrow> k a e')"

definition guard :: "bool \<Rightarrow> qerr \<Rightarrow> ('e, unit) op" where
  "guard b x = (if b then ret () else fail x)"

text \<open>A method of a component of the state, run on the whole state.\<close>

definition zoom :: "('e \<Rightarrow> 's) \<Rightarrow> ('s \<Rightarrow> 'e \<Rightarrow> 'e) \<Rightarrow> ('s, 'a) op \<Rightarrow> ('e, 'a) op" where
  "zoom get put m = (\<lambda>e. case m (get e) of (r, s) \<Rightarrow> (r, put s e))"

text \<open>A \<open>defer\<close> statement: the cleanup runs on the environment the rest of the function leaves,
  whatever it returns.\<close>

definition deferring :: "('e \<Rightarrow> 'e) \<Rightarrow> ('e, 'a) op \<Rightarrow> ('e, 'a) op" where
  "deferring d m = (\<lambda>e. case m e of (r, e') \<Rightarrow> (r, d e'))"

lemma bind_ret [simp]: "bind (ret a) k = k a"
  by (simp add: bind_def ret_def)

lemma bind_fail [simp]: "bind (fail x) k = fail x"
  by (simp add: bind_def fail_def)

lemma bind_assoc [simp]: "bind (bind m k) l = bind m (\<lambda>a. bind (k a) l)"
  by (rule ext) (simp add: bind_def split: prod.split sum.split)

lemma run_ret [op_simps]: "ret a e = (Inr a, e)"
  by (simp add: ret_def)

lemma run_fail [op_simps]: "fail x e = (Inl x, e)"
  by (simp add: fail_def)

lemma run_gets [op_simps]: "gets f e = (Inr (f e), e)"
  by (simp add: gets_def)

lemma run_modify [op_simps]: "modify f e = (Inr (), f e)"
  by (simp add: modify_def)

lemma run_lift_res [op_simps]: "lift_res r e = (r, e)"
  by (simp add: lift_res_def)

lemma run_guard [op_simps]: "guard b x e = (if b then (Inr (), e) else (Inl x, e))"
  by (simp add: guard_def ret_def fail_def)

lemma run_bind [op_simps]:
  "bind m k e = (case m e of (Inl x, e') \<Rightarrow> (Inl x, e') | (Inr a, e') \<Rightarrow> k a e')"
  by (simp add: bind_def)

lemma run_catch [op_simps]:
  "catch m h k e = (case m e of (Inl x, e') \<Rightarrow> h x e' | (Inr a, e') \<Rightarrow> k a e')"
  by (simp add: catch_def)

lemma run_zoom [op_simps]: "zoom get put m e = (case m (get e) of (r, s) \<Rightarrow> (r, put s e))"
  by (simp add: zoom_def)

lemma run_deferring [op_simps]: "deferring d m e = (case m e of (r, e') \<Rightarrow> (r, d e'))"
  by (simp add: deferring_def)

section \<open>Hoare triples for handlers\<close>

text \<open>\<open>triple P m Q E\<close>: from a state in \<open>P\<close> the handler ends in \<open>Q\<close> of its value, or, with
  an error, in \<open>E\<close>.\<close>

definition triple :: "('e \<Rightarrow> bool) \<Rightarrow> ('e, 'a) op \<Rightarrow> ('a \<Rightarrow> 'e \<Rightarrow> bool) \<Rightarrow> ('e \<Rightarrow> bool) \<Rightarrow> bool" where
  "triple P m Q E \<longleftrightarrow> (\<forall>e. P e \<longrightarrow> (case m e of (Inl x, e') \<Rightarrow> E e' | (Inr a, e') \<Rightarrow> Q a e'))"

lemma triple_ret: "(\<And>e. P e \<Longrightarrow> Q a e) \<Longrightarrow> triple P (ret a) Q E"
  by (simp add: triple_def ret_def)

lemma triple_fail: "(\<And>e. P e \<Longrightarrow> E e) \<Longrightarrow> triple P (fail x) Q E"
  by (simp add: triple_def fail_def)

lemma triple_gets: "(\<And>e. P e \<Longrightarrow> Q (f e) e) \<Longrightarrow> triple P (gets f) Q E"
  by (simp add: triple_def gets_def)

lemma triple_bind:
  assumes "triple P m R E" and "\<And>a. triple (R a) (k a) Q E"
  shows "triple P (bind m k) Q E"
  using assms unfolding triple_def bind_def by (fastforce split: prod.splits sum.splits)

lemma triple_catch:
  assumes "triple P m R F" and "\<And>x. triple F (h x) Q E" and "\<And>a. triple (R a) (k a) Q E"
  shows "triple P (catch m h k) Q E"
  using assms unfolding triple_def catch_def by (fastforce split: prod.splits sum.splits)

lemma triple_if:
  "(b \<Longrightarrow> triple P m Q E) \<Longrightarrow> (\<not> b \<Longrightarrow> triple P n Q E) \<Longrightarrow> triple P (if b then m else n) Q E"
  by simp

lemma triple_guard:
  "(\<And>e. P e \<Longrightarrow> b \<Longrightarrow> Q () e) \<Longrightarrow> (\<And>e. P e \<Longrightarrow> \<not> b \<Longrightarrow> E e) \<Longrightarrow> triple P (guard b x) Q E"
  by (simp add: triple_def guard_def ret_def fail_def)

lemma triple_conseq:
  assumes "triple P m Q E" and "\<And>e. P' e \<Longrightarrow> P e" and "\<And>a e. Q a e \<Longrightarrow> Q' a e" and "\<And>e. E e \<Longrightarrow> E' e"
  shows "triple P' m Q' E'"
  using assms unfolding triple_def by (fastforce split: prod.splits sum.splits)

lemma triple_pre: "triple P m Q E \<Longrightarrow> (\<And>e. P' e \<Longrightarrow> P e) \<Longrightarrow> triple P' m Q E"
  by (simp add: triple_def)

lemma triple_elim:
  assumes "triple P m Q E" and "P e" and "m e = (r, e')"
  shows "(case r of Inl x \<Rightarrow> E e' | Inr a \<Rightarrow> Q a e')"
  using assms unfolding triple_def by (force split: prod.splits sum.splits)

section \<open>Relations kept by every step of a handler\<close>

text \<open>
  A contract between the state before and the state after an operation that holds of doing
  nothing and composes: gas is only spent, the read-only frame changes nothing, balances are
  not minted. Proved of the primitive operations it holds of every handler built from them. Some
  operations keep the relation only in some contexts; the context never changes.
\<close>

locale step_rel =
  fixes R :: "'e \<Rightarrow> 'e \<Rightarrow> bool"
    and context_of :: "'e \<Rightarrow> 'c"
  assumes R_refl: "R e e"
    and R_trans: "R a b \<Longrightarrow> R b c \<Longrightarrow> R a c"
    and R_context: "R a b \<Longrightarrow> context_of b = context_of a"
begin

definition keeps :: "('c \<Rightarrow> bool) \<Rightarrow> ('e, 'a) op \<Rightarrow> bool" where
  "keeps P m \<longleftrightarrow> (\<forall>e. P (context_of e) \<longrightarrow> R e (snd (m e)))"

lemma keepsI: "(\<And>e. P (context_of e) \<Longrightarrow> R e (snd (m e))) \<Longrightarrow> keeps P m"
  by (simp add: keeps_def)

lemma keepsD: "keeps P m \<Longrightarrow> P (context_of e) \<Longrightarrow> R e (snd (m e))"
  by (simp add: keeps_def)

lemma keeps_mono: "keeps Q m \<Longrightarrow> (\<And>c. P c \<Longrightarrow> Q c) \<Longrightarrow> keeps P m"
  by (simp add: keeps_def)

lemma keeps_ret: "keeps P (ret a)"
  by (simp add: keeps_def ret_def R_refl)

lemma keeps_fail: "keeps P (fail x)"
  by (simp add: keeps_def fail_def R_refl)

lemma keeps_gets: "keeps P (gets f)"
  by (simp add: keeps_def gets_def R_refl)

lemma keeps_lift: "keeps P (lift_res r)"
  by (simp add: keeps_def lift_res_def R_refl)

lemma keeps_bind:
  assumes "keeps P m" and "\<And>a. keeps P (k a)"
  shows "keeps P (bind m k)"
proof (rule keepsI)
  fix e
  assume P: "P (context_of e)"
  have 1: "R e (snd (m e))" using assms(1) P by (rule keepsD)
  moreover from R_context [OF 1] P have "R (snd (m e)) (snd (k a (snd (m e))))" for a
    by (intro keepsD [OF assms(2)]) simp
  ultimately show "R e (snd (bind m k e))"
    by (auto simp: bind_def split: prod.split sum.split intro: R_trans)
qed

lemma keeps_catch:
  assumes "keeps P m" and "\<And>x. keeps P (h x)" and "\<And>a. keeps P (k a)"
  shows "keeps P (catch m h k)"
proof (rule keepsI)
  fix e
  assume P: "P (context_of e)"
  have 1: "R e (snd (m e))" using assms(1) P by (rule keepsD)
  with R_context [OF 1] P have "R (snd (m e)) (snd (k a (snd (m e))))" "R (snd (m e)) (snd (h x (snd (m e))))" for a x
    by (auto intro: keepsD [OF assms(2)] keepsD [OF assms(3)])
  with 1 show "R e (snd (catch m h k e))"
    by (auto simp: catch_def split: prod.split sum.split intro: R_trans)
qed

lemma keeps_deferring:
  assumes "keeps P m" and "\<And>e. R e (d e)"
  shows "keeps P (deferring d m)"
  using assms by (auto simp: keeps_def deferring_def split: prod.split intro: R_trans)

text \<open>A test of the context is known to its branches.\<close>

lemma keeps_bind_context:
  assumes "\<And>v. keeps (\<lambda>c. P c \<and> f c = v) (k v)"
  shows "keeps P (bind (gets (\<lambda>e. f (context_of e))) k)"
  using assms by (auto simp: keeps_def bind_def gets_def)

lemma keeps_if: "(b \<Longrightarrow> keeps P m) \<Longrightarrow> (\<not> b \<Longrightarrow> keeps P n) \<Longrightarrow> keeps P (if b then m else n)"
  by simp

lemma keeps_case_option: "keeps P m \<Longrightarrow> (\<And>a. keeps P (k a)) \<Longrightarrow> keeps P (case x of None \<Rightarrow> m | Some a \<Rightarrow> k a)"
  by (cases x) simp_all

lemma keeps_case_sum: "(\<And>a. keeps P (m a)) \<Longrightarrow> (\<And>a. keeps P (k a)) \<Longrightarrow> keeps P (case x of Inl a \<Rightarrow> m a | Inr a \<Rightarrow> k a)"
  by (cases x) simp_all

lemma keeps_case_prod: "(\<And>a b. keeps P (m a b)) \<Longrightarrow> keeps P (case x of (a, b) \<Rightarrow> m a b)"
  by (cases x) simp

lemma keeps_let: "keeps P (f x) \<Longrightarrow> keeps P (let y = x in f y)"
  by simp

lemmas keeps_rules = keeps_ret keeps_fail keeps_gets keeps_lift keeps_bind keeps_catch
  keeps_if keeps_case_option keeps_case_sum keeps_case_prod keeps_let

end

end
