(* ===== verification/QVM_Stack.thy ===== *)
theory QVM_Stack
  imports Qau_Prelude
begin

text \<open>
  \<open>src/qvm/stack.go\<close>: the 256-bit \<open>Word\<close> with its conversions, and the execution stack. A
  \<open>Word\<close> is a \<open>[32]byte\<close>; the model keeps it as a 256-bit word whose big-endian contents are
  \<open>Word_Bytes\<close>, so the conversions are translated byte by byte and then shown to be the
  ordinary casts. The stack is the Go slice itself, its top at the end; the capacity of the
  backing array, which no operation can observe, is left out.
\<close>

section \<open>Words\<close>

definition MaxStackSize :: nat where "MaxStackSize = 1024"
definition WordSize :: nat where "WordSize = 32"

definition Word_Bytes :: "Word \<Rightarrow> byte list" where
  "Word_Bytes w = arr_bytes WordSize w"

definition NewWord :: "byte list \<Rightarrow> Word" where
  "NewWord data =
     (let data = (if length data > WordSize then drop (length data - WordSize) data else data)
      in arr_of (go_copy (replicate WordSize 0) (WordSize - length data) data))"

definition NewWordFromUint64 :: "u64 \<Rightarrow> Word" where
  "NewWordFromUint64 v =
     arr_of (foldl (\<lambda>w i. w[WordSize - 1 - i := ucast (drop_bit (8 * i) v)]) (replicate WordSize 0) [0..<8])"

definition NewWordFromBigInt :: "int option \<Rightarrow> Word" where
  "NewWordFromBigInt v = (case v of
     None \<Rightarrow> 0
   | Some v \<Rightarrow>
       (let bytes = big_Bytes v;
            bytes = (if length bytes > WordSize then drop (length bytes - WordSize) bytes else bytes)
        in arr_of (go_copy (replicate WordSize 0) (WordSize - length bytes) bytes)))"

definition ToUint64 :: "Word \<Rightarrow> u64" where
  "ToUint64 w = foldl (\<lambda>v i. v OR push_bit (8 * i) (ucast (Word_Bytes w ! (WordSize - 1 - i)))) 0 [0..<8]"

definition ToBigInt :: "Word \<Rightarrow> int" where
  "ToBigInt w = big_SetBytes (Word_Bytes w)"

definition Word_IsZero :: "Word \<Rightarrow> bool" where
  "Word_IsZero w = list_all (\<lambda>b. b = 0) (Word_Bytes w)"

section \<open>The stack\<close>

type_synonym Stack = "Word list"

definition NewStack :: Stack where
  "NewStack = []"

definition Stack_Push :: "Word \<Rightarrow> (Stack, unit) op" where
  "Stack_Push w = (\<lambda>data. if MaxStackSize \<le> length data then (Inl ErrStackOverflow, data) else (Inr (), data @ [w]))"

definition Stack_PushUint64 :: "u64 \<Rightarrow> (Stack, unit) op" where
  "Stack_PushUint64 v = Stack_Push (NewWordFromUint64 v)"

definition Stack_PushBigInt :: "int option \<Rightarrow> (Stack, unit) op" where
  "Stack_PushBigInt v = Stack_Push (NewWordFromBigInt v)"

definition Stack_Pop :: "(Stack, Word) op" where
  "Stack_Pop = (\<lambda>data. if length data = 0 then (Inl ErrStackUnderflow, data)
                       else (Inr (data ! (length data - 1)), take (length data - 1) data))"

definition Stack_PopUint64 :: "(Stack, u64) op" where
  "Stack_PopUint64 = bind Stack_Pop (\<lambda>w. ret (ToUint64 w))"

definition Stack_PopBigInt :: "(Stack, int) op" where
  "Stack_PopBigInt = bind Stack_Pop (\<lambda>w. ret (ToBigInt w))"

definition Stack_Peek :: "(Stack, Word) op" where
  "Stack_Peek = (\<lambda>data. if length data = 0 then (Inl ErrStackUnderflow, data)
                        else (Inr (data ! (length data - 1)), data))"

definition Stack_PeekN :: "int \<Rightarrow> (Stack, Word) op" where
  "Stack_PeekN n = (\<lambda>data. if n < 0 \<or> int (length data) \<le> n then (Inl ErrInvalidIndex, data)
                           else (Inr (data ! (length data - 1 - nat n)), data))"

definition Stack_Dup :: "int \<Rightarrow> (Stack, unit) op" where
  "Stack_Dup n = (\<lambda>data. if n < 1 \<or> int (length data) < n then (Inl ErrInvalidIndex, data)
                         else Stack_Push (data ! (length data - nat n)) data)"

definition Stack_Swap :: "int \<Rightarrow> (Stack, unit) op" where
  "Stack_Swap n = (\<lambda>data. if n < 1 \<or> int (length data) \<le> n then (Inl ErrInvalidIndex, data)
     else (let top = length data - 1 in (Inr (), data[top := data ! (top - nat n), top - nat n := data ! top])))"

definition Stack_Len :: "Stack \<Rightarrow> nat" where
  "Stack_Len data = length data"

definition Stack_Data :: "Stack \<Rightarrow> Word list" where
  "Stack_Data data = go_copy (replicate (length data) 0) 0 data"

definition Stack_Clear :: "Stack \<Rightarrow> Stack" where
  "Stack_Clear data = take 0 data"

definition Stack_Clone :: "Stack \<Rightarrow> Stack" where
  "Stack_Clone data = go_copy (replicate (length data) 0) 0 data"

section \<open>Conversions are the ordinary casts\<close>

lemma arr_of_zero_padded: "arr_of (replicate n 0 @ bs) = (arr_of bs :: 'l::len word)"
  by (simp add: arr_of_def big_SetBytes_append)

lemma go_copy_right_aligned:
  "length bs \<le> n \<Longrightarrow> go_copy (replicate n 0) (n - length bs) bs = replicate (n - length bs) 0 @ (bs :: byte list)"
  by (simp add: go_copy_def min_def)

lemma arr_of_drop: 
  assumes "WordSize < length bs"
  shows "arr_of (drop (length bs - WordSize) bs) = (arr_of bs :: Word)"
proof -
  let ?d = "drop (length bs - WordSize) bs"
  have "big_SetBytes bs = big_SetBytes (take (length bs - WordSize) bs) * 256 ^ length ?d + big_SetBytes ?d"
    by (metis append_take_drop_id big_SetBytes_append)
  also have "length ?d = 32" using assms by (simp add: WordSize_def)
  finally have "big_SetBytes bs mod 2 ^ 256 = big_SetBytes ?d mod 2 ^ 256" by simp
  then show ?thesis by (simp add: arr_of_def word_of_int_eq_iff take_bit_eq_mod)
qed

lemma NewWord_arr_of: "NewWord data = arr_of data"
proof (cases "WordSize < length data")
  case True
  then show ?thesis by (simp add: NewWord_def go_copy_def arr_of_drop)
next
  case False
  then show ?thesis by (simp add: NewWord_def go_copy_right_aligned arr_of_zero_padded)
qed

lemma NewWord_Word_Bytes [simp]: "NewWord (Word_Bytes w) = w"
  by (simp add: NewWord_arr_of Word_Bytes_def WordSize_def arr_of_arr_bytes)

lemma Word_Bytes_NewWord: "length bs = 32 \<Longrightarrow> Word_Bytes (NewWord bs) = bs"
  using arr_bytes_arr_of [of bs, where 'l = 256] by (simp add: NewWord_arr_of Word_Bytes_def WordSize_def)

lemma length_Word_Bytes [simp]: "length (Word_Bytes w) = 32"
  by (simp add: Word_Bytes_def WordSize_def)

lemma ToBigInt_uint [simp]: "ToBigInt w = uint w"
  using uint_lt2p [of w] by (simp add: ToBigInt_def Word_Bytes_def WordSize_def big_SetBytes_arr_bytes)

lemma NewWordFromBigInt_Some: "NewWordFromBigInt (Some v) = word_of_int \<bar>v\<bar>"
proof -
  have "NewWordFromBigInt (Some v) = NewWord (big_Bytes v)"
    by (simp add: NewWordFromBigInt_def NewWord_def Let_def)
  then show ?thesis by (simp add: NewWord_arr_of arr_of_def)
qed

lemma NewWordFromBigInt_None [simp]: "NewWordFromBigInt None = 0"
  by (simp add: NewWordFromBigInt_def)

lemma Word_IsZero_iff [simp]: "Word_IsZero w \<longleftrightarrow> w = 0"
proof
  assume "Word_IsZero w"
  then have "Word_Bytes w = replicate 32 0"
    by (simp add: Word_IsZero_def list_eq_iff_nth_eq list_all_length)
  then have "NewWord (Word_Bytes w) = 0" by (simp add: NewWord_arr_of arr_of_def del: NewWord_Word_Bytes)
  then show "w = 0" by simp
next
  assume "w = 0"
  then show "Word_IsZero w" by (simp add: Word_IsZero_def Word_Bytes_def arr_bytes_def list_all_iff)
qed

lemma foldl_update_from_right:
  "n \<le> N \<Longrightarrow> foldl (\<lambda>w i. w[N - 1 - i := f i]) (replicate N z) [0..<n] = replicate (N - n) z @ map f (rev [0..<n])"
proof (induction n)
  case (Suc n)
  then have "replicate (N - n) z = replicate (N - Suc n) z @ [z]"
    by (metis Suc_diff_Suc Suc_le_eq replicate_Suc replicate_append_same)
  with Suc show ?case by (simp add: list_update_append)
qed simp

lemma arr_bytes_rev: "map (\<lambda>i. ucast (drop_bit (8 * i) v)) (rev [0..<n]) = arr_bytes n v"
  by (induction n) (simp_all add: arr_bytes_Suc, simp add: arr_bytes_def)

lemma NewWordFromUint64_ucast [simp]: "NewWordFromUint64 v = ucast v"
proof -
  have "NewWordFromUint64 v = arr_of (arr_bytes 8 v)"
    unfolding NewWordFromUint64_def
    by (subst foldl_update_from_right) (simp_all add: WordSize_def arr_bytes_rev arr_of_zero_padded)
  also have "\<dots> = word_of_int (uint v)"
    using uint_lt2p [of v] by (simp add: arr_of_def big_SetBytes_arr_bytes)
  finally show ?thesis by simp
qed

lemma foldl_or_bytes:
  fixes w :: Word
  shows "n \<le> 8 \<Longrightarrow> foldl (\<lambda>v i. v OR push_bit (8 * i) (ucast (Word_Bytes w ! (WordSize - 1 - i)))) 0 [0..<n]
     = (take_bit (8 * n) (ucast w) :: u64)"
proof (induction n)
  case (Suc n)
  have "Word_Bytes w ! (WordSize - 1 - n) = ucast (drop_bit (8 * n) w)"
    using Suc.prems by (simp add: Word_Bytes_def WordSize_def nth_arr_bytes)
  with Suc show ?case by (simp) (rule bit_eqI, auto simp: bit_simps)
qed simp

lemma ToUint64_ucast [simp]: "ToUint64 w = ucast w"
  unfolding ToUint64_def foldl_or_bytes [OF order_refl] by (simp add: take_bit_word_eq_self)

section \<open>The stack as a bounded last-in first-out list\<close>

text \<open>
  The interface the opcode handlers rely on: a state read as a list with the top in front,
  \<open>push\<close> and \<open>pop\<close> at the front, an error and no change at the bounds.
\<close>

locale bounded_lifo =
  fixes items :: "'s \<Rightarrow> 'a list"
    and bound :: nat
    and push :: "'a \<Rightarrow> ('s, unit) op"
    and pop :: "('s, 'a) op"
  assumes push_ok: "length (items s) < bound \<Longrightarrow> \<exists>s'. push x s = (Inr (), s') \<and> items s' = x # items s"
    and push_full: "bound \<le> length (items s) \<Longrightarrow> push x s = (Inl ErrStackOverflow, s)"
    and pop_ok: "items s = x # xs \<Longrightarrow> \<exists>s'. pop s = (Inr x, s') \<and> items s' = xs"
    and pop_empty: "items s = [] \<Longrightarrow> pop s = (Inl ErrStackUnderflow, s)"
begin

primrec push_all :: "'a list \<Rightarrow> ('s, unit) op" where
  "push_all [] = ret ()"
| "push_all (x # xs) = bind (push x) (\<lambda>_. push_all xs)"

primrec pop_n :: "nat \<Rightarrow> ('s, 'a list) op" where
  "pop_n 0 = ret []"
| "pop_n (Suc n) = bind pop (\<lambda>x. bind (pop_n n) (\<lambda>xs. ret (x # xs)))"

lemma push_bound: "length (items s) \<le> bound \<Longrightarrow> length (items (snd (push x s))) \<le> bound"
  using push_ok [of s x] push_full [of s x] by (cases "length (items s) < bound") auto

lemma pop_bound: "length (items s) \<le> bound \<Longrightarrow> length (items (snd (pop s))) \<le> bound"
  using pop_ok [of s] pop_empty [of s] by (cases "items s") fastforce+

lemma pop_after_push:
  assumes "length (items s) < bound"
  shows "\<exists>s'. bind (push x) (\<lambda>_. pop) s = (Inr x, s') \<and> items s' = items s"
  using push_ok [OF assms, of x] by (auto simp: op_simps intro: pop_ok)

lemma push_all_items:
  "length (items s) + length xs \<le> bound \<Longrightarrow> \<exists>s'. push_all xs s = (Inr (), s') \<and> items s' = rev xs @ items s"
proof (induction xs arbitrary: s)
  case (Cons x xs)
  then obtain s1 where s1: "push x s = (Inr (), s1)" "items s1 = x # items s" using push_ok [of s x] by auto
  with Cons.IH [of s1] Cons.prems show ?case by (auto simp: op_simps)
qed (simp add: op_simps)

lemma pop_n_items:
  "n \<le> length (items s) \<Longrightarrow> \<exists>s'. pop_n n s = (Inr (take n (items s)), s') \<and> items s' = drop n (items s)"
proof (induction n arbitrary: s)
  case (Suc n)
  then obtain x xs where s: "items s = x # xs" by (cases "items s") auto
  with pop_ok obtain s1 where "pop s = (Inr x, s1)" "items s1 = xs" by blast
  with Suc.IH [of s1] Suc.prems s show ?case by (auto simp: op_simps)
qed (simp add: op_simps)

lemma pop_n_push_all:
  assumes "length (items s) + length xs \<le> bound"
  shows "\<exists>s'. bind (push_all xs) (\<lambda>_. pop_n (length xs)) s = (Inr (rev xs), s') \<and> items s' = items s"
proof -
  obtain s1 where s1: "push_all xs s = (Inr (), s1)" "items s1 = rev xs @ items s"
    using push_all_items [OF assms] by blast
  with pop_n_items [of "length xs" s1] show ?thesis by (auto simp: op_simps)
qed

end

lemma Stack_Pop_snoc [op_simps]: "Stack_Pop (s @ [w]) = (Inr w, s)"
  by (simp add: Stack_Pop_def nth_append)

lemma Stack_Pop_Nil [op_simps]: "Stack_Pop [] = (Inl ErrStackUnderflow, [])"
  by (simp add: Stack_Pop_def)

interpretation stk: bounded_lifo rev MaxStackSize Stack_Push Stack_Pop
proof unfold_locales
  fix s x xs
  assume "rev s = x # (xs :: Word list)"
  then have "s = rev xs @ [x]" by (metis rev.simps(2) rev_rev_ident)
  then show "\<exists>s'. Stack_Pop s = (Inr x, s') \<and> rev s' = xs" by (simp add: op_simps)
qed (simp_all add: Stack_Push_def Stack_Pop_def)

section \<open>The bound on every operation\<close>

definition Stack_ok :: "Stack \<Rightarrow> bool" where
  "Stack_ok s \<longleftrightarrow> length s \<le> MaxStackSize"

lemma Stack_ok_Push: "Stack_ok s \<Longrightarrow> Stack_ok (snd (Stack_Push w s))"
  using stk.push_bound [of s w] by (simp add: Stack_ok_def)

lemma Stack_ok_Pop: "Stack_ok s \<Longrightarrow> Stack_ok (snd (Stack_Pop s))"
  using stk.pop_bound [of s] by (simp add: Stack_ok_def)

lemma Stack_ok_Dup: "Stack_ok s \<Longrightarrow> Stack_ok (snd (Stack_Dup n s))"
  by (simp add: Stack_Dup_def Stack_ok_Push)

lemma Stack_ok_Swap: "Stack_ok s \<Longrightarrow> Stack_ok (snd (Stack_Swap n s))"
  by (simp add: Stack_Swap_def Stack_ok_def Let_def)

lemma Stack_Dup_rev:
  assumes "1 \<le> n" and "n \<le> length s" and "length s < MaxStackSize"
  shows "Stack_Dup (int n) s = (Inr (), s @ [rev s ! (n - 1)])"
  using assms by (simp add: Stack_Dup_def Stack_Push_def rev_nth)

lemma Stack_Swap_rev:
  assumes "1 \<le> n" and "n < length s"
  shows "\<exists>s'. Stack_Swap (int n) s = (Inr (), s') \<and> rev s' = (rev s)[0 := rev s ! n, n := rev s ! 0]"
proof -
  have "rev (s[length s - 1 := s ! (length s - 1 - n), length s - 1 - n := s ! (length s - 1)])
      = (rev s)[0 := rev s ! n, n := rev s ! 0]"
  proof -
    have idx: "length s - (length s - 1 - n) - 1 = n" "length s - (length s - 1) - 1 = 0"
      "length s - 1 - n < length s" "length s - 1 < length s" using assms by linarith+
    have "rev s ! n = s ! (length s - 1 - n)" "rev s ! 0 = s ! (length s - 1)"
      using assms rev_nth [of 0 s] rev_nth [of n s] by (auto simp: length_greater_0_conv [symmetric] simp del: length_greater_0_conv)
    then show ?thesis by (simp only: rev_update length_list_update idx)
  qed
  with assms show ?thesis by (simp add: Stack_Swap_def Let_def)
qed

lemma Stack_Swap_involution:
  assumes "1 \<le> n" and "n < int (length s)"
  shows "bind (Stack_Swap n) (\<lambda>_. Stack_Swap n) s = (Inr (), s)"
proof -
  let ?t = "length s - 1" and ?k = "length s - 1 - nat n"
  have "?k < ?t" "?t < length s" using assms by linarith+
  then have "(s[?t := s ! ?k, ?k := s ! ?t])[?t := s ! ?t, ?k := s ! ?k] = s"
    by (intro nth_equalityI) (auto simp: nth_list_update)
  then show ?thesis using assms \<open>?k < ?t\<close> by (simp add: Stack_Swap_def Let_def op_simps)
qed

lemma Stack_PeekN_Dup:
  assumes "0 \<le> n" and "Stack_PeekN n s = (Inr w, s)" and "length s < MaxStackSize"
  shows "Stack_Dup (n + 1) s = (Inr (), s @ [w])"
  using assms by (auto simp: Stack_PeekN_def Stack_Dup_def Stack_Push_def nat_add_distrib split: if_splits)

lemma Stack_copies [simp]: "Stack_Data s = s" "Stack_Clone s = s" "Stack_Clear s = []"
  by (simp_all add: Stack_Data_def Stack_Clone_def Stack_Clear_def go_copy_def)

section \<open>Properties\<close>

text \<open>C35: The byte-by-byte conversions of \<open>stack.go\<close> are the ordinary ones: a 64-bit value is
  zero-extended and read back by truncation, a big integer is reduced modulo 2 to the 256 (its
  sign dropped), a word is read as the unsigned number, and a byte string is read big-endian
  with the excess leading bytes dropped.\<close>

theorem word_conversions:
  "NewWordFromUint64 v = ucast v \<and> ToUint64 w = ucast w \<and> ToUint64 (NewWordFromUint64 v) = v \<and>
   NewWordFromBigInt (Some i) = word_of_int \<bar>i\<bar> \<and> ToBigInt w = uint w \<and> NewWordFromBigInt (Some (ToBigInt w)) = w \<and>
   NewWord bs = word_of_int (big_SetBytes bs) \<and> NewWord (Word_Bytes w) = w"
  using NewWord_Word_Bytes [of w]
  by (simp add: NewWordFromBigInt_Some NewWord_arr_of arr_of_def ucast_up_ucast_id is_up)

text \<open>The stack is a bounded last-in first-out list: values pushed onto a stack with room for
  them are popped in the reverse order and leave the stack as it was, and a push beyond 1024
  entries, or a pop from the empty stack, fails and changes nothing.\<close>

lemma stack_lifo:
  assumes "length s + length ws \<le> 1024" and "1024 \<le> length t"
  shows "bind (stk.push_all ws) (\<lambda>_. stk.pop_n (length ws)) s = (Inr (rev ws), s) \<and>
    Stack_Push w t = (Inl ErrStackOverflow, t) \<and> Stack_Pop [] = (Inl ErrStackUnderflow, [])"
  using stk.pop_n_push_all [of s ws] assms by (auto simp: Stack_Push_def Stack_Pop_def MaxStackSize_def)

end
