(* ===== verification/QVM_Memory.thy ===== *)
theory QVM_Memory
  imports QVM_Stack
begin

text \<open>
  \<open>src/qvm/memory.go\<close>: the linear memory of a call frame and the gas price of its size. The
  memory is its byte slice; an operation that reads also expands, so reads are operations too.
  The lemmas view a memory as a function from addresses to bytes that is zero outside the
  slice (\<open>byte_at\<close>), which expansion does not change.
\<close>

section \<open>Operations\<close>

definition MaxMemorySize :: u64 where "MaxMemorySize = 33554432"
definition MemoryPageSize :: u64 where "MemoryPageSize = 32"

type_synonym Memory = "byte list"

definition NewMemory :: Memory where
  "NewMemory = []"

definition Memory_expand :: "u64 \<Rightarrow> u64 \<Rightarrow> (Memory, unit) op" where
  "Memory_expand offset sz = (\<lambda>data.
     if sz = 0 then (Inr (), data)
     else if offset > MaxMemorySize then (Inl ErrMemoryOverflow, data)
     else if sz > MaxMemorySize then (Inl ErrMemoryOverflow, data)
     else let end' = offset + sz in
       if end' < offset \<or> end' < sz then (Inl ErrMemoryOverflow, data)
       else if end' > MaxMemorySize then (Inl ErrMemoryOverflow, data)
       else if end' < offset \<or> end' < sz then (Inl ErrMemoryOverflow, data)
       else if end' > ulen data then
         let pagesNeeded = (end' + MemoryPageSize - 1) div MemoryPageSize in
           if pagesNeeded > MaxMemorySize div MemoryPageSize then (Inl ErrMemoryOverflow, data)
           else let newSize = pagesNeeded * MemoryPageSize;
                    newSize = (if newSize > MaxMemorySize then MaxMemorySize else newSize) in
             if newSize < end' then (Inl ErrMemoryOverflow, data)
             else (Inr (), go_copy (replicate (unat newSize) 0) 0 data)
       else (Inr (), data))"

definition Memory_Set :: "u64 \<Rightarrow> byte list \<Rightarrow> (Memory, unit) op" where
  "Memory_Set offset bs =
     (if length bs = 0 then ret ()
      else bind (Memory_expand offset (ulen bs)) (\<lambda>_. modify (\<lambda>data. go_copy data (unat offset) bs)))"

definition Memory_SetByte :: "u64 \<Rightarrow> byte \<Rightarrow> (Memory, unit) op" where
  "Memory_SetByte offset value =
     bind (Memory_expand offset 1) (\<lambda>_. modify (\<lambda>data. data[unat offset := value]))"

definition Memory_Set32 :: "u64 \<Rightarrow> Word \<Rightarrow> (Memory, unit) op" where
  "Memory_Set32 offset value = Memory_Set offset (Word_Bytes value)"

definition Memory_Get :: "u64 \<Rightarrow> u64 \<Rightarrow> (Memory, byte list) op" where
  "Memory_Get offset sz =
     (if sz = 0 then ret []
      else bind (Memory_expand offset sz) (\<lambda>_.
           gets (\<lambda>data. go_copy (replicate (unat sz) 0) 0 (slice data (unat offset) (unat (offset + sz))))))"

definition Memory_GetPtr :: "u64 \<Rightarrow> u64 \<Rightarrow> (Memory, byte list) op" where
  "Memory_GetPtr offset sz =
     (if sz = 0 then ret []
      else bind (Memory_expand offset sz) (\<lambda>_.
           gets (\<lambda>data. go_copy (replicate (unat sz) 0) 0 (slice data (unat offset) (unat (offset + sz))))))"

definition Memory_GetPtrCopy :: "u64 \<Rightarrow> u64 \<Rightarrow> (Memory, byte list) op" where
  "Memory_GetPtrCopy offset sz =
     (if sz = 0 then ret []
      else bind (Memory_expand offset sz) (\<lambda>_.
           gets (\<lambda>data. go_copy (replicate (unat sz) 0) 0 (slice data (unat offset) (unat (offset + sz))))))"

definition Memory_GetByte :: "u64 \<Rightarrow> (Memory, byte) op" where
  "Memory_GetByte offset = bind (Memory_expand offset 1) (\<lambda>_. gets (\<lambda>data. data ! unat offset))"

definition Memory_Get32 :: "u64 \<Rightarrow> (Memory, Word) op" where
  "Memory_Get32 offset = bind (Memory_Get offset 32) (\<lambda>data. ret (NewWord data))"

definition Memory_Copy :: "u64 \<Rightarrow> u64 \<Rightarrow> u64 \<Rightarrow> (Memory, unit) op" where
  "Memory_Copy destOffset srcOffset sz =
     (if sz = 0 then ret ()
      else if destOffset + sz < destOffset then fail ErrMemoryOverflow
      else if srcOffset + sz < srcOffset then fail ErrMemoryOverflow
      else let maxOffset = destOffset + sz;
               maxOffset = (if srcOffset + sz > maxOffset then srcOffset + sz else maxOffset)
           in bind (Memory_expand 0 maxOffset) (\<lambda>_.
                modify (\<lambda>data. go_copy data (unat destOffset)
                                 (slice data (unat srcOffset) (unat (srcOffset + sz))))))"

definition Memory_Size :: "Memory \<Rightarrow> u64" where
  "Memory_Size data = ulen data"

definition Memory_Clear :: "Memory \<Rightarrow> Memory" where
  "Memory_Clear data = take 0 (map (\<lambda>_. 0) data)"

definition Memory_ZeroRange :: "u64 \<Rightarrow> u64 \<Rightarrow> (Memory, unit) op" where
  "Memory_ZeroRange offset sz =
     (if sz = 0 then ret ()
      else let end' = offset + sz in
        if end' < offset \<or> end' < sz then fail ErrMemoryOverflow
        else bind (Memory_expand offset sz) (\<lambda>_.
               modify (\<lambda>data. foldl (\<lambda>d i. d[i := 0]) data [unat offset..<unat end'])))"

definition Memory_Clone :: "Memory \<Rightarrow> Memory" where
  "Memory_Clone data = go_copy (replicate (length data) 0) 0 data"

definition Memory_Data :: "Memory \<Rightarrow> byte list" where
  "Memory_Data data = go_copy (replicate (length data) 0) 0 data"

definition MemoryCost :: "u64 \<Rightarrow> u64" where
  "MemoryCost sz =
     (if sz = 0 then 0
      else if sz > MaxMemorySize then NOT 0
      else if sz > MaxUint64 - 31 then NOT 0
      else let words = (sz + 31) div 32;
               linear = words * 3 in
        if words > 4294967296 then NOT 0
        else let quadratic = (words * words) div 512 in
          if linear > NOT 0 - quadratic then NOT 0
          else linear + quadratic)"

definition MemoryExpansionCost :: "u64 \<Rightarrow> u64 \<Rightarrow> u64" where
  "MemoryExpansionCost currentSize newSize =
     (if newSize \<le> currentSize then 0
      else let newCost = MemoryCost newSize;
               currentCost = MemoryCost currentSize in
        if newCost = NOT 0 \<or> currentCost = NOT 0 then NOT 0
        else if newCost < currentCost then NOT 0
        else newCost - currentCost)"

section \<open>Expansion\<close>

definition round32 :: "nat \<Rightarrow> nat" where
  "round32 n = (n + 31) div 32 * 32"

definition Memory_ok :: "Memory \<Rightarrow> bool" where
  "Memory_ok m \<longleftrightarrow> length m \<le> 33554432 \<and> 32 dvd length m"

definition byte_at :: "Memory \<Rightarrow> nat \<Rightarrow> byte" where
  "byte_at m k = (if k < length m then m ! k else 0)"

lemma round32_ge: "n \<le> round32 n"
  unfolding round32_def by linarith

lemma round32_dvd [simp]: "32 dvd round32 n"
  by (simp add: round32_def)

lemma round32_mono: "m \<le> n \<Longrightarrow> round32 m \<le> round32 n"
  by (simp add: round32_def div_le_mono)

lemma round32_eq [simp]: "32 dvd n \<Longrightarrow> round32 n = n"
  by (auto simp: round32_def dvd_def)

lemma go_copy_grow: "length m \<le> n \<Longrightarrow> go_copy (replicate n 0) 0 m = m @ replicate (n - length m) 0"
  by (simp add: go_copy_def min_def)

lemma Memory_ok_ulen: "Memory_ok m \<Longrightarrow> unat (ulen m) = length m"
  by (simp add: Memory_ok_def unat_ulen)

lemma unat_page_round:
  assumes "unat (e :: u64) \<le> 33554432"
  shows "unat ((e + MemoryPageSize - 1) div MemoryPageSize) = (unat e + 31) div 32"
    and "unat ((e + MemoryPageSize - 1) div MemoryPageSize * MemoryPageSize) = round32 (unat e)"
proof -
  have "e + MemoryPageSize - 1 = e + 31" by (simp add: MemoryPageSize_def)
  then show 1: "unat ((e + MemoryPageSize - 1) div MemoryPageSize) = (unat e + 31) div 32"
    using assms by (simp add: unat_div64 unat_add64_id MemoryPageSize_def)
  have "(unat e + 31) div 32 * 32 \<le> 33554463" using assms by linarith
  then show "unat ((e + MemoryPageSize - 1) div MemoryPageSize * MemoryPageSize) = round32 (unat e)"
    using 1 unfolding round32_def by (subst unat_mult64_id) (simp_all add: MemoryPageSize_def)
qed

lemma round32_le_max: "n \<le> 33554432 \<Longrightarrow> round32 n \<le> 33554432"
  using round32_mono [of n 33554432] by simp

lemma expand_eq:
  assumes "Memory_ok m"
  shows "Memory_expand off sz m =
     (if sz = 0 then (Inr (), m)
      else if unat off + unat sz \<le> 33554432
      then (Inr (), m @ replicate (round32 (unat off + unat sz) - length m) 0)
      else (Inl ErrMemoryOverflow, m))"
proof (cases "sz \<noteq> 0 \<and> unat off \<le> 33554432 \<and> unat sz \<le> 33554432")
  case False
  then show ?thesis by (auto simp: Memory_expand_def MaxMemorySize_def word_less_nat_alt)
next
  case True
  let ?e = "off + sz"
  have e: "unat ?e = unat off + unat sz" using True by (intro unat_add64_id) simp
  show ?thesis
  proof (cases "unat off + unat sz \<le> 33554432")
    case False
    with True e show ?thesis
      by (simp add: Memory_expand_def MaxMemorySize_def word_less_nat_alt Let_def)
  next
    case le: True
    note pages = unat_page_round [of ?e, unfolded e, OF le]
    show ?thesis
    proof (cases "unat ?e > length m")
      case False
      have "round32 (unat off + unat sz) \<le> length m"
        using False e assms round32_mono [of "unat ?e" "length m"] by (simp add: Memory_ok_def)
      with True False le e assms show ?thesis
        by (simp add: Memory_expand_def MaxMemorySize_def word_less_nat_alt Let_def Memory_ok_ulen)
    next
      case gt: True
      have 1: "(unat off + unat sz + 31) div 32 \<le> 1048576" using le by linarith
      have 2: "round32 (unat off + unat sz) \<le> 33554432" using le by (rule round32_le_max)
      have 3: "unat off + unat sz \<le> round32 (unat off + unat sz)" by (rule round32_ge)
      have 4: "length m \<le> round32 (unat off + unat sz)" using gt 3 e by linarith
      have "\<not> MaxMemorySize div MemoryPageSize < (?e + MemoryPageSize - 1) div MemoryPageSize"
        using 1 pages by (simp add: word_less_nat_alt MaxMemorySize_def MemoryPageSize_def unat_div64)
      moreover have "\<not> MaxMemorySize < (?e + MemoryPageSize - 1) div MemoryPageSize * MemoryPageSize"
        using 2 pages by (simp add: word_less_nat_alt MaxMemorySize_def)
      moreover have "\<not> (?e + MemoryPageSize - 1) div MemoryPageSize * MemoryPageSize < ?e"
        using 3 pages e by (simp add: word_less_nat_alt)
      moreover have "ulen m < ?e" using gt assms by (simp add: word_less_nat_alt Memory_ok_ulen)
      moreover have "\<not> MaxMemorySize < ?e" "\<not> ?e < off" "\<not> ?e < sz" "\<not> MaxMemorySize < off" "\<not> MaxMemorySize < sz"
        using True le e by (simp_all add: word_less_nat_alt MaxMemorySize_def)
      ultimately show ?thesis
        using True le 4 pages(2) unfolding Memory_expand_def Let_def by (simp add: go_copy_grow)
    qed
  qed
qed

lemma byte_at_append_zeros [simp]: "byte_at (m @ replicate n 0) k = byte_at m k"
  by (simp add: byte_at_def nth_append)

lemma Memory_ok_grow:
  "Memory_ok m \<Longrightarrow> n \<le> 33554432 \<Longrightarrow> Memory_ok (m @ replicate (round32 n - length m) 0)"
  using round32_le_max [of n] by (cases "length m \<le> round32 n") (auto simp: Memory_ok_def)

lemma length_grow: "length (m @ replicate (round32 n - length m) (0 :: byte)) = max (length m) (round32 n)"
  by (simp add: max_def)

text \<open>What an operation does on success and on failure, for memories that satisfy the invariant.\<close>

lemma expand_cases [consumes 1, case_names ok bad]:
  assumes "Memory_ok m"
  obtains (ok) m' where "Memory_expand off sz m = (Inr (), m')" "Memory_ok m'" "byte_at m' = byte_at m"
      "length m \<le> length m'" "sz \<noteq> 0 \<Longrightarrow> unat off + unat sz \<le> length m'"
      "sz \<noteq> 0 \<Longrightarrow> unat off + unat sz \<le> 33554432"
    | (bad) "Memory_expand off sz m = (Inl ErrMemoryOverflow, m)" "sz \<noteq> 0" "33554432 < unat off + unat sz"
proof (cases "sz = 0")
  case True
  then show ?thesis using assms ok [of m] by (simp add: expand_eq)
next
  case False
  show ?thesis
  proof (cases "unat off + unat sz \<le> 33554432")
    case True
    let ?m = "m @ replicate (round32 (unat off + unat sz) - length m) 0"
    show ?thesis
    proof (rule ok [of ?m])
      show "unat off + unat sz \<le> length ?m"
        using round32_ge [of "unat off + unat sz"] unfolding length_grow by linarith
    qed (use assms False True in \<open>auto simp: expand_eq Memory_ok_grow\<close>)
  qed (use assms False bad in \<open>simp add: expand_eq\<close>)
qed

lemma Memory_ok_go_copy: "Memory_ok m \<Longrightarrow> off \<le> length m \<Longrightarrow> Memory_ok (go_copy m off bs)"
  by (simp add: Memory_ok_def)

lemma byte_at_go_copy:
  assumes "off + length bs \<le> length m"
  shows "byte_at (go_copy m off bs) k = (if off \<le> k \<and> k < off + length bs then bs ! (k - off) else byte_at m k)"
  using assms by (auto simp: byte_at_def go_copy_def nth_append min_def)

lemma slice_byte_at: "off + n \<le> length m \<Longrightarrow> slice m off (off + n) = map (byte_at m) [off..<off + n]"
  by (auto simp: slice_def byte_at_def list_eq_iff_nth_eq)

lemma Memory_Set_spec:
  assumes "Memory_ok m" and "unat off + length bs \<le> 33554432"
  shows "\<exists>m'. Memory_Set off bs m = (Inr (), m') \<and> Memory_ok m' \<and>
     (\<forall>k. byte_at m' k = (if unat off \<le> k \<and> k < unat off + length bs then bs ! (k - unat off) else byte_at m k))"
proof (cases "bs = []")
  case True
  then show ?thesis using assms by (auto simp: Memory_Set_def op_simps)
next
  case False
  have len: "unat (ulen bs) = length bs" using assms by (simp add: unat_ulen)
  with False have nz: "ulen bs \<noteq> 0" by auto
  from assms(1) show ?thesis
  proof (cases rule: expand_cases [of _ off "ulen bs"])
    case (ok m')
    with assms len nz False show ?thesis
      by (auto simp: Memory_Set_def op_simps byte_at_go_copy Memory_ok_go_copy)
  next
    case bad
    with assms len show ?thesis by simp
  qed
qed

lemma Memory_Get_spec:
  assumes "Memory_ok m" and "unat off + unat sz \<le> 33554432"
  shows "\<exists>m'. Memory_Get off sz m = (Inr (map (byte_at m) [unat off..<unat off + unat sz]), m')
     \<and> Memory_ok m' \<and> byte_at m' = byte_at m"
proof (cases "sz = 0")
  case True
  then show ?thesis using assms by (simp add: Memory_Get_def op_simps)
next
  case False
  from assms(1) show ?thesis
  proof (cases rule: expand_cases [of _ off sz])
    case (ok m')
    have sum: "unat (off + sz) = unat off + unat sz" using assms by (intro unat_add64_id) simp
    have "slice m' (unat off) (unat off + unat sz) = map (byte_at m') [unat off..<unat off + unat sz]"
      using ok False by (simp add: slice_byte_at)
    with ok False sum show ?thesis by (simp add: Memory_Get_def op_simps go_copy_def)
  next
    case bad
    with assms show ?thesis by simp
  qed
qed

lemma Memory_Get_fail:
  assumes "Memory_ok m" and "33554432 < unat off + unat sz" and "sz \<noteq> 0"
  shows "Memory_Get off sz m = (Inl ErrMemoryOverflow, m)"
  using assms by (simp add: Memory_Get_def op_simps expand_eq)

lemma Memory_Set_fail:
  assumes "Memory_ok m" and "33554432 < unat off + length bs" and "bs \<noteq> []" and "length bs < 18446744073709551616"
  shows "Memory_Set off bs m = (Inl ErrMemoryOverflow, m)"
proof -
  have "unat (ulen bs) = length bs" using assms by (simp add: unat_ulen)
  moreover from this have "ulen bs \<noteq> 0" using assms by auto
  ultimately show ?thesis using assms by (simp add: Memory_Set_def op_simps expand_eq)
qed

lemma Memory_Get_variants: "Memory_GetPtr = Memory_Get" "Memory_GetPtrCopy = Memory_Get"
  by (simp_all add: fun_eq_iff Memory_GetPtr_def Memory_GetPtrCopy_def Memory_Get_def)

lemma Memory_SetByte_Set: "Memory_ok m \<Longrightarrow> Memory_SetByte off b m = Memory_Set off [b] m"
proof -
  assume ok: "Memory_ok m"
  have "ulen [b] = 1" by (simp add: ulen_def)
  moreover have "d[k := b] = go_copy d k [b]" if "k < length d" for d k
    using that by (simp add: go_copy_def upd_conv_take_nth_drop min_def)
  ultimately show ?thesis
    by (cases rule: expand_cases [OF ok, of off 1]) (simp_all add: Memory_SetByte_def Memory_Set_def op_simps)
qed

lemma Memory_GetByte_Get:
  assumes "Memory_ok m" and "unat off < 33554432"
  shows "\<exists>m'. Memory_GetByte off m = (Inr (byte_at m (unat off)), m') \<and> Memory_ok m' \<and> byte_at m' = byte_at m"
  using assms(1)
proof (cases rule: expand_cases [of _ off 1])
  case (ok m')
  have "m' ! unat off = byte_at m' (unat off)" using ok(5) by (simp add: byte_at_def)
  with ok show ?thesis by (simp add: Memory_GetByte_def op_simps)
next
  case bad
  with assms show ?thesis by simp
qed

text \<open>\<open>Memory.Copy\<close> moves a range as if through a temporary buffer, whatever the overlap.\<close>

lemma Memory_Copy_spec:
  assumes "Memory_ok m" and "unat dst + unat sz \<le> 33554432" and "unat src + unat sz \<le> 33554432"
  shows "\<exists>m'. Memory_Copy dst src sz m = (Inr (), m') \<and> Memory_ok m' \<and>
     (\<forall>k. byte_at m' k = (if unat dst \<le> k \<and> k < unat dst + unat sz then byte_at m (unat src + (k - unat dst)) else byte_at m k))"
proof (cases "sz = 0")
  case True
  then show ?thesis using assms by (auto simp: Memory_Copy_def op_simps)
next
  case False
  have d: "unat (dst + sz) = unat dst + unat sz" and s: "unat (src + sz) = unat src + unat sz"
    using assms by (auto intro!: unat_add64_id)
  let ?max = "if dst + sz < src + sz then src + sz else dst + sz"
  have nowrap: "\<not> dst + sz < dst" "\<not> src + sz < src" using d s by (simp_all add: word_less_nat_alt)
  have m0: "?max \<noteq> 0" and le: "unat ?max \<le> 33554432" "unat dst + unat sz \<le> unat ?max" "unat src + unat sz \<le> unat ?max"
    using assms False d s by (auto simp: word_less_nat_alt unat_eq_zero [symmetric])
  from assms(1) show ?thesis
  proof (cases rule: expand_cases [of _ 0 ?max])
    case (ok m')
    then have len: "unat ?max \<le> length m'" using m0 by simp
    have sl: "slice m' (unat src) (unat (src + sz)) = map (byte_at m') [unat src..<unat src + unat sz]"
      unfolding s using len le by (intro slice_byte_at) linarith
    have "Memory_Copy dst src sz m = (Inr (), go_copy m' (unat dst) (map (byte_at m) [unat src..<unat src + unat sz]))"
      using ok False nowrap sl by (simp add: Memory_Copy_def Let_def op_simps)
    moreover have "unat dst + length (map (byte_at m) [unat src..<unat src + unat sz]) \<le> length m'"
      using len le by simp
    moreover have "map (byte_at m) [unat src..<unat src + unat sz] ! (k - unat dst) = byte_at m (unat src + (k - unat dst))"
      if "unat dst \<le> k" "k < unat dst + unat sz" for k
      using that by (subst nth_map) auto
    ultimately show ?thesis using ok by (auto simp: byte_at_go_copy Memory_ok_go_copy)
  next
    case bad
    with le show ?thesis by simp
  qed
qed

lemma length_foldl_zero [simp]: "length (foldl (\<lambda>d i. d[i := 0]) d [a..<b]) = length d"
  by (induction b) simp_all

lemma foldl_zero_nth: "k < length d \<Longrightarrow> foldl (\<lambda>d i. d[i := 0]) d [a..<b] ! k = (if a \<le> k \<and> k < b then 0 else d ! k)"
  by (induction b) (auto simp: nth_list_update less_Suc_eq)

lemma Memory_ZeroRange_spec:
  assumes "Memory_ok m" and "unat off + unat sz \<le> 33554432"
  shows "\<exists>m'. Memory_ZeroRange off sz m = (Inr (), m') \<and> Memory_ok m' \<and>
     (\<forall>k. byte_at m' k = (if unat off \<le> k \<and> k < unat off + unat sz then 0 else byte_at m k))"
proof (cases "sz = 0")
  case True
  then show ?thesis using assms by (auto simp: Memory_ZeroRange_def op_simps)
next
  case False
  have sum: "unat (off + sz) = unat off + unat sz" using assms by (intro unat_add64_id) simp
  from assms(1) show ?thesis
  proof (cases rule: expand_cases [of _ off sz])
    case (ok m')
    let ?z = "foldl (\<lambda>d i. d[i := 0]) m' [unat off..<unat off + unat sz]"
    have "byte_at ?z k = (if unat off \<le> k \<and> k < unat off + unat sz then 0 else byte_at m k)" for k
      using ok(3) [symmetric] by (simp add: byte_at_def foldl_zero_nth length_foldl_zero)
    with ok False sum show ?thesis
      by (simp add: Memory_ZeroRange_def op_simps Let_def word_less_nat_alt Memory_ok_def length_foldl_zero)
  next
    case bad
    with assms show ?thesis by simp
  qed
qed

lemma Memory_Get32_Set32:
  assumes "Memory_ok m" and "unat off + 32 \<le> 33554432"
  shows "fst (bind (Memory_Set32 off w) (\<lambda>_. Memory_Get32 off) m) = Inr w"
proof -
  obtain m1 where m1: "Memory_Set off (Word_Bytes w) m = (Inr (), m1)" "Memory_ok m1"
    "\<And>k. byte_at m1 k = (if unat off \<le> k \<and> k < unat off + 32 then Word_Bytes w ! (k - unat off) else byte_at m k)"
    using Memory_Set_spec [of m off "Word_Bytes w"] assms by auto
  have "map (byte_at m1) [unat off..<unat off + 32] = Word_Bytes w"
    using m1(3) by (simp add: list_eq_iff_nth_eq)
  with Memory_Get_spec [OF m1(2), of off 32] assms m1(1) show ?thesis
    by (auto simp: Memory_Set32_def Memory_Get32_def op_simps)
qed

section \<open>The price of memory\<close>

definition mem_cost :: "nat \<Rightarrow> nat" where
  "mem_cost n = (let w = (n + 31) div 32 in 3 * w + w * w div 512)"

lemma mem_cost_mono: "m \<le> n \<Longrightarrow> mem_cost m \<le> mem_cost n"
  unfolding mem_cost_def Let_def by (intro add_mono mult_mono div_le_mono) simp_all

lemma mem_cost_round32 [simp]: "mem_cost (round32 n) = mem_cost n"
  by (simp add: mem_cost_def round32_def Let_def)

lemma mem_cost_bound:
  assumes "n \<le> 33554432"
  shows "mem_cost n \<le> 2150629376"
proof -
  have "mem_cost n \<le> mem_cost 33554432" using assms by (rule mem_cost_mono)
  also have "\<dots> = 2150629376" by (simp add: mem_cost_def)
  finally show ?thesis .
qed

text \<open>The 64-bit computation of the price does not wrap for sizes up to the maximum.\<close>

lemma mem_cost_words:
  fixes s :: u64
  assumes "unat s \<le> 33554432"
  defines "w \<equiv> (s + 31) div 32"
  shows "\<not> w > 4294967296" and "\<not> w * 3 > MaxUint64 - w * w div 512"
    and "unat (w * 3 + w * w div 512) = mem_cost (unat s)"
proof -
  have w: "unat w = (unat s + 31) div 32" using assms by (simp add: unat_div64 unat_add64_id)
  have wle: "unat w \<le> 1048576" unfolding w using assms by linarith
  have sq: "unat w * unat w \<le> 1048576 * 1048576" by (intro mult_mono wle) simp_all
  have q: "unat (w * w div 512) = unat w * unat w div 512"
    unfolding unat_div64 [of "w * w"] using sq by (subst unat_mult64_id) simp_all
  have l: "unat (w * 3) = 3 * unat w" using wle by (subst unat_mult64_id) simp_all
  have sum: "unat (w * 3) + unat (w * w div 512) < 18446744073709551616" using wle sq unfolding q l by linarith
  show "\<not> w > 4294967296" using wle by (simp add: word_less_nat_alt)
  show "\<not> w * 3 > MaxUint64 - w * w div 512" using sum unfolding gt_Max_sub_iff by simp
  show "unat (w * 3 + w * w div 512) = mem_cost (unat s)"
    using sum unfolding mem_cost_def w [symmetric] Let_def by (simp add: unat_add64_id q l)
qed

lemma unat_MemoryCost:
  assumes "unat s \<le> 33554432"
  shows "unat (MemoryCost s) = mem_cost (unat s)"
proof (cases "s = 0")
  case True
  then show ?thesis by (simp add: MemoryCost_def mem_cost_def)
next
  case False
  have max: "(- 1 :: u64) = MaxUint64" by (simp add: MaxUint64_def)
  have "\<not> s > MaxMemorySize" "\<not> s > MaxUint64 - 31"
    using assms unfolding gt_Max_sub_iff by (simp_all add: word_less_nat_alt MaxMemorySize_def)
  with False mem_cost_words [OF assms] show ?thesis by (simp add: MemoryCost_def Let_def max)
qed

lemma MemoryCost_max: "33554432 < unat s \<Longrightarrow> MemoryCost s = MaxUint64"
  by (auto simp: MemoryCost_def MaxMemorySize_def word_less_nat_alt MaxUint64_def)

lemma unat_MemoryExpansionCost:
  assumes "unat cur \<le> 33554432" and "unat new \<le> 33554432"
  shows "unat (MemoryExpansionCost cur new) = mem_cost (unat new) - mem_cost (unat cur)"
proof (cases "new \<le> cur")
  case True
  then show ?thesis using mem_cost_mono [of "unat new" "unat cur"]
    by (simp add: MemoryExpansionCost_def word_le_nat_alt)
next
  case False
  have max: "(- 1 :: u64) = MaxUint64" by (simp add: MaxUint64_def)
  have "mem_cost (unat cur) \<le> mem_cost (unat new)"
    using False by (intro mem_cost_mono) (simp add: word_le_nat_alt)
  then have le: "MemoryCost cur \<le> MemoryCost new" using assms by (simp add: word_le_nat_alt unat_MemoryCost)
  have "MemoryCost cur \<noteq> MaxUint64" "MemoryCost new \<noteq> MaxUint64"
    using unat_MemoryCost [OF assms(1)] unat_MemoryCost [OF assms(2)] mem_cost_bound [OF assms(1)] mem_cost_bound [OF assms(2)]
    by (auto simp: unat_MaxUint64 dest!: arg_cong [where f = unat])
  with False le show ?thesis
    using assms by (simp add: MemoryExpansionCost_def max Let_def unat_sub64 unat_MemoryCost not_less)
qed

section \<open>Properties\<close>

text \<open>C26: Reading memory after a write returns the written bytes inside the written range and the
  old contents, zero where memory was never written, outside it, and the memory stays a whole
  number of 32-byte pages within 32 MB.\<close>

theorem memory_read_over_write:
  assumes "Memory_ok m" and "unat off + length bs \<le> 33554432" and "unat from + unat sz \<le> 33554432"
  shows "\<exists>m'. bind (Memory_Set off bs) (\<lambda>_. Memory_Get from sz) m =
      (Inr (map (\<lambda>k. if unat off \<le> k \<and> k < unat off + length bs then bs ! (k - unat off) else byte_at m k)
             [unat from..<unat from + unat sz]), m') \<and> Memory_ok m'"
proof -
  obtain m1 where m1: "Memory_Set off bs m = (Inr (), m1)" "Memory_ok m1"
    "byte_at m1 = (\<lambda>k. if unat off \<le> k \<and> k < unat off + length bs then bs ! (k - unat off) else byte_at m k)"
    using Memory_Set_spec [OF assms(1,2)] by (auto simp: fun_eq_iff)
  show ?thesis
    using Memory_Get_spec [OF m1(2) assms(3)] m1(1) unfolding m1(3) by (auto simp: op_simps)
qed

theorem memory_read_over_write_witness:
  "fst (bind (Memory_Set 30 [1, 2, 3]) (\<lambda>_. Memory_Get 31 4) []) = Inr [2, 3, 0, 0]"
proof -
  have "Memory_ok []" by (simp add: Memory_ok_def)
  then have "\<exists>m'. bind (Memory_Set 30 [1, 2, 3]) (\<lambda>_. Memory_Get 31 4) [] = (Inr [2, 3, 0, 0], m') \<and> Memory_ok m'"
    using memory_read_over_write [of "[]" 30 "[1, 2, 3]" 31 4] by (simp add: byte_at_def upt_rec)
  then show ?thesis by auto
qed

text \<open>C34: Moving a range within memory (\<open>Memory.Copy\<close>, the MCOPY instruction) behaves as a move
  through a temporary buffer, whatever the overlap, and changes nothing else.\<close>

theorem memory_move:
  assumes "Memory_ok m" and "unat dst + unat sz \<le> 33554432" and "unat src + unat sz \<le> 33554432"
  shows "\<exists>m'. Memory_Copy dst src sz m = (Inr (), m') \<and> Memory_ok m' \<and>
     (\<forall>k. byte_at m' k = (if unat dst \<le> k \<and> k < unat dst + unat sz then byte_at m (unat src + (k - unat dst)) else byte_at m k))"
  using assms by (rule Memory_Copy_spec)

theorem memory_move_witness:
  "\<exists>m'. Memory_Copy 1 0 3 ([9, 8, 7, 6] @ replicate 28 0) = (Inr (), m') \<and> map (byte_at m') [0, 1, 2, 3, 4] = [9, 9, 8, 7, 0]"
proof -
  let ?m = "[9, 8, 7, 6] @ replicate 28 0 :: Memory"
  have "Memory_ok ?m" by (simp add: Memory_ok_def)
  with memory_move [of ?m 1 3 0] obtain m' where m': "Memory_Copy 1 0 3 ?m = (Inr (), m')"
    "\<And>k. byte_at m' k = (if 1 \<le> k \<and> k < 4 then byte_at ?m (k - 1) else byte_at ?m k)" by auto
  have "byte_at ?m 0 = 9" "byte_at ?m 1 = 8" "byte_at ?m 2 = 7" "byte_at ?m 4 = 0" by (simp_all add: byte_at_def)
  with m' show ?thesis by simp
qed

text \<open>Paying for memory page by page costs the same as paying at once: expansion costs add up
  along a growing sequence of sizes up to 32 MB, and from the empty memory they are
  \<open>3 w + w^2 / 512\<close> for \<open>w\<close> words.\<close>

lemma memory_price_telescopes:
  assumes "a \<le> b" and "b \<le> c" and "unat c \<le> 33554432"
  shows "unat (MemoryExpansionCost a b) + unat (MemoryExpansionCost b c) = unat (MemoryExpansionCost a c) \<and>
    unat (MemoryExpansionCost 0 c) = mem_cost (unat c)"
proof -
  have le: "unat a \<le> unat b" "unat b \<le> unat c" using assms by (simp_all add: word_le_nat_alt)
  have "mem_cost (unat a) \<le> mem_cost (unat b)" "mem_cost (unat b) \<le> mem_cost (unat c)"
    using le by (simp_all add: mem_cost_mono)
  moreover have "mem_cost 0 = 0" by (simp add: mem_cost_def)
  ultimately show ?thesis using le assms(3) by (simp add: unat_MemoryExpansionCost)
qed

end
