(* ===== verification/QVM_Gas.thy ===== *)
theory QVM_Gas
  imports QVM_Memory
begin

text \<open>
  \<open>src/qvm/gas.go\<close>: gas constants, the overflow-checked gas arithmetic, the access list of
  warm addresses and slots, the gas meter of a call frame, the gas table and the cost
  formulas. All amounts are 64-bit words and every overflow test of the code is written out;
  the lemmas state what the functions compute over the natural numbers. The mutexes of the
  access list are left out: an execution is single-threaded, as the comments of the file say.
\<close>

section \<open>Constants\<close>

definition GasBase :: u64 where "GasBase = 2"
definition GasVeryLow :: u64 where "GasVeryLow = 3"
definition GasLow :: u64 where "GasLow = 5"
definition GasMid :: u64 where "GasMid = 8"
definition GasHigh :: u64 where "GasHigh = 10"
definition GasJump :: u64 where "GasJump = 8"
definition GasJumpDest :: u64 where "GasJumpDest = 1"
definition GasMemory :: u64 where "GasMemory = 3"
definition GasCopy :: u64 where "GasCopy = 3"
definition GasSLoad :: u64 where "GasSLoad = 100"
definition GasSLoadCold :: u64 where "GasSLoadCold = 2100"
definition GasSStore :: u64 where "GasSStore = 100"
definition GasSStoreSet :: u64 where "GasSStoreSet = 20000"
definition GasSStoreReset :: u64 where "GasSStoreReset = 2900"
definition GasSStoreClear :: u64 where "GasSStoreClear = 4800"
definition GasAccessListAddress :: u64 where "GasAccessListAddress = 2400"
definition GasAccessListSlot :: u64 where "GasAccessListSlot = 1900"
definition GasColdAccountAccess :: u64 where "GasColdAccountAccess = 2600"
definition GasWarmAccountAccess :: u64 where "GasWarmAccountAccess = 100"
definition GasColdSLoad :: u64 where "GasColdSLoad = 2100"
definition GasWarmSLoad :: u64 where "GasWarmSLoad = 100"
definition GasCall :: u64 where "GasCall = 100"
definition GasCallCold :: u64 where "GasCallCold = 2600"
definition GasCallValue :: u64 where "GasCallValue = 9000"
definition GasCallNewAccount :: u64 where "GasCallNewAccount = 25000"
definition GasCallStipend :: u64 where "GasCallStipend = 2300"
definition GasCreate :: u64 where "GasCreate = 32000"
definition GasCreate2 :: u64 where "GasCreate2 = 32000"
definition GasCodeDeposit :: u64 where "GasCodeDeposit = 200"
definition GasCreateData :: u64 where "GasCreateData = 2"
definition GasLog :: u64 where "GasLog = 375"
definition GasLogTopic :: u64 where "GasLogTopic = 375"
definition GasLogData :: u64 where "GasLogData = 8"
definition GasSHA3 :: u64 where "GasSHA3 = 30"
definition GasSHA3Word :: u64 where "GasSHA3Word = 6"
definition GasKyberDecaps :: u64 where "GasKyberDecaps = 25000"
definition GasTxCreate :: u64 where "GasTxCreate = 53000"
definition GasTxCall :: u64 where "GasTxCall = 21000"
definition GasTxDataZero :: u64 where "GasTxDataZero = 4"
definition GasTxDataNonZero :: u64 where "GasTxDataNonZero = 16"
definition GasExp :: u64 where "GasExp = 10"
definition GasExpByte :: u64 where "GasExpByte = 50"
definition GasBalance :: u64 where "GasBalance = 100"
definition GasBalanceCold :: u64 where "GasBalanceCold = 2600"
definition GasMemoryCopy :: u64 where "GasMemoryCopy = 3"
definition GasBlockHash :: u64 where "GasBlockHash = 20"
definition GasSelfDestruct :: u64 where "GasSelfDestruct = 5000"
definition GasSelfDestructNewAccount :: u64 where "GasSelfDestructNewAccount = 25000"

lemmas gas_constants =
  GasBase_def GasVeryLow_def GasLow_def GasMid_def GasHigh_def GasJump_def GasJumpDest_def
  GasMemory_def GasCopy_def GasSLoad_def GasSLoadCold_def GasSStore_def GasSStoreSet_def
  GasSStoreReset_def GasSStoreClear_def GasAccessListAddress_def GasAccessListSlot_def
  GasColdAccountAccess_def GasWarmAccountAccess_def GasColdSLoad_def GasWarmSLoad_def
  GasCall_def GasCallCold_def GasCallValue_def GasCallNewAccount_def GasCallStipend_def
  GasCreate_def GasCreate2_def GasCodeDeposit_def GasCreateData_def GasLog_def GasLogTopic_def
  GasLogData_def GasSHA3_def GasSHA3Word_def GasKyberDecaps_def GasTxCreate_def GasTxCall_def
  GasTxDataZero_def GasTxDataNonZero_def GasExp_def GasExpByte_def GasBalance_def
  GasBalanceCold_def GasMemoryCopy_def GasBlockHash_def GasSelfDestruct_def
  GasSelfDestructNewAccount_def

section \<open>Checked arithmetic\<close>

definition SafeAddGas :: "u64 \<Rightarrow> u64 \<Rightarrow> u64 res" where
  "SafeAddGas a b = (if a > MaxUint64 - b then Inl ErrGasOverflow else Inr (a + b))"

definition SafeMulGas :: "u64 \<Rightarrow> u64 \<Rightarrow> u64 res" where
  "SafeMulGas a b = (if a > 0 \<and> b > MaxUint64 div a then Inl ErrGasOverflow else Inr (a * b))"

definition SafeSubGas :: "u64 \<Rightarrow> u64 \<Rightarrow> u64 res" where
  "SafeSubGas a b = (if a < b then Inl ErrGasOverflow else Inr (a - b))"

definition SafeAddGasTuple :: "u64 \<Rightarrow> u64 \<Rightarrow> u64 \<Rightarrow> u64 res" where
  "SafeAddGasTuple a b c = (case SafeAddGas a b of Inl x \<Rightarrow> Inl x | Inr tmp \<Rightarrow> SafeAddGas tmp c)"

section \<open>The access list\<close>

record AccessList =
  al_addresses :: "Address set"
  al_slots :: "Address \<Rightarrow> Hash set option"

definition NewAccessList :: AccessList where
  "NewAccessList = \<lparr>al_addresses = {}, al_slots = Map.empty\<rparr>"

definition AddAddress :: "Address \<Rightarrow> AccessList \<Rightarrow> bool \<times> AccessList" where
  "AddAddress addr al =
     (if addr \<in> al_addresses al then (False, al)
      else (True, al\<lparr>al_addresses := insert addr (al_addresses al)\<rparr>))"

definition AddSlot :: "Address \<Rightarrow> Hash \<Rightarrow> AccessList \<Rightarrow> (bool \<times> bool) \<times> AccessList" where
  "AddSlot addr slot al =
     (let addrWasCold = addr \<notin> al_addresses al;
          al = (if addrWasCold then al\<lparr>al_addresses := insert addr (al_addresses al)\<rparr> else al);
          al = (if al_slots al addr = None then al\<lparr>al_slots := (al_slots al)(addr \<mapsto> {})\<rparr> else al);
          slots = the (al_slots al addr);
          slotWasCold = slot \<notin> slots;
          al = (if slotWasCold then al\<lparr>al_slots := (al_slots al)(addr \<mapsto> insert slot slots)\<rparr> else al)
      in ((addrWasCold, slotWasCold), al))"

definition IsAddressWarm :: "Address \<Rightarrow> AccessList \<Rightarrow> bool" where
  "IsAddressWarm addr al = (addr \<in> al_addresses al)"

definition IsSlotWarm :: "Address \<Rightarrow> Hash \<Rightarrow> AccessList \<Rightarrow> bool" where
  "IsSlotWarm addr slot al = (case al_slots al addr of Some slots \<Rightarrow> slot \<in> slots | None \<Rightarrow> False)"

definition AccessList_Copy :: "AccessList \<Rightarrow> AccessList" where
  "AccessList_Copy al =
     \<lparr>al_addresses = {a. a \<in> al_addresses al},
      al_slots = (\<lambda>a. case al_slots al a of None \<Rightarrow> None | Some slots \<Rightarrow> Some {s. s \<in> slots})\<rparr>"

definition AccessList_Clear :: "AccessList \<Rightarrow> AccessList" where
  "AccessList_Clear al = al\<lparr>al_addresses := {}, al_slots := Map.empty\<rparr>"

definition AddressCount :: "AccessList \<Rightarrow> nat" where
  "AddressCount al = card (al_addresses al)"

definition SlotCount :: "AccessList \<Rightarrow> nat" where
  "SlotCount al = (\<Sum>a\<in>dom (al_slots al). card (the (al_slots al a)))"

section \<open>The gas meter\<close>

record GasMeter =
  gm_limit :: u64
  gm_used :: u64
  gm_refund :: u64
  gm_accessList :: AccessList

definition NewGasMeter :: "u64 \<Rightarrow> GasMeter" where
  "NewGasMeter limit = \<lparr>gm_limit = limit, gm_used = 0, gm_refund = 0, gm_accessList = NewAccessList\<rparr>"

definition NewGasMeterWithAccessList :: "u64 \<Rightarrow> AccessList option \<Rightarrow> GasMeter" where
  "NewGasMeterWithAccessList limit al =
     \<lparr>gm_limit = limit, gm_used = 0, gm_refund = 0,
      gm_accessList = (case al of None \<Rightarrow> NewAccessList | Some al \<Rightarrow> al)\<rparr>"

definition Consume :: "u64 \<Rightarrow> (GasMeter, unit) op" where
  "Consume amount = (\<lambda>g.
     let newUsed = gm_used g + amount in
     if newUsed < gm_used g then (Inl ErrGasOverflow, g)
     else if newUsed > gm_limit g then (Inl ErrOutOfGas, g\<lparr>gm_used := gm_limit g\<rparr>)
     else (Inr (), g\<lparr>gm_used := newUsed\<rparr>))"

definition ConsumeWithRefund :: "u64 \<Rightarrow> u64 \<Rightarrow> (GasMeter, unit) op" where
  "ConsumeWithRefund amount refund = (\<lambda>g.
     let newUsed = gm_used g + amount in
     if newUsed < gm_used g then (Inl ErrGasOverflow, g)
     else if newUsed > gm_limit g then (Inl ErrOutOfGas, g\<lparr>gm_used := gm_limit g\<rparr>)
     else let g = g\<lparr>gm_used := newUsed\<rparr> in
       if gm_refund g + refund < gm_refund g then (Inr (), g\<lparr>gm_refund := NOT 0\<rparr>)
       else (Inr (), g\<lparr>gm_refund := gm_refund g + refund\<rparr>))"

definition Refund :: "u64 \<Rightarrow> GasMeter \<Rightarrow> GasMeter" where
  "Refund amount g =
     (if gm_refund g + amount < gm_refund g then g\<lparr>gm_refund := NOT 0\<rparr>
      else g\<lparr>gm_refund := gm_refund g + amount\<rparr>)"

definition Return :: "u64 \<Rightarrow> GasMeter \<Rightarrow> GasMeter" where
  "Return amount g =
     (let capped = (if amount > gm_used g then gm_used g else amount)
      in g\<lparr>gm_used := gm_used g - capped\<rparr>)"

definition Used :: "GasMeter \<Rightarrow> u64" where
  "Used g = gm_used g"

definition Remaining :: "GasMeter \<Rightarrow> u64" where
  "Remaining g = (if gm_used g \<ge> gm_limit g then 0 else gm_limit g - gm_used g)"

definition RefundAmount :: "GasMeter \<Rightarrow> u64" where
  "RefundAmount g =
     (if gm_used g = 0 then 0
      else let maxRefund = gm_used g div 5 in if gm_refund g > maxRefund then maxRefund else gm_refund g)"

definition FinalUsed :: "GasMeter \<Rightarrow> u64" where
  "FinalUsed g =
     (let maxRefund = (if gm_used g > 0 then gm_used g div 5 else 0);
          actualRefund = (if gm_refund g > maxRefund then maxRefund else gm_refund g)
      in if actualRefund > gm_used g then gm_used g else gm_used g - actualRefund)"

definition GasMeter_Clone :: "GasMeter \<Rightarrow> GasMeter" where
  "GasMeter_Clone g =
     \<lparr>gm_limit = gm_limit g, gm_used = gm_used g, gm_refund = gm_refund g,
      gm_accessList = AccessList_Copy (gm_accessList g)\<rparr>"

definition GasMeter_Reset :: "u64 \<Rightarrow> GasMeter \<Rightarrow> GasMeter" where
  "GasMeter_Reset limit g =
     g\<lparr>gm_limit := limit, gm_used := 0, gm_refund := 0, gm_accessList := AccessList_Clear (gm_accessList g)\<rparr>"

definition ConsumeSLoad :: "Address \<Rightarrow> Hash \<Rightarrow> (GasMeter, unit) op" where
  "ConsumeSLoad addr slot = (\<lambda>g.
     if IsSlotWarm addr slot (gm_accessList g) then Consume GasWarmSLoad g
     else Consume GasColdSLoad (g\<lparr>gm_accessList := snd (AddSlot addr slot (gm_accessList g))\<rparr>))"

definition ConsumeSStore :: "Address \<Rightarrow> Hash \<Rightarrow> Hash \<Rightarrow> Hash \<Rightarrow> (GasMeter, u64) op" where
  "ConsumeSStore addr slot currentValue newValue = (\<lambda>g.
     let ((_, slotWasCold), al) = AddSlot addr slot (gm_accessList g);
         g = g\<lparr>gm_accessList := al\<rparr>;
         cost = (if slotWasCold then GasColdSLoad else 0);
         isZeroCurrent = currentValue = 0;
         isZeroNew = newValue = 0;
         (cost, refundAmount) =
           (if isZeroCurrent \<and> \<not> isZeroNew then (cost + GasSStoreSet, 0)
            else if \<not> isZeroCurrent \<and> isZeroNew then (cost + GasSStoreReset, GasSStoreClear)
            else if \<not> isZeroCurrent \<and> \<not> isZeroNew then (cost + GasSStoreReset, 0)
            else (cost + GasSStore, 0))
     in case Consume cost g of
          (Inl x, g) \<Rightarrow> (Inl x, g)
        | (Inr _, g) \<Rightarrow> (Inr cost, if refundAmount > 0 then Refund refundAmount g else g))"

definition ConsumeAccountAccess :: "Address \<Rightarrow> (GasMeter, unit) op" where
  "ConsumeAccountAccess addr = (\<lambda>g.
     if IsAddressWarm addr (gm_accessList g) then Consume GasWarmAccountAccess g
     else Consume GasColdAccountAccess (g\<lparr>gm_accessList := snd (AddAddress addr (gm_accessList g))\<rparr>))"

definition ConsumeCall :: "Address \<Rightarrow> bool \<Rightarrow> bool \<Rightarrow> (GasMeter, u64) op" where
  "ConsumeCall addr hasValue isNewAccount = (\<lambda>g.
     let (cost, g) =
           (if IsAddressWarm addr (gm_accessList g) then (GasWarmAccountAccess, g)
            else (GasColdAccountAccess, g\<lparr>gm_accessList := snd (AddAddress addr (gm_accessList g))\<rparr>));
         cost = (if hasValue then cost + GasCallValue else cost);
         cost = (if isNewAccount \<and> hasValue then cost + GasCallNewAccount else cost)
     in case Consume cost g of (Inl x, g) \<Rightarrow> (Inl x, g) | (Inr _, g) \<Rightarrow> (Inr cost, g))"

text \<open>The two loops of \<open>PreloadAccessList\<close>; \<open>None\<close> is the early return of the maximum. The
  slots are given in the order in which the map iteration visits them.\<close>

fun preload_addresses :: "Address list \<Rightarrow> u64 \<Rightarrow> AccessList \<Rightarrow> u64 option \<times> AccessList" where
  "preload_addresses [] cost al = (Some cost, al)"
| "preload_addresses (addr # addrs) cost al =
     (case AddAddress addr al of
        (True, al) \<Rightarrow> if cost + GasAccessListAddress < cost then (None, al)
                      else preload_addresses addrs (cost + GasAccessListAddress) al
      | (False, al) \<Rightarrow> preload_addresses addrs cost al)"

fun preload_slots :: "(Address \<times> Hash) list \<Rightarrow> u64 \<Rightarrow> AccessList \<Rightarrow> u64 option \<times> AccessList" where
  "preload_slots [] cost al = (Some cost, al)"
| "preload_slots ((addr, slot) # rest) cost al =
     (case AddSlot addr slot al of
        ((_, True), al) \<Rightarrow> if cost + GasAccessListSlot < cost then (None, al)
                           else preload_slots rest (cost + GasAccessListSlot) al
      | ((_, False), al) \<Rightarrow> preload_slots rest cost al)"

definition PreloadAccessList :: "Address list \<Rightarrow> (Address \<times> Hash list) list \<Rightarrow> GasMeter \<Rightarrow> u64 \<times> GasMeter" where
  "PreloadAccessList addresses slots g =
     (case preload_addresses addresses 0 (gm_accessList g) of
        (None, al) \<Rightarrow> (MaxUint64, g\<lparr>gm_accessList := al\<rparr>)
      | (Some cost, al) \<Rightarrow>
          (case preload_slots (concat (map (\<lambda>(a, ss). map (Pair a) ss) slots)) cost al of
             (None, al) \<Rightarrow> (MaxUint64, g\<lparr>gm_accessList := al\<rparr>)
           | (Some cost, al) \<Rightarrow> (cost, g\<lparr>gm_accessList := al\<rparr>)))"

record GasSnapshot =
  gs_used :: u64
  gs_refund :: u64
  gs_accessList :: AccessList

definition GasMeter_Snapshot :: "GasMeter \<Rightarrow> GasSnapshot" where
  "GasMeter_Snapshot g = \<lparr>gs_used = gm_used g, gs_refund = gm_refund g, gs_accessList = AccessList_Copy (gm_accessList g)\<rparr>"

definition GasMeter_Revert :: "GasSnapshot \<Rightarrow> GasMeter \<Rightarrow> GasMeter" where
  "GasMeter_Revert s g = g\<lparr>gm_used := gs_used s, gm_refund := gs_refund s, gm_accessList := gs_accessList s\<rparr>"

section \<open>The gas table and the cost formulas\<close>

record GasTable =
  gt_SLoad :: u64
  gt_SLoadCold :: u64
  gt_SStore :: u64
  gt_SStoreSet :: u64
  gt_SStoreReset :: u64
  gt_SStoreClear :: u64
  gt_Call :: u64
  gt_CallCold :: u64
  gt_CallValue :: u64
  gt_CallNewAccount :: u64
  gt_Balance :: u64
  gt_BalanceCold :: u64
  gt_Create :: u64
  gt_Create2 :: u64
  gt_CodeDeposit :: u64
  gt_Log :: u64
  gt_LogTopic :: u64
  gt_LogData :: u64
  gt_SHA3 :: u64
  gt_SHA3Word :: u64
  gt_Exp :: u64
  gt_ExpByte :: u64

definition DefaultGasTable :: GasTable where
  "DefaultGasTable =
     \<lparr>gt_SLoad = GasSLoad, gt_SLoadCold = GasSLoadCold, gt_SStore = GasSStore,
      gt_SStoreSet = GasSStoreSet, gt_SStoreReset = GasSStoreReset, gt_SStoreClear = GasSStoreClear,
      gt_Call = GasCall, gt_CallCold = GasCallCold, gt_CallValue = GasCallValue,
      gt_CallNewAccount = GasCallNewAccount, gt_Balance = GasBalance, gt_BalanceCold = GasBalanceCold,
      gt_Create = GasCreate, gt_Create2 = GasCreate2, gt_CodeDeposit = GasCodeDeposit,
      gt_Log = GasLog, gt_LogTopic = GasLogTopic, gt_LogData = GasLogData,
      gt_SHA3 = GasSHA3, gt_SHA3Word = GasSHA3Word, gt_Exp = GasExp, gt_ExpByte = GasExpByte\<rparr>"

definition maxSafeGas :: u64 where
  "maxSafeGas = drop_bit 1 (NOT 0)"

definition CalculateCallGas :: "GasTable option \<Rightarrow> u64 \<Rightarrow> u64 \<Rightarrow> bool \<Rightarrow> bool \<Rightarrow> bool \<Rightarrow> u64 \<times> u64" where
  "CalculateCallGas gasTable availableGas requestedGas hasValue isNewAccount isCold =
     (case gasTable of None \<Rightarrow> (0, 0) | Some t \<Rightarrow>
       let cost = (if isCold then gt_CallCold t else gt_Call t) in
       if hasValue \<and> cost > maxSafeGas - gt_CallValue t then (maxSafeGas, 0)
       else let cost = (if hasValue then cost + gt_CallValue t else cost) in
       if (isNewAccount \<and> hasValue) \<and> cost > maxSafeGas - gt_CallNewAccount t then (maxSafeGas, 0)
       else let cost = (if isNewAccount \<and> hasValue then cost + gt_CallNewAccount t else cost);
                cost = (if cost > maxSafeGas then maxSafeGas else cost) in
       if availableGas \<le> cost then (cost, 0)
       else let gasToSend = availableGas - cost;
                gasToSend = (if gasToSend > maxSafeGas then maxSafeGas else gasToSend);
                maxGas = gasToSend - gasToSend div 64;
                maxGas = (if maxGas > maxSafeGas then maxSafeGas else maxGas);
                requestedGas = (if requestedGas > maxGas then maxGas else requestedGas);
                requestedGas =
                  (if hasValue
                   then if requestedGas > maxSafeGas - GasCallStipend then maxSafeGas
                        else requestedGas + GasCallStipend
                   else requestedGas);
                cost = (if cost > maxSafeGas then maxSafeGas else cost);
                requestedGas = (if requestedGas > maxSafeGas then maxSafeGas else requestedGas)
            in (cost, requestedGas))"

text \<open>The loop over the transaction data; \<open>None\<close> is the early return of the maximum.\<close>

fun intrinsic_data :: "byte list \<Rightarrow> u64 \<Rightarrow> u64 option" where
  "intrinsic_data [] gas = Some gas"
| "intrinsic_data (b # bs) gas =
     (let cost = (if b = 0 then GasTxDataZero else GasTxDataNonZero)
      in if gas + cost < gas then None else intrinsic_data bs (gas + cost))"

definition EstimateIntrinsicGas :: "byte list \<Rightarrow> bool \<Rightarrow> AccessList option \<Rightarrow> u64" where
  "EstimateIntrinsicGas data isCreate accessList =
     (case intrinsic_data data (if isCreate then GasTxCreate else GasTxCall) of
        None \<Rightarrow> MaxUint64
      | Some gas \<Rightarrow>
          (case accessList of None \<Rightarrow> gas | Some al \<Rightarrow>
             let addrCost = of_nat (AddressCount al) * GasAccessListAddress in
             if gas + addrCost < gas then MaxUint64
             else let gas = gas + addrCost;
                      slotCost = of_nat (SlotCount al) * GasAccessListSlot in
               if gas + slotCost < gas then MaxUint64 else gas + slotCost))"

definition CalculateMemoryGas :: "u64 \<Rightarrow> u64 \<Rightarrow> u64" where
  "CalculateMemoryGas currentSize newSize =
     (if newSize \<le> currentSize then 0
      else if newSize > 33554432 then MaxUint64
      else let currentWords = (currentSize + 31) div 32;
               newWords = (newSize + 31) div 32 in
        if currentWords > 4294967296 \<or> newWords > 4294967296 then MaxUint64
        else let currentLinear = currentWords * GasMemory;
                 newLinear = newWords * GasMemory;
                 currentQuadratic = (currentWords * currentWords) div 512;
                 newQuadratic = (newWords * newWords) div 512 in
          if currentLinear > MaxUint64 - currentQuadratic then MaxUint64
          else if newLinear > MaxUint64 - newQuadratic then MaxUint64
          else let currentCost = currentLinear + currentQuadratic;
                   newCost = newLinear + newQuadratic in
            if newCost < currentCost then MaxUint64 else newCost - currentCost)"

definition CalculateCopyGas :: "u64 \<Rightarrow> u64" where
  "CalculateCopyGas sz =
     (if sz > MaxUint64 - 31 then MaxUint64
      else let words = (sz + 31) div 32 in
        if GasCopy \<noteq> 0 \<and> words > MaxUint64 div GasCopy then MaxUint64 else words * GasCopy)"

definition CalculateExpGas :: "int \<Rightarrow> u64" where
  "CalculateExpGas exponentBytes =
     (case SafeMulGas (word_of_int exponentBytes) GasExpByte of
        Inl _ \<Rightarrow> MaxUint64
      | Inr expByteGas \<Rightarrow> (case SafeAddGas GasExp expByteGas of Inl _ \<Rightarrow> MaxUint64 | Inr totalGas \<Rightarrow> totalGas))"

definition CalculateSHA3Gas :: "u64 \<Rightarrow> u64" where
  "CalculateSHA3Gas sz =
     (if sz > MaxUint64 - 31 then MaxUint64
      else let words = (sz + 31) div 32 in
        if GasSHA3Word \<noteq> 0 \<and> words > MaxUint64 div GasSHA3Word then MaxUint64
        else if GasSHA3 > MaxUint64 - words * GasSHA3Word then MaxUint64
        else GasSHA3 + words * GasSHA3Word)"

definition CalculateLogGas :: "int \<Rightarrow> u64 \<Rightarrow> u64" where
  "CalculateLogGas topicCount dataSize =
     (let topicCost = word_of_int topicCount * GasLogTopic in
      if GasLogTopic \<noteq> 0 \<and> word_of_int topicCount > MaxUint64 div GasLogTopic then MaxUint64
      else let dataCost = dataSize * GasLogData in
        if GasLogData \<noteq> 0 \<and> dataSize > MaxUint64 div GasLogData then MaxUint64
        else if GasLog > MaxUint64 - topicCost - dataCost then MaxUint64
        else GasLog + topicCost + dataCost)"

definition maxGasCostBits :: nat where "maxGasCostBits = 256"

definition CalculateGasCost :: "u64 \<Rightarrow> int option \<Rightarrow> int res" where
  "CalculateGasCost gas price =
     (case price of
        None \<Rightarrow> Inl (Errorf ''gas price cannot be nil'')
      | Some price \<Rightarrow>
          if price < 0 then Inl (Errorf ''gas price cannot be negative'')
          else let result = uint gas * price in
            if big_BitLen result > maxGasCostBits then Inl ErrGasOverflow else Inr result)"

section \<open>The checked arithmetic is exact\<close>

lemma SafeAddGas_spec:
  "SafeAddGas a b = (if unat a + unat b < 18446744073709551616 then Inr (a + b) else Inl ErrGasOverflow)"
  by (auto simp: SafeAddGas_def gt_Max_sub_iff)

lemma SafeMulGas_spec:
  "SafeMulGas a b = (if unat a * unat b < 18446744073709551616 then Inr (a * b) else Inl ErrGasOverflow)"
proof (cases "a = 0")
  case False
  then have "0 < unat a" by (simp add: unat_gt_0)
  then have "unat b \<le> 18446744073709551615 div unat a \<longleftrightarrow> unat b * unat a \<le> 18446744073709551615"
    by (rule less_eq_div_iff_mult_less_eq)
  then have "b > MaxUint64 div a \<longleftrightarrow> \<not> unat a * unat b < 18446744073709551616"
    by (simp add: word_less_nat_alt unat_div64 mult.commute) linarith
  with False show ?thesis by (simp add: SafeMulGas_def word_neq_0_conv)
qed (simp add: SafeMulGas_def)

lemma SafeSubGas_spec:
  "SafeSubGas a b = (if unat b \<le> unat a then Inr (a - b) else Inl ErrGasOverflow)"
  by (simp add: SafeSubGas_def word_less_nat_alt)

text \<open>A result that is not an error is the exact sum, product or difference.\<close>

lemma SafeAddGas_exact: "SafeAddGas a b = Inr c \<Longrightarrow> unat c = unat a + unat b"
  by (auto simp: SafeAddGas_spec unat_add64_id split: if_splits)

lemma SafeMulGas_exact: "SafeMulGas a b = Inr c \<Longrightarrow> unat c = unat a * unat b"
  by (auto simp: SafeMulGas_spec unat_mult64_id split: if_splits)

lemma SafeSubGas_exact: "SafeSubGas a b = Inr c \<Longrightarrow> unat c = unat a - unat b"
  by (auto simp: SafeSubGas_spec unat_sub64 word_le_nat_alt split: if_splits)

lemma SafeAddGasTuple_spec:
  "SafeAddGasTuple a b c =
     (if unat a + unat b + unat c < 18446744073709551616 then Inr (a + b + c) else Inl ErrGasOverflow)"
  by (simp add: SafeAddGasTuple_def SafeAddGas_spec unat_add64_id)

section \<open>The gas meter\<close>

definition gas_ok :: "GasMeter \<Rightarrow> bool" where
  "gas_ok g \<longleftrightarrow> gm_used g \<le> gm_limit g"

lemma Consume_cases [consumes 1, case_names ok oog ovf]:
  assumes "gas_ok g"
  obtains "Consume a g = (Inr (), g\<lparr>gm_used := gm_used g + a\<rparr>)"
      "unat (gm_used g + a) = unat (gm_used g) + unat a" "unat (gm_used g) + unat a \<le> unat (gm_limit g)"
    | "Consume a g = (Inl ErrOutOfGas, g\<lparr>gm_used := gm_limit g\<rparr>)"
      "unat (gm_limit g) < unat (gm_used g) + unat a" "unat (gm_used g) + unat a < 18446744073709551616"
    | "Consume a g = (Inl ErrGasOverflow, g)"
      "unat (gm_limit g) < unat (gm_used g) + unat a" "18446744073709551616 \<le> unat (gm_used g) + unat a"
proof (cases "unat (gm_used g) + unat a < 18446744073709551616")
  case False
  moreover from this have "unat (gm_limit g) < unat (gm_used g) + unat a"
    using unat_u64_bound [of "gm_limit g"] by linarith
  ultimately show ?thesis using that(3) by (simp add: Consume_def add_wraps_iff)
next
  case True
  then have sum: "unat (gm_used g + a) = unat (gm_used g) + unat a" by (rule unat_add64_id)
  show ?thesis
  proof (cases "unat (gm_used g) + unat a \<le> unat (gm_limit g)")
    case le: True
    with True sum have "Consume a g = (Inr (), g\<lparr>gm_used := gm_used g + a\<rparr>)"
      by (simp add: Consume_def Let_def word_less_nat_alt)
    with le sum that(1) show ?thesis by blast
  next
    case gt: False
    with True sum have "Consume a g = (Inl ErrOutOfGas, g\<lparr>gm_used := gm_limit g\<rparr>)"
      by (simp add: Consume_def Let_def word_less_nat_alt)
    with gt True that(2) show ?thesis by simp
  qed
qed

lemma Consume_ok_iff:
  "gas_ok g \<Longrightarrow> fst (Consume a g) = Inr () \<longleftrightarrow> unat (gm_used g) + unat a \<le> unat (gm_limit g)"
  by (cases rule: Consume_cases [of g a]) auto

lemma gas_ok_Consume: "gas_ok g \<Longrightarrow> gas_ok (snd (Consume a g))"
  by (cases rule: Consume_cases [of g a]) (auto simp: gas_ok_def word_le_nat_alt)

lemma Consume_keeps:
  "gm_limit (snd (Consume a g)) = gm_limit g" "gm_refund (snd (Consume a g)) = gm_refund g"
  "gm_accessList (snd (Consume a g)) = gm_accessList g"
  by (simp_all add: Consume_def Let_def)

lemma Consume_used_mono: "gas_ok g \<Longrightarrow> gm_used g \<le> gm_used (snd (Consume a g))"
  by (cases rule: Consume_cases [of g a]) (auto simp: gas_ok_def word_le_nat_alt)

lemma Remaining_spec: "gas_ok g \<Longrightarrow> unat (Remaining g) = unat (gm_limit g) - unat (gm_used g)"
  by (auto simp: Remaining_def gas_ok_def unat_sub64 word_le_nat_alt)

lemma Return_spec: "unat (gm_used (Return a g)) = unat (gm_used g) - min (unat a) (unat (gm_used g))"
  by (simp add: Return_def Let_def word_less_nat_alt unat_sub64 word_le_nat_alt min_def)

lemma Return_keeps:
  "gm_limit (Return a g) = gm_limit g" "gm_refund (Return a g) = gm_refund g"
  "gm_accessList (Return a g) = gm_accessList g"
  by (simp_all add: Return_def Let_def)

lemma gas_ok_Return: "gas_ok g \<Longrightarrow> gas_ok (Return a g)"
  using Return_spec [of a g] by (simp add: gas_ok_def word_le_nat_alt Return_keeps)

lemma Refund_keeps:
  "gm_limit (Refund a g) = gm_limit g" "gm_used (Refund a g) = gm_used g"
  "gm_accessList (Refund a g) = gm_accessList g"
  by (simp_all add: Refund_def)

lemma Refund_spec: "unat (gm_refund (Refund a g)) = min 18446744073709551615 (unat (gm_refund g) + unat a)"
proof -
  have max: "(- 1 :: u64) = MaxUint64" by (simp add: MaxUint64_def)
  show ?thesis
    by (cases "unat (gm_refund g) + unat a < 18446744073709551616")
      (simp_all add: Refund_def add_wraps_iff unat_add64_id max min_def)
qed

lemma actual_refund_spec:
  "unat (RefundAmount g) = min (unat (gm_refund g)) (unat (gm_used g) div 5)"
  by (auto simp: RefundAmount_def Let_def word_less_nat_alt unat_div64 min_def)

lemma FinalUsed_spec:
  "unat (FinalUsed g) = unat (gm_used g) - min (unat (gm_refund g)) (unat (gm_used g) div 5)"
proof -
  let ?r = "if gm_refund g > gm_used g div 5 then gm_used g div 5 else gm_refund g"
  have r: "unat ?r = min (unat (gm_refund g)) (unat (gm_used g) div 5)"
    by (simp add: word_less_nat_alt unat_div64 min_def)
  then have "unat ?r \<le> unat (gm_used g)" by simp
  then have "\<not> ?r > gm_used g" unfolding word_less_nat_alt by simp
  moreover have "(if gm_used g > 0 then gm_used g div 5 else 0) = gm_used g div 5"
    by (simp add: word_neq_0_conv [symmetric])
  ultimately have "FinalUsed g = gm_used g - ?r" by (simp only: FinalUsed_def Let_def if_False)
  with \<open>\<not> ?r > gm_used g\<close> r show ?thesis by (simp only: unat_sub64 not_less)
qed

lemma AccessList_Copy_id [simp]: "AccessList_Copy al = al"
  by (cases al) (auto simp: AccessList_Copy_def split: option.split)

lemma Revert_Snapshot:
  assumes "gm_limit g' = gm_limit g"
  shows "GasMeter_Revert (GasMeter_Snapshot g) g' = g"
  using assms by (cases g, cases g') (simp add: GasMeter_Revert_def GasMeter_Snapshot_def)

section \<open>Cold and warm accesses\<close>

lemma AddAddress_spec:
  "fst (AddAddress a al) = (\<not> IsAddressWarm a al)"
  "IsAddressWarm b (snd (AddAddress a al)) = (b = a \<or> IsAddressWarm b al)"
  "IsSlotWarm b s (snd (AddAddress a al)) = IsSlotWarm b s al"
  by (auto simp: AddAddress_def IsAddressWarm_def IsSlotWarm_def)

lemma AddSlot_spec:
  "fst (AddSlot a s al) = (\<not> IsAddressWarm a al, \<not> IsSlotWarm a s al)"
  "IsAddressWarm b (snd (AddSlot a s al)) = (b = a \<or> IsAddressWarm b al)"
  "IsSlotWarm b t (snd (AddSlot a s al)) = ((b = a \<and> t = s) \<or> IsSlotWarm b t al)"
  by (auto simp: AddSlot_def IsAddressWarm_def IsSlotWarm_def Let_def split: option.splits)

text \<open>Charging for an access: the cold price the first time, the warm price from then on.\<close>

lemma ConsumeSLoad_warms: "IsSlotWarm a s (gm_accessList (snd (ConsumeSLoad a s g)))"
  by (simp add: ConsumeSLoad_def Consume_keeps AddSlot_spec)

lemma ConsumeSLoad_used:
  assumes "fst (ConsumeSLoad a s g) = Inr ()" and "gas_ok g"
  shows "unat (gm_used (snd (ConsumeSLoad a s g))) =
    unat (gm_used g) + (if IsSlotWarm a s (gm_accessList g) then 100 else 2100)"
proof (cases "IsSlotWarm a s (gm_accessList g)")
  case True
  from assms(2) show ?thesis using assms(1) True
    by (cases rule: Consume_cases [of g GasWarmSLoad]) (simp_all add: ConsumeSLoad_def gas_constants)
next
  case False
  let ?g = "g\<lparr>gm_accessList := snd (AddSlot a s (gm_accessList g))\<rparr>"
  have "gas_ok ?g" using assms(2) by (simp add: gas_ok_def)
  then show ?thesis using assms(1) False
    by (cases rule: Consume_cases [of ?g GasColdSLoad]) (simp_all add: ConsumeSLoad_def gas_constants)
qed

lemma ConsumeAccountAccess_warms: "IsAddressWarm a (gm_accessList (snd (ConsumeAccountAccess a g)))"
  by (simp add: ConsumeAccountAccess_def Consume_keeps AddAddress_spec)

section \<open>The cost formulas\<close>

text \<open>\<open>CalculateMemoryGas\<close> of \<open>gas.go\<close> and \<open>MemoryExpansionCost\<close> of \<open>memory.go\<close> are two
  implementations of the same price.\<close>

lemma CalculateMemoryGas_eq: "CalculateMemoryGas cur new = MemoryExpansionCost cur new"
proof -
  have max: "(- 1 :: u64) = MaxUint64" by (simp add: MaxUint64_def)
  consider "new \<le> cur" | "\<not> new \<le> cur" "33554432 < unat new" | "\<not> new \<le> cur" "unat new \<le> 33554432" by linarith
  then show ?thesis
  proof cases
    case 1
    then show ?thesis by (simp add: CalculateMemoryGas_def MemoryExpansionCost_def)
  next
    case 2
    then show ?thesis
      by (simp add: CalculateMemoryGas_def MemoryExpansionCost_def MemoryCost_max max word_less_nat_alt)
  next
    case 3
    then have cur: "unat cur \<le> 33554432" by (simp add: word_le_nat_alt)
    note n = mem_cost_words [OF 3(2)] and c = mem_cost_words [OF cur]
    have "unat ((cur + 31) div 32 * 3 + (cur + 31) div 32 * ((cur + 31) div 32) div 512)
        \<le> unat ((new + 31) div 32 * 3 + (new + 31) div 32 * ((new + 31) div 32) div 512)"
      unfolding n(3) c(3) using 3 by (intro mem_cost_mono) (simp add: word_le_nat_alt)
    then have le: "(cur + 31) div 32 * 3 + (cur + 31) div 32 * ((cur + 31) div 32) div 512
        \<le> (new + 31) div 32 * 3 + (new + 31) div 32 * ((new + 31) div 32) div 512" by (simp add: word_le_nat_alt)
    have "\<not> new > 33554432" using 3 by (simp add: word_less_nat_alt)
    moreover have "\<not> (new + 31) div 32 * 3 + (new + 31) div 32 * ((new + 31) div 32) div 512
        < (cur + 31) div 32 * 3 + (cur + 31) div 32 * ((cur + 31) div 32) div 512" using le by simp
    ultimately have "CalculateMemoryGas cur new =
        ((new + 31) div 32 * 3 + (new + 31) div 32 * ((new + 31) div 32) div 512)
        - ((cur + 31) div 32 * 3 + (cur + 31) div 32 * ((cur + 31) div 32) div 512)"
      by (simp only: CalculateMemoryGas_def Let_def GasMemory_def 3(1) n(1,2) c(1,2) if_False simp_thms)
    then have "unat (CalculateMemoryGas cur new) = mem_cost (unat new) - mem_cost (unat cur)"
      using le n(3) c(3) by (simp add: unat_sub64)
    also have "\<dots> = unat (MemoryExpansionCost cur new)"
      using unat_MemoryExpansionCost [OF cur 3(2)] by simp
    finally show ?thesis by (simp add: word_unat_eq_iff)
  qed
qed

lemma word_rounding:
  assumes "unat (sz :: u64) \<le> 18446744073709551584"
  shows "unat ((sz + 31) div 32) = (unat sz + 31) div 32" and "(unat sz + 31) div 32 \<le> 576460752303423487"
  using assms by (simp_all add: unat_div64 unat_add64_id)

lemma CalculateCopyGas_spec:
  "unat (CalculateCopyGas sz) =
     (if unat sz \<le> 18446744073709551584 then 3 * ((unat sz + 31) div 32) else 18446744073709551615)"
proof (cases "unat sz \<le> 18446744073709551584")
  case True
  note w = word_rounding [OF True]
  have "\<not> sz > MaxUint64 - 31" using True by (simp add: word_less_nat_alt)
  moreover have "\<not> (sz + 31) div 32 > MaxUint64 div GasCopy"
    using w by (simp add: word_less_nat_alt unat_div64 [of MaxUint64] GasCopy_def)
  moreover have "unat ((sz + 31) div 32 * 3) = (unat sz + 31) div 32 * 3"
    using w by (subst unat_mult64_id) simp_all
  ultimately show ?thesis using True by (simp add: CalculateCopyGas_def GasCopy_def)
qed (simp add: CalculateCopyGas_def word_less_nat_alt)

lemma CalculateSHA3Gas_spec:
  "unat (CalculateSHA3Gas sz) =
     (if unat sz \<le> 18446744073709551584 then 30 + 6 * ((unat sz + 31) div 32) else 18446744073709551615)"
proof (cases "unat sz \<le> 18446744073709551584")
  case True
  note w = word_rounding [OF True]
  have m: "unat ((sz + 31) div 32 * 6) = (unat sz + 31) div 32 * 6" using w by (subst unat_mult64_id) simp_all
  have "\<not> sz > MaxUint64 - 31" using True by (simp add: word_less_nat_alt)
  moreover have "\<not> (sz + 31) div 32 > MaxUint64 div GasSHA3Word"
    using w by (simp add: word_less_nat_alt unat_div64 [of MaxUint64] GasSHA3Word_def)
  moreover have "\<not> 30 > MaxUint64 - (sz + 31) div 32 * 6" using m w by (simp add: word_less_nat_alt)
  moreover have "unat (30 + (sz + 31) div 32 * 6) = 30 + (unat sz + 31) div 32 * 6"
    using m w by (subst unat_add64_id) simp_all
  ultimately show ?thesis using True by (simp add: CalculateSHA3Gas_def GasSHA3_def GasSHA3Word_def)
qed (simp add: CalculateSHA3Gas_def word_less_nat_alt)

lemma unat_word_of_int: "0 \<le> n \<Longrightarrow> n < 18446744073709551616 \<Longrightarrow> unat (word_of_int n :: u64) = nat n"
  by (simp add: unat_eq_nat_uint uint_word_of_int_eq take_bit_int_eq_self)

lemma CalculateExpGas_spec:
  assumes "0 \<le> n" and "n \<le> 32"
  shows "unat (CalculateExpGas n) = 10 + 50 * nat n"
proof -
  have n: "unat (word_of_int n :: u64) = nat n" using assms by (intro unat_word_of_int) simp_all
  have p: "unat (word_of_int n * 50 :: u64) = nat n * 50" using n assms by (subst unat_mult64_id) simp_all
  with n assms show ?thesis
    by (simp add: CalculateExpGas_def SafeMulGas_spec SafeAddGas_spec GasExpByte_def GasExp_def unat_add64_id)
qed

lemma CalculateLogGas_spec:
  assumes "0 \<le> n" and "n \<le> 4" and "unat sz \<le> 2305843009213693717"
  shows "unat (CalculateLogGas n sz) = 375 + 375 * nat n + 8 * unat sz"
proof -
  have n: "unat (word_of_int n :: u64) = nat n" using assms by (intro unat_word_of_int) simp_all
  have t: "unat (word_of_int n * 375 :: u64) = nat n * 375" using n assms by (subst unat_mult64_id) simp_all
  have d: "unat (sz * 8) = unat sz * 8" using assms by (subst unat_mult64_id) simp_all
  have td: "unat (word_of_int n * 375 :: u64) \<le> unat (MaxUint64)" "unat (sz * 8) \<le> 18446744073709551615 - nat n * 375"
    using t d assms by simp_all
  have "unat (MaxUint64 - word_of_int n * 375 - sz * 8) = 18446744073709551615 - nat n * 375 - unat sz * 8"
    using td t d by (subst unat_sub64) (simp_all add: word_le_nat_alt)
  then have "\<not> 375 > MaxUint64 - word_of_int n * 375 - sz * 8" using assms by (simp add: word_less_nat_alt)
  moreover have "\<not> word_of_int n > MaxUint64 div 375" "\<not> sz > MaxUint64 div 8"
    using n assms by (simp_all add: word_less_nat_alt unat_div64)
  moreover have "unat (375 + word_of_int n * 375 + sz * 8 :: u64) = 375 + nat n * 375 + unat sz * 8"
    using t d assms by (simp add: unat_add64_id)
  ultimately show ?thesis by (simp add: CalculateLogGas_def Let_def GasLog_def GasLogTopic_def GasLogData_def)
qed

lemma CalculateGasCost_spec:
  "CalculateGasCost gas price = Inr r \<longleftrightarrow> (\<exists>p. price = Some p \<and> 0 \<le> p \<and> r = uint gas * p \<and> r < 2 ^ 256)"
proof -
  have "256 < big_BitLen (uint gas * p) \<longleftrightarrow> \<not> uint gas * p < 2 ^ 256" if "0 \<le> p" for p
    using big_BitLen_le_iff [of "uint gas * p" 256] that by (simp add: abs_mult not_le [symmetric])
  then show ?thesis
    by (auto simp: CalculateGasCost_def maxGasCostBits_def Let_def split: option.splits)
qed

text \<open>\<open>CalculateCallGas\<close> with the default table: the price is the sum of its parts, and what the
  callee receives leaves at least a 64th of the rest with the caller.\<close>

definition call_price :: "bool \<Rightarrow> bool \<Rightarrow> bool \<Rightarrow> nat" where
  "call_price hasValue isNewAccount isCold =
     (if isCold then 2600 else 100) + (if hasValue then 9000 else 0) + (if isNewAccount \<and> hasValue then 25000 else 0)"

definition default_call_cost :: "bool \<Rightarrow> bool \<Rightarrow> bool \<Rightarrow> u64" where
  "default_call_cost hasValue isNewAccount isCold =
     (if isCold then 2600 else 100) + (if hasValue then 9000 else 0) + (if isNewAccount \<and> hasValue then 25000 else 0)"

lemma unat_default_call_cost: "unat (default_call_cost v n c) = call_price v n c"
  by (cases v; cases n; cases c) (simp_all add: default_call_cost_def call_price_def)

lemma call_price_le: "call_price v n c \<le> 36600"
  by (simp add: call_price_def)

lemma maxSafeGas_num: "maxSafeGas = 9223372036854775807"
  by (simp add: maxSafeGas_def mask_eq_exp_minus_1)

definition default_call_sent :: "u64 \<Rightarrow> u64 \<Rightarrow> bool \<Rightarrow> u64" where
  "default_call_sent rest requested hasValue =
     (let A = (if rest > maxSafeGas then maxSafeGas else rest);
          m = A - A div 64;
          m = (if m > maxSafeGas then maxSafeGas else m);
          r = (if requested > m then m else requested);
          r = (if hasValue then if r > maxSafeGas - GasCallStipend then maxSafeGas else r + GasCallStipend else r)
      in if r > maxSafeGas then maxSafeGas else r)"

lemma CalculateCallGas_split:
  "CalculateCallGas (Some DefaultGasTable) a r v n c =
     (let cost = default_call_cost v n c
      in if a \<le> cost then (cost, 0) else (cost, default_call_sent (a - cost) r v))"
  by (cases v; cases n; cases c)
    (simp_all add: CalculateCallGas_def DefaultGasTable_def default_call_cost_def default_call_sent_def
      maxSafeGas_num gas_constants Let_def)

lemma unat_default_call_sent:
  "unat (default_call_sent rest r v) =
     (let A = min (unat rest) 9223372036854775807 in min (unat r) (A - A div 64) + (if v then 2300 else 0))"
proof -
  define A where "A = (if rest > maxSafeGas then maxSafeGas else rest)"
  define q where "q = (if r > A - A div 64 then A - A div 64 else r)"
  have A: "unat A = min (unat rest) 9223372036854775807"
    by (simp add: A_def maxSafeGas_num word_less_nat_alt min_def)
  have m: "unat (A - A div 64) = unat A - unat A div 64"
    by (subst unat_sub64) (simp_all add: word_le_nat_alt unat_div64)
  have q: "unat q = min (unat r) (unat A - unat A div 64)" by (simp add: q_def word_less_nat_alt m min_def)
  have "unat A - unat A div 64 \<le> 9079256848778919936" using A by linarith
  then have small: "unat (A - A div 64) \<le> 9079256848778919936" "unat q \<le> 9079256848778919936" using m q by linarith+
  have s: "unat (q + 2300) = unat q + 2300" using small by (subst unat_add64_id) simp_all
  have "\<not> A - A div 64 > maxSafeGas" "\<not> q > maxSafeGas - GasCallStipend" "\<not> q > maxSafeGas" "\<not> q + 2300 > maxSafeGas"
    using small s by (simp_all add: maxSafeGas_num GasCallStipend_def word_less_nat_alt)
  then have "default_call_sent rest r v = (if v then q + 2300 else q)"
    by (simp only: default_call_sent_def Let_def A_def [symmetric] if_False q_def [symmetric] GasCallStipend_def split: if_split)
       simp
  then show ?thesis using s q A by (simp add: Let_def)
qed

text \<open>The intrinsic gas of a transaction.\<close>

lemma intrinsic_data_spec:
  assumes "unat gas + 16 * length bs < 18446744073709551616"
  shows "\<exists>g. intrinsic_data bs gas = Some g \<and>
    unat g = unat gas + 4 * length (filter (\<lambda>b. b = 0) bs) + 16 * length (filter (\<lambda>b. b \<noteq> 0) bs)"
  using assms
proof (induction bs arbitrary: gas)
  case (Cons b bs)
  define c :: u64 where "c = (if b = 0 then GasTxDataZero else GasTxDataNonZero)"
  have c: "unat c = (if b = 0 then 4 else 16)" by (simp add: c_def gas_constants)
  have sum: "unat (gas + c) = unat gas + unat c" using Cons.prems c by (subst unat_add64_id) (auto split: if_splits)
  then have "\<not> gas + c < gas" by (simp add: word_less_nat_alt)
  then have "intrinsic_data (b # bs) gas = intrinsic_data bs (gas + c)" by (simp add: c_def Let_def)
  moreover have "unat (gas + c) + 16 * length bs < 18446744073709551616" using Cons.prems sum c by (simp split: if_splits)
  ultimately show ?case using Cons.IH [of "gas + c"] sum c by auto
qed simp

text \<open>Preloading an access list charges each new address and each new slot once.\<close>

definition warm_slots :: "AccessList \<Rightarrow> (Address \<times> Hash) set" where
  "warm_slots al = {(a, s). IsSlotWarm a s al}"

lemma al_addresses_AddAddress: "al_addresses (snd (AddAddress a al)) = insert a (al_addresses al)"
  by (auto simp: AddAddress_def)

lemma al_addresses_AddSlot: "al_addresses (snd (AddSlot a s al)) = insert a (al_addresses al)"
  by (auto simp: AddSlot_def Let_def)

lemma warm_slots_AddSlot: "warm_slots (snd (AddSlot a s al)) = insert (a, s) (warm_slots al)"
  by (auto simp: warm_slots_def AddSlot_spec)

lemma warm_slots_AddAddress: "warm_slots (snd (AddAddress a al)) = warm_slots al"
  by (auto simp: warm_slots_def AddAddress_spec)

lemma card_insert_step:
  "card (set (x # xs) - S) = (if x \<in> S then card (set xs - S) else Suc (card (set xs - insert x S)))"
proof (cases "x \<in> S")
  case False
  then have "set (x # xs) - S = insert x (set xs - insert x S)" by auto
  with False show ?thesis by simp
qed (simp add: insert_Diff_if)

lemma preload_addresses_spec:
  assumes "unat cost + 2400 * card (set as - al_addresses al) < 18446744073709551616"
  shows "\<exists>c al'. preload_addresses as cost al = (Some c, al') \<and>
    unat c = unat cost + 2400 * card (set as - al_addresses al) \<and>
    al_addresses al' = al_addresses al \<union> set as \<and> warm_slots al' = warm_slots al"
  using assms
proof (induction as arbitrary: cost al)
  case (Cons a as)
  show ?case
  proof (cases "a \<in> al_addresses al")
    case True
    then show ?thesis using Cons.IH [of cost al] Cons.prems by (auto simp: AddAddress_def insert_Diff_if)
  next
    case False
    let ?al = "snd (AddAddress a al)"
    have pre: "unat cost + 2400 * Suc (card (set as - insert a (al_addresses al))) < 18446744073709551616"
      using Cons.prems False unfolding card_insert_step by simp
    then have sum: "unat (cost + 2400) = unat cost + 2400" by (subst unat_add64_id) simp_all
    then have "preload_addresses (a # as) cost al = preload_addresses as (cost + 2400) ?al"
      using False by (simp add: AddAddress_def gas_constants word_less_nat_alt)
    with Cons.IH [of "cost + 2400" ?al] sum pre False show ?thesis
      unfolding card_insert_step by (auto simp: al_addresses_AddAddress warm_slots_AddAddress)
  qed
qed simp

lemma preload_slots_spec:
  assumes "unat cost + 1900 * card (set ss - warm_slots al) < 18446744073709551616"
  shows "\<exists>c al'. preload_slots ss cost al = (Some c, al') \<and>
    unat c = unat cost + 1900 * card (set ss - warm_slots al) \<and>
    al_addresses al' = al_addresses al \<union> fst ` set ss \<and> warm_slots al' = warm_slots al \<union> set ss"
  using assms
proof (induction ss arbitrary: cost al)
  case (Cons as ss)
  obtain a s where as: "as = (a, s)" by force
  obtain al1 where step: "AddSlot a s al = ((\<not> IsAddressWarm a al, \<not> IsSlotWarm a s al), al1)"
    using AddSlot_spec(1) [of a s al] by (metis prod.collapse)
  have al1: "al_addresses al1 = insert a (al_addresses al)" "warm_slots al1 = insert (a, s) (warm_slots al)"
    using al_addresses_AddSlot [of a s al] warm_slots_AddSlot [of a s al] step by simp_all
  have mem: "IsSlotWarm a s al \<longleftrightarrow> (a, s) \<in> warm_slots al" by (simp add: warm_slots_def)
  show ?case
  proof (cases "IsSlotWarm a s al")
    case True
    then have "preload_slots (as # ss) cost al = preload_slots ss cost al1" unfolding as by (simp add: step)
    moreover have "warm_slots al1 = warm_slots al" using True mem by (auto simp: al1)
    moreover have "set (as # ss) - warm_slots al = set ss - warm_slots al" using True mem as by auto
    moreover have "warm_slots al \<union> set ss = warm_slots al \<union> set (as # ss)" using True mem as by auto
    moreover have "al_addresses al1 \<union> fst ` set ss = al_addresses al \<union> fst ` set (as # ss)"
      using as by (auto simp: al1)
    ultimately show ?thesis using Cons.IH [of cost al1] Cons.prems by simp
  next
    case False
    have pre: "unat cost + 1900 * Suc (card (set ss - insert as (warm_slots al))) < 18446744073709551616"
      using Cons.prems False mem unfolding card_insert_step as by simp
    then have sum: "unat (cost + 1900) = unat cost + 1900" by (subst unat_add64_id) simp_all
    then have "preload_slots (as # ss) cost al = preload_slots ss (cost + 1900) al1"
      unfolding as using False by (simp add: step gas_constants word_less_nat_alt)
    moreover have "warm_slots al1 = insert as (warm_slots al)" using as by (simp add: al1)
    moreover have "al_addresses al1 \<union> fst ` set ss = al_addresses al \<union> fst ` set (as # ss)"
      using as by (auto simp: al1)
    ultimately show ?thesis using Cons.IH [of "cost + 1900" al1] sum pre False mem as
      unfolding card_insert_step by (simp add: add.assoc)
  qed
qed simp

section \<open>Properties\<close>

text \<open>The overflow-checked gas arithmetic is exact: each function returns the mathematical
  result when it fits 64 bits and the overflow error otherwise, never a wrapped value.\<close>

lemma safe_gas_arithmetic_exact:
  "SafeAddGas a b = (if unat a + unat b < 2 ^ 64 then Inr (of_nat (unat a + unat b)) else Inl ErrGasOverflow) \<and>
   SafeMulGas a b = (if unat a * unat b < 2 ^ 64 then Inr (of_nat (unat a * unat b)) else Inl ErrGasOverflow) \<and>
   SafeSubGas a b = (if unat b \<le> unat a then Inr (of_nat (unat a - unat b)) else Inl ErrGasOverflow) \<and>
   SafeAddGasTuple a b c =
     (if unat a + unat b + unat c < 2 ^ 64 then Inr (of_nat (unat a + unat b + unat c)) else Inl ErrGasOverflow)"
  by (simp add: SafeAddGas_spec SafeMulGas_spec SafeSubGas_spec SafeAddGasTuple_spec of_nat_diff)

text \<open>C33: A gas meter never exceeds its limit: an amount that fits the rest is added exactly, an
  amount that does not fit is refused (leaving the meter full, or as it was when the 64-bit sum
  would wrap), and neither the limit, the refund counter nor the access list changes.\<close>

theorem gas_consume:
  assumes "gas_ok g"
  shows "(if unat (gm_used g) + unat a \<le> unat (gm_limit g)
          then fst (Consume a g) = Inr () \<and> unat (gm_used (snd (Consume a g))) = unat (gm_used g) + unat a
          else fst (Consume a g) \<in> {Inl ErrOutOfGas, Inl ErrGasOverflow} \<and>
               gm_used (snd (Consume a g)) \<in> {gm_used g, gm_limit g}) \<and>
    gas_ok (snd (Consume a g)) \<and> gm_limit (snd (Consume a g)) = gm_limit g \<and>
    gm_refund (snd (Consume a g)) = gm_refund g \<and> gm_accessList (snd (Consume a g)) = gm_accessList g"
  using assms gas_ok_Consume [OF assms, of a]
  by (cases rule: Consume_cases [of g a]) (simp_all add: Consume_keeps)

theorem gas_consume_witness:
  "unat (gm_used (snd (Consume 21000 (NewGasMeter 30000)))) = 21000 \<and>
   fst (Consume 30001 (NewGasMeter 30000)) \<in> {Inl ErrOutOfGas, Inl ErrGasOverflow}"
proof -
  have ok: "gas_ok (NewGasMeter 30000)" by (simp add: gas_ok_def NewGasMeter_def)
  show ?thesis using gas_consume [OF ok, of 21000] gas_consume [OF ok, of 30001] by (simp add: NewGasMeter_def)
qed

text \<open>The gas finally charged is the gas used less the refund, and the refund is at most a fifth
  of the gas used (EIP-3529), so at least four fifths are always paid.\<close>

lemma final_gas_after_refund:
  "unat (FinalUsed g) + unat (RefundAmount g) = unat (gm_used g) \<and>
   4 * unat (gm_used g) \<le> 5 * unat (FinalUsed g) \<and>
   unat (RefundAmount g) = min (unat (gm_refund g)) (unat (gm_used g) div 5)"
  unfolding FinalUsed_spec actual_refund_spec by linarith

text \<open>C28: With the default gas table a call is charged the sum of the access, value and
  new-account prices, and the callee gets the requested gas capped at 63/64 of what is left,
  plus the stipend of 2300 when value is sent; nothing when the rest does not cover the price.\<close>

theorem call_gas_63_64:
  "(let r = CalculateCallGas (Some DefaultGasTable) available requested hasValue isNew isCold;
        price = call_price hasValue isNew isCold;
        A = min (unat available - price) (2 ^ 63 - 1)
    in unat (fst r) = price \<and>
       unat (snd r) = (if unat available \<le> price then 0
                       else min (unat requested) (A - A div 64) + (if hasValue then 2300 else 0)))"
proof (cases "available \<le> default_call_cost hasValue isNew isCold")
  case True
  then show ?thesis
    by (simp add: CalculateCallGas_split Let_def word_le_nat_alt unat_default_call_cost)
next
  case False
  then have "unat (available - default_call_cost hasValue isNew isCold) = unat available - call_price hasValue isNew isCold"
    by (simp add: unat_sub64 unat_default_call_cost)
  with False show ?thesis
    by (simp add: CalculateCallGas_split Let_def word_le_nat_alt unat_default_call_cost unat_default_call_sent)
qed

text \<open>C29: Preloading a transaction access list charges 2400 for each address that was cold and 1900
  for each slot that was cold, each once whatever the repetitions and the order in which the
  slot map is iterated, and afterwards exactly the listed entries are warm in addition.\<close>

theorem preload_access_list:
  assumes "2400 * card (set as - al_addresses (gm_accessList g)) +
      1900 * card ({(a, s). \<exists>ss. (a, ss) \<in> set slots \<and> s \<in> set ss} - warm_slots (gm_accessList g)) < 2 ^ 64"
  shows "let (cost, g') = PreloadAccessList as slots g in
    unat cost = 2400 * card (set as - al_addresses (gm_accessList g)) +
      1900 * card ({(a, s). \<exists>ss. (a, ss) \<in> set slots \<and> s \<in> set ss} - warm_slots (gm_accessList g)) \<and>
    warm_slots (gm_accessList g') = warm_slots (gm_accessList g) \<union> {(a, s). \<exists>ss. (a, ss) \<in> set slots \<and> s \<in> set ss} \<and>
    set as \<subseteq> al_addresses (gm_accessList g') \<and> gm_used g' = gm_used g"
proof -
  let ?flat = "concat (map (\<lambda>(a, ss). map (Pair a) ss) slots)"
  have flat: "set ?flat = {(a, s). \<exists>ss. (a, ss) \<in> set slots \<and> s \<in> set ss}" by force
  obtain c1 al1 where 1: "preload_addresses as 0 (gm_accessList g) = (Some c1, al1)"
    "unat c1 = 2400 * card (set as - al_addresses (gm_accessList g))"
    "al_addresses al1 = al_addresses (gm_accessList g) \<union> set as" "warm_slots al1 = warm_slots (gm_accessList g)"
    using preload_addresses_spec [of 0 as "gm_accessList g"] assms by auto
  obtain c2 al2 where 2: "preload_slots ?flat c1 al1 = (Some c2, al2)"
    "unat c2 = unat c1 + 1900 * card (set ?flat - warm_slots al1)"
    "al_addresses al2 = al_addresses al1 \<union> fst ` set ?flat" "warm_slots al2 = warm_slots al1 \<union> set ?flat"
    using preload_slots_spec [of c1 ?flat al1] assms unfolding flat 1 by auto
  have "PreloadAccessList as slots g = (c2, g\<lparr>gm_accessList := al2\<rparr>)" by (simp add: PreloadAccessList_def 1(1) 2(1))
  then show ?thesis using 2 unfolding flat 1 by auto
qed

theorem preload_access_list_witness:
  "unat (fst (PreloadAccessList [1, 1, 2] [(1, [5]), (3, [5])] (NewGasMeter 0))) = 8600"
proof -
  have s: "{(a, s). \<exists>ss. (a, ss) \<in> set [(1, [5]), (3, [5])] \<and> s \<in> set ss} = {(1, 5), (3, 5)}"
    by auto
  have c: "set [1, 1, 2] - al_addresses (gm_accessList (NewGasMeter 0)) = {1, 2}"
    "warm_slots (gm_accessList (NewGasMeter 0)) = {}"
    by (auto simp: NewGasMeter_def NewAccessList_def warm_slots_def IsSlotWarm_def)
  show ?thesis
    using preload_access_list [of "[1, 1, 2]" "NewGasMeter 0" "[(1, [5]), (3, [5])]", unfolded s c]
    by (simp add: case_prod_beta)
qed

text \<open>The overflow test of \<open>CalculateLogGas\<close> subtracts both costs from the maximum before it
  compares, and that subtraction itself wraps: four topics and the largest size that passes the
  size test are priced at 1867 instead of the maximum.\<close>

lemma CalculateLogGas_wraps: "CalculateLogGas 4 2305843009213693951 = 1867"
  by (simp add: CalculateLogGas_def MaxUint64_def gas_constants)

end
