(* ===== verification/QVM_Opcodes.thy ===== *)
theory QVM_Opcodes
  imports QVM_Gas
begin

text \<open>
  \<open>src/qvm/opcodes.go\<close>: the instruction set. An \<open>OpCode\<close> is a byte; the constants are
  abbreviations for their numbers and the metadata table is the array that the assignments of
  \<open>init\<close> fill. The lemmas are checks over all rows of the table that the interpreter and the
  code analyses rely on.
\<close>

section \<open>The instructions\<close>

type_synonym OpCode = byte

abbreviation (input) op_STOP :: OpCode where "op_STOP \<equiv> 0x00"
abbreviation (input) op_JUMP :: OpCode where "op_JUMP \<equiv> 0x01"
abbreviation (input) op_JUMPI :: OpCode where "op_JUMPI \<equiv> 0x02"
abbreviation (input) op_JUMPDEST :: OpCode where "op_JUMPDEST \<equiv> 0x03"
abbreviation (input) op_PC :: OpCode where "op_PC \<equiv> 0x04"
abbreviation (input) op_NOP :: OpCode where "op_NOP \<equiv> 0x05"
abbreviation (input) op_RETURN :: OpCode where "op_RETURN \<equiv> 0x06"
abbreviation (input) op_REVERT :: OpCode where "op_REVERT \<equiv> 0x07"
abbreviation (input) op_INVALID :: OpCode where "op_INVALID \<equiv> 0x08"
abbreviation (input) op_SIGNEXTEND :: OpCode where "op_SIGNEXTEND \<equiv> 0x09"
abbreviation (input) op_PUSH0 :: OpCode where "op_PUSH0 \<equiv> 0x0A"
abbreviation (input) op_PUSH1 :: OpCode where "op_PUSH1 \<equiv> 0x10"
abbreviation (input) op_PUSH2 :: OpCode where "op_PUSH2 \<equiv> 0x11"
abbreviation (input) op_PUSH4 :: OpCode where "op_PUSH4 \<equiv> 0x12"
abbreviation (input) op_PUSH8 :: OpCode where "op_PUSH8 \<equiv> 0x13"
abbreviation (input) op_PUSH16 :: OpCode where "op_PUSH16 \<equiv> 0x14"
abbreviation (input) op_PUSH32 :: OpCode where "op_PUSH32 \<equiv> 0x15"
abbreviation (input) op_POP :: OpCode where "op_POP \<equiv> 0x16"
abbreviation (input) op_PUSH3 :: OpCode where "op_PUSH3 \<equiv> 0xB0"
abbreviation (input) op_PUSH5 :: OpCode where "op_PUSH5 \<equiv> 0xB1"
abbreviation (input) op_PUSH6 :: OpCode where "op_PUSH6 \<equiv> 0xB2"
abbreviation (input) op_PUSH7 :: OpCode where "op_PUSH7 \<equiv> 0xB3"
abbreviation (input) op_PUSH9 :: OpCode where "op_PUSH9 \<equiv> 0xB4"
abbreviation (input) op_PUSH10 :: OpCode where "op_PUSH10 \<equiv> 0xB5"
abbreviation (input) op_PUSH11 :: OpCode where "op_PUSH11 \<equiv> 0xB6"
abbreviation (input) op_PUSH12 :: OpCode where "op_PUSH12 \<equiv> 0xB7"
abbreviation (input) op_PUSH13 :: OpCode where "op_PUSH13 \<equiv> 0xB8"
abbreviation (input) op_PUSH14 :: OpCode where "op_PUSH14 \<equiv> 0xB9"
abbreviation (input) op_PUSH15 :: OpCode where "op_PUSH15 \<equiv> 0xBA"
abbreviation (input) op_PUSH17 :: OpCode where "op_PUSH17 \<equiv> 0xBB"
abbreviation (input) op_PUSH18 :: OpCode where "op_PUSH18 \<equiv> 0xBC"
abbreviation (input) op_PUSH19 :: OpCode where "op_PUSH19 \<equiv> 0xBD"
abbreviation (input) op_PUSH20 :: OpCode where "op_PUSH20 \<equiv> 0xBE"
abbreviation (input) op_PUSH21 :: OpCode where "op_PUSH21 \<equiv> 0xBF"
abbreviation (input) op_PUSH22 :: OpCode where "op_PUSH22 \<equiv> 0xC0"
abbreviation (input) op_PUSH23 :: OpCode where "op_PUSH23 \<equiv> 0xC1"
abbreviation (input) op_PUSH24 :: OpCode where "op_PUSH24 \<equiv> 0xC2"
abbreviation (input) op_PUSH25 :: OpCode where "op_PUSH25 \<equiv> 0xC3"
abbreviation (input) op_PUSH26 :: OpCode where "op_PUSH26 \<equiv> 0xC4"
abbreviation (input) op_PUSH27 :: OpCode where "op_PUSH27 \<equiv> 0xC5"
abbreviation (input) op_PUSH28 :: OpCode where "op_PUSH28 \<equiv> 0xC6"
abbreviation (input) op_PUSH29 :: OpCode where "op_PUSH29 \<equiv> 0xC7"
abbreviation (input) op_PUSH30 :: OpCode where "op_PUSH30 \<equiv> 0xC8"
abbreviation (input) op_PUSH31 :: OpCode where "op_PUSH31 \<equiv> 0xC9"
abbreviation (input) op_DUP1 :: OpCode where "op_DUP1 \<equiv> 0x17"
abbreviation (input) op_DUP2 :: OpCode where "op_DUP2 \<equiv> 0x18"
abbreviation (input) op_DUP3 :: OpCode where "op_DUP3 \<equiv> 0x19"
abbreviation (input) op_DUP4 :: OpCode where "op_DUP4 \<equiv> 0x1A"
abbreviation (input) op_DUP5 :: OpCode where "op_DUP5 \<equiv> 0xD0"
abbreviation (input) op_DUP6 :: OpCode where "op_DUP6 \<equiv> 0xD1"
abbreviation (input) op_DUP7 :: OpCode where "op_DUP7 \<equiv> 0xD2"
abbreviation (input) op_DUP8 :: OpCode where "op_DUP8 \<equiv> 0xD3"
abbreviation (input) op_DUP9 :: OpCode where "op_DUP9 \<equiv> 0xD4"
abbreviation (input) op_DUP10 :: OpCode where "op_DUP10 \<equiv> 0xD5"
abbreviation (input) op_DUP11 :: OpCode where "op_DUP11 \<equiv> 0xD6"
abbreviation (input) op_DUP12 :: OpCode where "op_DUP12 \<equiv> 0xD7"
abbreviation (input) op_DUP13 :: OpCode where "op_DUP13 \<equiv> 0xD8"
abbreviation (input) op_DUP14 :: OpCode where "op_DUP14 \<equiv> 0xD9"
abbreviation (input) op_DUP15 :: OpCode where "op_DUP15 \<equiv> 0xDA"
abbreviation (input) op_DUP16 :: OpCode where "op_DUP16 \<equiv> 0xDB"
abbreviation (input) op_SWAP1 :: OpCode where "op_SWAP1 \<equiv> 0x1B"
abbreviation (input) op_SWAP2 :: OpCode where "op_SWAP2 \<equiv> 0x1C"
abbreviation (input) op_SWAP3 :: OpCode where "op_SWAP3 \<equiv> 0x1D"
abbreviation (input) op_SWAP4 :: OpCode where "op_SWAP4 \<equiv> 0x1E"
abbreviation (input) op_SWAP5 :: OpCode where "op_SWAP5 \<equiv> 0xDC"
abbreviation (input) op_SWAP6 :: OpCode where "op_SWAP6 \<equiv> 0xDD"
abbreviation (input) op_SWAP7 :: OpCode where "op_SWAP7 \<equiv> 0xDE"
abbreviation (input) op_SWAP8 :: OpCode where "op_SWAP8 \<equiv> 0xDF"
abbreviation (input) op_SWAP9 :: OpCode where "op_SWAP9 \<equiv> 0xE0"
abbreviation (input) op_SWAP10 :: OpCode where "op_SWAP10 \<equiv> 0xE1"
abbreviation (input) op_SWAP11 :: OpCode where "op_SWAP11 \<equiv> 0xE2"
abbreviation (input) op_SWAP12 :: OpCode where "op_SWAP12 \<equiv> 0xE3"
abbreviation (input) op_SWAP13 :: OpCode where "op_SWAP13 \<equiv> 0xE4"
abbreviation (input) op_SWAP14 :: OpCode where "op_SWAP14 \<equiv> 0xE5"
abbreviation (input) op_SWAP15 :: OpCode where "op_SWAP15 \<equiv> 0xE6"
abbreviation (input) op_SWAP16 :: OpCode where "op_SWAP16 \<equiv> 0xE7"
abbreviation (input) op_BLOBBASEFEE :: OpCode where "op_BLOBBASEFEE \<equiv> 0xE8"
abbreviation (input) op_ADD :: OpCode where "op_ADD \<equiv> 0x20"
abbreviation (input) op_SUB :: OpCode where "op_SUB \<equiv> 0x21"
abbreviation (input) op_MUL :: OpCode where "op_MUL \<equiv> 0x22"
abbreviation (input) op_DIV :: OpCode where "op_DIV \<equiv> 0x23"
abbreviation (input) op_MOD :: OpCode where "op_MOD \<equiv> 0x24"
abbreviation (input) op_SDIV :: OpCode where "op_SDIV \<equiv> 0x25"
abbreviation (input) op_SMOD :: OpCode where "op_SMOD \<equiv> 0x26"
abbreviation (input) op_ADDMOD :: OpCode where "op_ADDMOD \<equiv> 0x27"
abbreviation (input) op_MULMOD :: OpCode where "op_MULMOD \<equiv> 0x28"
abbreviation (input) op_EXP :: OpCode where "op_EXP \<equiv> 0x29"
abbreviation (input) op_LT :: OpCode where "op_LT \<equiv> 0x30"
abbreviation (input) op_GT :: OpCode where "op_GT \<equiv> 0x31"
abbreviation (input) op_SLT :: OpCode where "op_SLT \<equiv> 0x32"
abbreviation (input) op_SGT :: OpCode where "op_SGT \<equiv> 0x33"
abbreviation (input) op_EQ :: OpCode where "op_EQ \<equiv> 0x34"
abbreviation (input) op_ISZERO :: OpCode where "op_ISZERO \<equiv> 0x35"
abbreviation (input) op_AND :: OpCode where "op_AND \<equiv> 0x40"
abbreviation (input) op_OR :: OpCode where "op_OR \<equiv> 0x41"
abbreviation (input) op_XOR :: OpCode where "op_XOR \<equiv> 0x42"
abbreviation (input) op_NOT :: OpCode where "op_NOT \<equiv> 0x43"
abbreviation (input) op_SHL :: OpCode where "op_SHL \<equiv> 0x44"
abbreviation (input) op_SHR :: OpCode where "op_SHR \<equiv> 0x45"
abbreviation (input) op_SAR :: OpCode where "op_SAR \<equiv> 0x46"
abbreviation (input) op_BYTE :: OpCode where "op_BYTE \<equiv> 0x47"
abbreviation (input) op_MLOAD :: OpCode where "op_MLOAD \<equiv> 0x50"
abbreviation (input) op_MSTORE :: OpCode where "op_MSTORE \<equiv> 0x51"
abbreviation (input) op_MSTORE8 :: OpCode where "op_MSTORE8 \<equiv> 0x52"
abbreviation (input) op_MSIZE :: OpCode where "op_MSIZE \<equiv> 0x53"
abbreviation (input) op_MCOPY :: OpCode where "op_MCOPY \<equiv> 0x54"
abbreviation (input) op_SLOAD :: OpCode where "op_SLOAD \<equiv> 0x60"
abbreviation (input) op_SSTORE :: OpCode where "op_SSTORE \<equiv> 0x61"
abbreviation (input) op_TLOAD :: OpCode where "op_TLOAD \<equiv> 0x62"
abbreviation (input) op_TSTORE :: OpCode where "op_TSTORE \<equiv> 0x63"
abbreviation (input) op_ADDRESS :: OpCode where "op_ADDRESS \<equiv> 0x70"
abbreviation (input) op_BALANCE :: OpCode where "op_BALANCE \<equiv> 0x71"
abbreviation (input) op_ORIGIN :: OpCode where "op_ORIGIN \<equiv> 0x72"
abbreviation (input) op_CALLER :: OpCode where "op_CALLER \<equiv> 0x73"
abbreviation (input) op_CALLVALUE :: OpCode where "op_CALLVALUE \<equiv> 0x74"
abbreviation (input) op_CALLDATALOAD :: OpCode where "op_CALLDATALOAD \<equiv> 0x75"
abbreviation (input) op_CALLDATASIZE :: OpCode where "op_CALLDATASIZE \<equiv> 0x76"
abbreviation (input) op_CALLDATACOPY :: OpCode where "op_CALLDATACOPY \<equiv> 0x77"
abbreviation (input) op_CODESIZE :: OpCode where "op_CODESIZE \<equiv> 0x78"
abbreviation (input) op_CODECOPY :: OpCode where "op_CODECOPY \<equiv> 0x79"
abbreviation (input) op_GASPRICE :: OpCode where "op_GASPRICE \<equiv> 0x7A"
abbreviation (input) op_GASLIMIT :: OpCode where "op_GASLIMIT \<equiv> 0x7B"
abbreviation (input) op_GAS :: OpCode where "op_GAS \<equiv> 0x7C"
abbreviation (input) op_BLOCKHASH :: OpCode where "op_BLOCKHASH \<equiv> 0x7D"
abbreviation (input) op_COINBASE :: OpCode where "op_COINBASE \<equiv> 0x7E"
abbreviation (input) op_TIMESTAMP :: OpCode where "op_TIMESTAMP \<equiv> 0x7F"
abbreviation (input) op_NUMBER :: OpCode where "op_NUMBER \<equiv> 0x80"
abbreviation (input) op_CHAINID :: OpCode where "op_CHAINID \<equiv> 0x81"
abbreviation (input) op_SELFBALANCE :: OpCode where "op_SELFBALANCE \<equiv> 0x82"
abbreviation (input) op_EXTCODESIZE :: OpCode where "op_EXTCODESIZE \<equiv> 0x83"
abbreviation (input) op_EXTCODECOPY :: OpCode where "op_EXTCODECOPY \<equiv> 0x84"
abbreviation (input) op_EXTCODEHASH :: OpCode where "op_EXTCODEHASH \<equiv> 0x85"
abbreviation (input) op_PREVRANDAO :: OpCode where "op_PREVRANDAO \<equiv> 0x86"
abbreviation (input) op_BLOBHASH :: OpCode where "op_BLOBHASH \<equiv> 0x87"
abbreviation (input) op_BASEFEE :: OpCode where "op_BASEFEE \<equiv> 0x8D"
abbreviation (input) op_SHA3 :: OpCode where "op_SHA3 \<equiv> 0x88"
abbreviation (input) op_KECCAK256 :: OpCode where "op_KECCAK256 \<equiv> 0x89"
abbreviation (input) op_KYBER_KEYGEN :: OpCode where "op_KYBER_KEYGEN \<equiv> 0x8A"
abbreviation (input) op_KYBER_ENCAPS :: OpCode where "op_KYBER_ENCAPS \<equiv> 0x8B"
abbreviation (input) op_KYBER_DECAPS :: OpCode where "op_KYBER_DECAPS \<equiv> 0x8C"
abbreviation (input) op_KYBER_ZERO_KEY :: OpCode where "op_KYBER_ZERO_KEY \<equiv> 0x8E"
abbreviation (input) op_CALL :: OpCode where "op_CALL \<equiv> 0x90"
abbreviation (input) op_CALLCODE :: OpCode where "op_CALLCODE \<equiv> 0x91"
abbreviation (input) op_DELEGATECALL :: OpCode where "op_DELEGATECALL \<equiv> 0x92"
abbreviation (input) op_STATICCALL :: OpCode where "op_STATICCALL \<equiv> 0x93"
abbreviation (input) op_CREATE :: OpCode where "op_CREATE \<equiv> 0x94"
abbreviation (input) op_CREATE2 :: OpCode where "op_CREATE2 \<equiv> 0x95"
abbreviation (input) op_AUTH :: OpCode where "op_AUTH \<equiv> 0x96"
abbreviation (input) op_AUTHCALL :: OpCode where "op_AUTHCALL \<equiv> 0x97"
abbreviation (input) op_RETURNDATASIZE :: OpCode where "op_RETURNDATASIZE \<equiv> 0x3D"
abbreviation (input) op_RETURNDATACOPY :: OpCode where "op_RETURNDATACOPY \<equiv> 0x3E"
abbreviation (input) op_LOG0 :: OpCode where "op_LOG0 \<equiv> 0xA0"
abbreviation (input) op_LOG1 :: OpCode where "op_LOG1 \<equiv> 0xA1"
abbreviation (input) op_LOG2 :: OpCode where "op_LOG2 \<equiv> 0xA2"
abbreviation (input) op_LOG3 :: OpCode where "op_LOG3 \<equiv> 0xA3"
abbreviation (input) op_LOG4 :: OpCode where "op_LOG4 \<equiv> 0xA4"
abbreviation (input) op_SELFDESTRUCT :: OpCode where "op_SELFDESTRUCT \<equiv> 0xF0"

section \<open>The metadata table\<close>

record OpCodeInfo =
  Name :: string
  StackPop :: nat
  StackPush :: nat
  GasCost :: u64
  ImmediateSize :: nat
  IsJump :: bool
  IsTerminal :: bool

definition emptyInfo :: OpCodeInfo where
  "emptyInfo = \<lparr>Name = [], StackPop = 0, StackPush = 0, GasCost = 0, ImmediateSize = 0, IsJump = False, IsTerminal = False\<rparr>"

definition opcodeInfoTable :: "OpCode \<Rightarrow> OpCodeInfo" where
  "opcodeInfoTable op =
     (if op = op_STOP then \<lparr>Name = ''STOP'', StackPop = 0, StackPush = 0, GasCost = 0, ImmediateSize = 0, IsJump = False, IsTerminal = True\<rparr>
      else if op = op_JUMP then \<lparr>Name = ''JUMP'', StackPop = 1, StackPush = 0, GasCost = 8, ImmediateSize = 0, IsJump = True, IsTerminal = False\<rparr>
      else if op = op_JUMPI then \<lparr>Name = ''JUMPI'', StackPop = 2, StackPush = 0, GasCost = 10, ImmediateSize = 0, IsJump = True, IsTerminal = False\<rparr>
      else if op = op_JUMPDEST then \<lparr>Name = ''JUMPDEST'', StackPop = 0, StackPush = 0, GasCost = 1, ImmediateSize = 0, IsJump = False, IsTerminal = False\<rparr>
      else if op = op_PC then \<lparr>Name = ''PC'', StackPop = 0, StackPush = 1, GasCost = 2, ImmediateSize = 0, IsJump = False, IsTerminal = False\<rparr>
      else if op = op_NOP then \<lparr>Name = ''NOP'', StackPop = 0, StackPush = 0, GasCost = 1, ImmediateSize = 0, IsJump = False, IsTerminal = False\<rparr>
      else if op = op_RETURN then \<lparr>Name = ''RETURN'', StackPop = 2, StackPush = 0, GasCost = 0, ImmediateSize = 0, IsJump = False, IsTerminal = True\<rparr>
      else if op = op_REVERT then \<lparr>Name = ''REVERT'', StackPop = 2, StackPush = 0, GasCost = 0, ImmediateSize = 0, IsJump = False, IsTerminal = True\<rparr>
      else if op = op_INVALID then \<lparr>Name = ''INVALID'', StackPop = 0, StackPush = 0, GasCost = 0, ImmediateSize = 0, IsJump = False, IsTerminal = True\<rparr>
      else if op = op_SIGNEXTEND then \<lparr>Name = ''SIGNEXTEND'', StackPop = 2, StackPush = 1, GasCost = 5, ImmediateSize = 0, IsJump = False, IsTerminal = False\<rparr>
      else if op = op_PUSH0 then \<lparr>Name = ''PUSH0'', StackPop = 0, StackPush = 1, GasCost = 2, ImmediateSize = 0, IsJump = False, IsTerminal = False\<rparr>
      else if op = op_PUSH1 then \<lparr>Name = ''PUSH1'', StackPop = 0, StackPush = 1, GasCost = 3, ImmediateSize = 1, IsJump = False, IsTerminal = False\<rparr>
      else if op = op_PUSH2 then \<lparr>Name = ''PUSH2'', StackPop = 0, StackPush = 1, GasCost = 3, ImmediateSize = 2, IsJump = False, IsTerminal = False\<rparr>
      else if op = op_PUSH3 then \<lparr>Name = ''PUSH3'', StackPop = 0, StackPush = 1, GasCost = 3, ImmediateSize = 3, IsJump = False, IsTerminal = False\<rparr>
      else if op = op_PUSH4 then \<lparr>Name = ''PUSH4'', StackPop = 0, StackPush = 1, GasCost = 3, ImmediateSize = 4, IsJump = False, IsTerminal = False\<rparr>
      else if op = op_PUSH5 then \<lparr>Name = ''PUSH5'', StackPop = 0, StackPush = 1, GasCost = 3, ImmediateSize = 5, IsJump = False, IsTerminal = False\<rparr>
      else if op = op_PUSH6 then \<lparr>Name = ''PUSH6'', StackPop = 0, StackPush = 1, GasCost = 3, ImmediateSize = 6, IsJump = False, IsTerminal = False\<rparr>
      else if op = op_PUSH7 then \<lparr>Name = ''PUSH7'', StackPop = 0, StackPush = 1, GasCost = 3, ImmediateSize = 7, IsJump = False, IsTerminal = False\<rparr>
      else if op = op_PUSH8 then \<lparr>Name = ''PUSH8'', StackPop = 0, StackPush = 1, GasCost = 3, ImmediateSize = 8, IsJump = False, IsTerminal = False\<rparr>
      else if op = op_PUSH9 then \<lparr>Name = ''PUSH9'', StackPop = 0, StackPush = 1, GasCost = 3, ImmediateSize = 9, IsJump = False, IsTerminal = False\<rparr>
      else if op = op_PUSH10 then \<lparr>Name = ''PUSH10'', StackPop = 0, StackPush = 1, GasCost = 3, ImmediateSize = 10, IsJump = False, IsTerminal = False\<rparr>
      else if op = op_PUSH11 then \<lparr>Name = ''PUSH11'', StackPop = 0, StackPush = 1, GasCost = 3, ImmediateSize = 11, IsJump = False, IsTerminal = False\<rparr>
      else if op = op_PUSH12 then \<lparr>Name = ''PUSH12'', StackPop = 0, StackPush = 1, GasCost = 3, ImmediateSize = 12, IsJump = False, IsTerminal = False\<rparr>
      else if op = op_PUSH13 then \<lparr>Name = ''PUSH13'', StackPop = 0, StackPush = 1, GasCost = 3, ImmediateSize = 13, IsJump = False, IsTerminal = False\<rparr>
      else if op = op_PUSH14 then \<lparr>Name = ''PUSH14'', StackPop = 0, StackPush = 1, GasCost = 3, ImmediateSize = 14, IsJump = False, IsTerminal = False\<rparr>
      else if op = op_PUSH15 then \<lparr>Name = ''PUSH15'', StackPop = 0, StackPush = 1, GasCost = 3, ImmediateSize = 15, IsJump = False, IsTerminal = False\<rparr>
      else if op = op_PUSH16 then \<lparr>Name = ''PUSH16'', StackPop = 0, StackPush = 1, GasCost = 3, ImmediateSize = 16, IsJump = False, IsTerminal = False\<rparr>
      else if op = op_PUSH17 then \<lparr>Name = ''PUSH17'', StackPop = 0, StackPush = 1, GasCost = 3, ImmediateSize = 17, IsJump = False, IsTerminal = False\<rparr>
      else if op = op_PUSH18 then \<lparr>Name = ''PUSH18'', StackPop = 0, StackPush = 1, GasCost = 3, ImmediateSize = 18, IsJump = False, IsTerminal = False\<rparr>
      else if op = op_PUSH19 then \<lparr>Name = ''PUSH19'', StackPop = 0, StackPush = 1, GasCost = 3, ImmediateSize = 19, IsJump = False, IsTerminal = False\<rparr>
      else if op = op_PUSH20 then \<lparr>Name = ''PUSH20'', StackPop = 0, StackPush = 1, GasCost = 3, ImmediateSize = 20, IsJump = False, IsTerminal = False\<rparr>
      else if op = op_PUSH21 then \<lparr>Name = ''PUSH21'', StackPop = 0, StackPush = 1, GasCost = 3, ImmediateSize = 21, IsJump = False, IsTerminal = False\<rparr>
      else if op = op_PUSH22 then \<lparr>Name = ''PUSH22'', StackPop = 0, StackPush = 1, GasCost = 3, ImmediateSize = 22, IsJump = False, IsTerminal = False\<rparr>
      else if op = op_PUSH23 then \<lparr>Name = ''PUSH23'', StackPop = 0, StackPush = 1, GasCost = 3, ImmediateSize = 23, IsJump = False, IsTerminal = False\<rparr>
      else if op = op_PUSH24 then \<lparr>Name = ''PUSH24'', StackPop = 0, StackPush = 1, GasCost = 3, ImmediateSize = 24, IsJump = False, IsTerminal = False\<rparr>
      else if op = op_PUSH25 then \<lparr>Name = ''PUSH25'', StackPop = 0, StackPush = 1, GasCost = 3, ImmediateSize = 25, IsJump = False, IsTerminal = False\<rparr>
      else if op = op_PUSH26 then \<lparr>Name = ''PUSH26'', StackPop = 0, StackPush = 1, GasCost = 3, ImmediateSize = 26, IsJump = False, IsTerminal = False\<rparr>
      else if op = op_PUSH27 then \<lparr>Name = ''PUSH27'', StackPop = 0, StackPush = 1, GasCost = 3, ImmediateSize = 27, IsJump = False, IsTerminal = False\<rparr>
      else if op = op_PUSH28 then \<lparr>Name = ''PUSH28'', StackPop = 0, StackPush = 1, GasCost = 3, ImmediateSize = 28, IsJump = False, IsTerminal = False\<rparr>
      else if op = op_PUSH29 then \<lparr>Name = ''PUSH29'', StackPop = 0, StackPush = 1, GasCost = 3, ImmediateSize = 29, IsJump = False, IsTerminal = False\<rparr>
      else if op = op_PUSH30 then \<lparr>Name = ''PUSH30'', StackPop = 0, StackPush = 1, GasCost = 3, ImmediateSize = 30, IsJump = False, IsTerminal = False\<rparr>
      else if op = op_PUSH31 then \<lparr>Name = ''PUSH31'', StackPop = 0, StackPush = 1, GasCost = 3, ImmediateSize = 31, IsJump = False, IsTerminal = False\<rparr>
      else if op = op_PUSH32 then \<lparr>Name = ''PUSH32'', StackPop = 0, StackPush = 1, GasCost = 3, ImmediateSize = 32, IsJump = False, IsTerminal = False\<rparr>
      else if op = op_POP then \<lparr>Name = ''POP'', StackPop = 1, StackPush = 0, GasCost = 2, ImmediateSize = 0, IsJump = False, IsTerminal = False\<rparr>
      else if op = op_DUP1 then \<lparr>Name = ''DUP1'', StackPop = 1, StackPush = 1, GasCost = 3, ImmediateSize = 0, IsJump = False, IsTerminal = False\<rparr>
      else if op = op_DUP2 then \<lparr>Name = ''DUP2'', StackPop = 2, StackPush = 1, GasCost = 3, ImmediateSize = 0, IsJump = False, IsTerminal = False\<rparr>
      else if op = op_DUP4 then \<lparr>Name = ''DUP4'', StackPop = 4, StackPush = 1, GasCost = 3, ImmediateSize = 0, IsJump = False, IsTerminal = False\<rparr>
      else if op = op_SWAP1 then \<lparr>Name = ''SWAP1'', StackPop = 2, StackPush = 0, GasCost = 3, ImmediateSize = 0, IsJump = False, IsTerminal = False\<rparr>
      else if op = op_SWAP2 then \<lparr>Name = ''SWAP2'', StackPop = 3, StackPush = 0, GasCost = 3, ImmediateSize = 0, IsJump = False, IsTerminal = False\<rparr>
      else if op = op_SWAP3 then \<lparr>Name = ''SWAP3'', StackPop = 4, StackPush = 0, GasCost = 3, ImmediateSize = 0, IsJump = False, IsTerminal = False\<rparr>
      else if op = op_SWAP4 then \<lparr>Name = ''SWAP4'', StackPop = 5, StackPush = 0, GasCost = 3, ImmediateSize = 0, IsJump = False, IsTerminal = False\<rparr>
      else if op = op_SWAP5 then \<lparr>Name = ''SWAP5'', StackPop = 6, StackPush = 0, GasCost = 3, ImmediateSize = 0, IsJump = False, IsTerminal = False\<rparr>
      else if op = op_SWAP6 then \<lparr>Name = ''SWAP6'', StackPop = 7, StackPush = 0, GasCost = 3, ImmediateSize = 0, IsJump = False, IsTerminal = False\<rparr>
      else if op = op_SWAP7 then \<lparr>Name = ''SWAP7'', StackPop = 8, StackPush = 0, GasCost = 3, ImmediateSize = 0, IsJump = False, IsTerminal = False\<rparr>
      else if op = op_SWAP8 then \<lparr>Name = ''SWAP8'', StackPop = 9, StackPush = 0, GasCost = 3, ImmediateSize = 0, IsJump = False, IsTerminal = False\<rparr>
      else if op = op_SWAP9 then \<lparr>Name = ''SWAP9'', StackPop = 10, StackPush = 0, GasCost = 3, ImmediateSize = 0, IsJump = False, IsTerminal = False\<rparr>
      else if op = op_SWAP10 then \<lparr>Name = ''SWAP10'', StackPop = 11, StackPush = 0, GasCost = 3, ImmediateSize = 0, IsJump = False, IsTerminal = False\<rparr>
      else if op = op_SWAP11 then \<lparr>Name = ''SWAP11'', StackPop = 12, StackPush = 0, GasCost = 3, ImmediateSize = 0, IsJump = False, IsTerminal = False\<rparr>
      else if op = op_SWAP12 then \<lparr>Name = ''SWAP12'', StackPop = 13, StackPush = 0, GasCost = 3, ImmediateSize = 0, IsJump = False, IsTerminal = False\<rparr>
      else if op = op_SWAP13 then \<lparr>Name = ''SWAP13'', StackPop = 14, StackPush = 0, GasCost = 3, ImmediateSize = 0, IsJump = False, IsTerminal = False\<rparr>
      else if op = op_SWAP14 then \<lparr>Name = ''SWAP14'', StackPop = 15, StackPush = 0, GasCost = 3, ImmediateSize = 0, IsJump = False, IsTerminal = False\<rparr>
      else if op = op_SWAP15 then \<lparr>Name = ''SWAP15'', StackPop = 16, StackPush = 0, GasCost = 3, ImmediateSize = 0, IsJump = False, IsTerminal = False\<rparr>
      else if op = op_SWAP16 then \<lparr>Name = ''SWAP16'', StackPop = 17, StackPush = 0, GasCost = 3, ImmediateSize = 0, IsJump = False, IsTerminal = False\<rparr>
      else if op = op_DUP3 then \<lparr>Name = ''DUP3'', StackPop = 3, StackPush = 1, GasCost = 3, ImmediateSize = 0, IsJump = False, IsTerminal = False\<rparr>
      else if op = op_DUP5 then \<lparr>Name = ''DUP5'', StackPop = 5, StackPush = 1, GasCost = 3, ImmediateSize = 0, IsJump = False, IsTerminal = False\<rparr>
      else if op = op_DUP6 then \<lparr>Name = ''DUP6'', StackPop = 6, StackPush = 1, GasCost = 3, ImmediateSize = 0, IsJump = False, IsTerminal = False\<rparr>
      else if op = op_DUP7 then \<lparr>Name = ''DUP7'', StackPop = 7, StackPush = 1, GasCost = 3, ImmediateSize = 0, IsJump = False, IsTerminal = False\<rparr>
      else if op = op_DUP8 then \<lparr>Name = ''DUP8'', StackPop = 8, StackPush = 1, GasCost = 3, ImmediateSize = 0, IsJump = False, IsTerminal = False\<rparr>
      else if op = op_DUP9 then \<lparr>Name = ''DUP9'', StackPop = 9, StackPush = 1, GasCost = 3, ImmediateSize = 0, IsJump = False, IsTerminal = False\<rparr>
      else if op = op_DUP10 then \<lparr>Name = ''DUP10'', StackPop = 10, StackPush = 1, GasCost = 3, ImmediateSize = 0, IsJump = False, IsTerminal = False\<rparr>
      else if op = op_DUP11 then \<lparr>Name = ''DUP11'', StackPop = 11, StackPush = 1, GasCost = 3, ImmediateSize = 0, IsJump = False, IsTerminal = False\<rparr>
      else if op = op_DUP12 then \<lparr>Name = ''DUP12'', StackPop = 12, StackPush = 1, GasCost = 3, ImmediateSize = 0, IsJump = False, IsTerminal = False\<rparr>
      else if op = op_DUP13 then \<lparr>Name = ''DUP13'', StackPop = 13, StackPush = 1, GasCost = 3, ImmediateSize = 0, IsJump = False, IsTerminal = False\<rparr>
      else if op = op_DUP14 then \<lparr>Name = ''DUP14'', StackPop = 14, StackPush = 1, GasCost = 3, ImmediateSize = 0, IsJump = False, IsTerminal = False\<rparr>
      else if op = op_DUP15 then \<lparr>Name = ''DUP15'', StackPop = 15, StackPush = 1, GasCost = 3, ImmediateSize = 0, IsJump = False, IsTerminal = False\<rparr>
      else if op = op_DUP16 then \<lparr>Name = ''DUP16'', StackPop = 16, StackPush = 1, GasCost = 3, ImmediateSize = 0, IsJump = False, IsTerminal = False\<rparr>
      else if op = op_ADD then \<lparr>Name = ''ADD'', StackPop = 2, StackPush = 1, GasCost = 3, ImmediateSize = 0, IsJump = False, IsTerminal = False\<rparr>
      else if op = op_SUB then \<lparr>Name = ''SUB'', StackPop = 2, StackPush = 1, GasCost = 3, ImmediateSize = 0, IsJump = False, IsTerminal = False\<rparr>
      else if op = op_MUL then \<lparr>Name = ''MUL'', StackPop = 2, StackPush = 1, GasCost = 5, ImmediateSize = 0, IsJump = False, IsTerminal = False\<rparr>
      else if op = op_DIV then \<lparr>Name = ''DIV'', StackPop = 2, StackPush = 1, GasCost = 5, ImmediateSize = 0, IsJump = False, IsTerminal = False\<rparr>
      else if op = op_MOD then \<lparr>Name = ''MOD'', StackPop = 2, StackPush = 1, GasCost = 5, ImmediateSize = 0, IsJump = False, IsTerminal = False\<rparr>
      else if op = op_SDIV then \<lparr>Name = ''SDIV'', StackPop = 2, StackPush = 1, GasCost = 5, ImmediateSize = 0, IsJump = False, IsTerminal = False\<rparr>
      else if op = op_SMOD then \<lparr>Name = ''SMOD'', StackPop = 2, StackPush = 1, GasCost = 5, ImmediateSize = 0, IsJump = False, IsTerminal = False\<rparr>
      else if op = op_ADDMOD then \<lparr>Name = ''ADDMOD'', StackPop = 3, StackPush = 1, GasCost = 8, ImmediateSize = 0, IsJump = False, IsTerminal = False\<rparr>
      else if op = op_MULMOD then \<lparr>Name = ''MULMOD'', StackPop = 3, StackPush = 1, GasCost = 8, ImmediateSize = 0, IsJump = False, IsTerminal = False\<rparr>
      else if op = op_EXP then \<lparr>Name = ''EXP'', StackPop = 2, StackPush = 1, GasCost = 10, ImmediateSize = 0, IsJump = False, IsTerminal = False\<rparr>
      else if op = op_LT then \<lparr>Name = ''LT'', StackPop = 2, StackPush = 1, GasCost = 3, ImmediateSize = 0, IsJump = False, IsTerminal = False\<rparr>
      else if op = op_GT then \<lparr>Name = ''GT'', StackPop = 2, StackPush = 1, GasCost = 3, ImmediateSize = 0, IsJump = False, IsTerminal = False\<rparr>
      else if op = op_SLT then \<lparr>Name = ''SLT'', StackPop = 2, StackPush = 1, GasCost = 3, ImmediateSize = 0, IsJump = False, IsTerminal = False\<rparr>
      else if op = op_SGT then \<lparr>Name = ''SGT'', StackPop = 2, StackPush = 1, GasCost = 3, ImmediateSize = 0, IsJump = False, IsTerminal = False\<rparr>
      else if op = op_EQ then \<lparr>Name = ''EQ'', StackPop = 2, StackPush = 1, GasCost = 3, ImmediateSize = 0, IsJump = False, IsTerminal = False\<rparr>
      else if op = op_ISZERO then \<lparr>Name = ''ISZERO'', StackPop = 1, StackPush = 1, GasCost = 3, ImmediateSize = 0, IsJump = False, IsTerminal = False\<rparr>
      else if op = op_AND then \<lparr>Name = ''AND'', StackPop = 2, StackPush = 1, GasCost = 3, ImmediateSize = 0, IsJump = False, IsTerminal = False\<rparr>
      else if op = op_OR then \<lparr>Name = ''OR'', StackPop = 2, StackPush = 1, GasCost = 3, ImmediateSize = 0, IsJump = False, IsTerminal = False\<rparr>
      else if op = op_XOR then \<lparr>Name = ''XOR'', StackPop = 2, StackPush = 1, GasCost = 3, ImmediateSize = 0, IsJump = False, IsTerminal = False\<rparr>
      else if op = op_NOT then \<lparr>Name = ''NOT'', StackPop = 1, StackPush = 1, GasCost = 3, ImmediateSize = 0, IsJump = False, IsTerminal = False\<rparr>
      else if op = op_SHL then \<lparr>Name = ''SHL'', StackPop = 2, StackPush = 1, GasCost = 3, ImmediateSize = 0, IsJump = False, IsTerminal = False\<rparr>
      else if op = op_SHR then \<lparr>Name = ''SHR'', StackPop = 2, StackPush = 1, GasCost = 3, ImmediateSize = 0, IsJump = False, IsTerminal = False\<rparr>
      else if op = op_SAR then \<lparr>Name = ''SAR'', StackPop = 2, StackPush = 1, GasCost = 3, ImmediateSize = 0, IsJump = False, IsTerminal = False\<rparr>
      else if op = op_BYTE then \<lparr>Name = ''BYTE'', StackPop = 2, StackPush = 1, GasCost = 3, ImmediateSize = 0, IsJump = False, IsTerminal = False\<rparr>
      else if op = op_MLOAD then \<lparr>Name = ''MLOAD'', StackPop = 1, StackPush = 1, GasCost = 3, ImmediateSize = 0, IsJump = False, IsTerminal = False\<rparr>
      else if op = op_MSTORE then \<lparr>Name = ''MSTORE'', StackPop = 2, StackPush = 0, GasCost = 3, ImmediateSize = 0, IsJump = False, IsTerminal = False\<rparr>
      else if op = op_MSTORE8 then \<lparr>Name = ''MSTORE8'', StackPop = 2, StackPush = 0, GasCost = 3, ImmediateSize = 0, IsJump = False, IsTerminal = False\<rparr>
      else if op = op_MSIZE then \<lparr>Name = ''MSIZE'', StackPop = 0, StackPush = 1, GasCost = 2, ImmediateSize = 0, IsJump = False, IsTerminal = False\<rparr>
      else if op = op_MCOPY then \<lparr>Name = ''MCOPY'', StackPop = 3, StackPush = 0, GasCost = 3, ImmediateSize = 0, IsJump = False, IsTerminal = False\<rparr>
      else if op = op_SLOAD then \<lparr>Name = ''SLOAD'', StackPop = 1, StackPush = 1, GasCost = 100, ImmediateSize = 0, IsJump = False, IsTerminal = False\<rparr>
      else if op = op_SSTORE then \<lparr>Name = ''SSTORE'', StackPop = 2, StackPush = 0, GasCost = 100, ImmediateSize = 0, IsJump = False, IsTerminal = False\<rparr>
      else if op = op_TLOAD then \<lparr>Name = ''TLOAD'', StackPop = 1, StackPush = 1, GasCost = 100, ImmediateSize = 0, IsJump = False, IsTerminal = False\<rparr>
      else if op = op_TSTORE then \<lparr>Name = ''TSTORE'', StackPop = 2, StackPush = 0, GasCost = 100, ImmediateSize = 0, IsJump = False, IsTerminal = False\<rparr>
      else if op = op_ADDRESS then \<lparr>Name = ''ADDRESS'', StackPop = 0, StackPush = 1, GasCost = 2, ImmediateSize = 0, IsJump = False, IsTerminal = False\<rparr>
      else if op = op_BALANCE then \<lparr>Name = ''BALANCE'', StackPop = 1, StackPush = 1, GasCost = 100, ImmediateSize = 0, IsJump = False, IsTerminal = False\<rparr>
      else if op = op_ORIGIN then \<lparr>Name = ''ORIGIN'', StackPop = 0, StackPush = 1, GasCost = 2, ImmediateSize = 0, IsJump = False, IsTerminal = False\<rparr>
      else if op = op_CALLER then \<lparr>Name = ''CALLER'', StackPop = 0, StackPush = 1, GasCost = 2, ImmediateSize = 0, IsJump = False, IsTerminal = False\<rparr>
      else if op = op_CALLVALUE then \<lparr>Name = ''CALLVALUE'', StackPop = 0, StackPush = 1, GasCost = 2, ImmediateSize = 0, IsJump = False, IsTerminal = False\<rparr>
      else if op = op_CALLDATALOAD then \<lparr>Name = ''CALLDATALOAD'', StackPop = 1, StackPush = 1, GasCost = 3, ImmediateSize = 0, IsJump = False, IsTerminal = False\<rparr>
      else if op = op_CALLDATASIZE then \<lparr>Name = ''CALLDATASIZE'', StackPop = 0, StackPush = 1, GasCost = 2, ImmediateSize = 0, IsJump = False, IsTerminal = False\<rparr>
      else if op = op_CALLDATACOPY then \<lparr>Name = ''CALLDATACOPY'', StackPop = 3, StackPush = 0, GasCost = 3, ImmediateSize = 0, IsJump = False, IsTerminal = False\<rparr>
      else if op = op_CODESIZE then \<lparr>Name = ''CODESIZE'', StackPop = 0, StackPush = 1, GasCost = 2, ImmediateSize = 0, IsJump = False, IsTerminal = False\<rparr>
      else if op = op_CODECOPY then \<lparr>Name = ''CODECOPY'', StackPop = 3, StackPush = 0, GasCost = 3, ImmediateSize = 0, IsJump = False, IsTerminal = False\<rparr>
      else if op = op_GASPRICE then \<lparr>Name = ''GASPRICE'', StackPop = 0, StackPush = 1, GasCost = 2, ImmediateSize = 0, IsJump = False, IsTerminal = False\<rparr>
      else if op = op_GASLIMIT then \<lparr>Name = ''GASLIMIT'', StackPop = 0, StackPush = 1, GasCost = 2, ImmediateSize = 0, IsJump = False, IsTerminal = False\<rparr>
      else if op = op_GAS then \<lparr>Name = ''GAS'', StackPop = 0, StackPush = 1, GasCost = 2, ImmediateSize = 0, IsJump = False, IsTerminal = False\<rparr>
      else if op = op_BLOCKHASH then \<lparr>Name = ''BLOCKHASH'', StackPop = 1, StackPush = 1, GasCost = 20, ImmediateSize = 0, IsJump = False, IsTerminal = False\<rparr>
      else if op = op_COINBASE then \<lparr>Name = ''COINBASE'', StackPop = 0, StackPush = 1, GasCost = 2, ImmediateSize = 0, IsJump = False, IsTerminal = False\<rparr>
      else if op = op_TIMESTAMP then \<lparr>Name = ''TIMESTAMP'', StackPop = 0, StackPush = 1, GasCost = 2, ImmediateSize = 0, IsJump = False, IsTerminal = False\<rparr>
      else if op = op_NUMBER then \<lparr>Name = ''NUMBER'', StackPop = 0, StackPush = 1, GasCost = 2, ImmediateSize = 0, IsJump = False, IsTerminal = False\<rparr>
      else if op = op_CHAINID then \<lparr>Name = ''CHAINID'', StackPop = 0, StackPush = 1, GasCost = 2, ImmediateSize = 0, IsJump = False, IsTerminal = False\<rparr>
      else if op = op_SELFBALANCE then \<lparr>Name = ''SELFBALANCE'', StackPop = 0, StackPush = 1, GasCost = 5, ImmediateSize = 0, IsJump = False, IsTerminal = False\<rparr>
      else if op = op_EXTCODESIZE then \<lparr>Name = ''EXTCODESIZE'', StackPop = 1, StackPush = 1, GasCost = 100, ImmediateSize = 0, IsJump = False, IsTerminal = False\<rparr>
      else if op = op_EXTCODECOPY then \<lparr>Name = ''EXTCODECOPY'', StackPop = 4, StackPush = 0, GasCost = 3, ImmediateSize = 0, IsJump = False, IsTerminal = False\<rparr>
      else if op = op_EXTCODEHASH then \<lparr>Name = ''EXTCODEHASH'', StackPop = 1, StackPush = 1, GasCost = 100, ImmediateSize = 0, IsJump = False, IsTerminal = False\<rparr>
      else if op = op_PREVRANDAO then \<lparr>Name = ''PREVRANDAO'', StackPop = 0, StackPush = 1, GasCost = 2, ImmediateSize = 0, IsJump = False, IsTerminal = False\<rparr>
      else if op = op_BLOBHASH then \<lparr>Name = ''BLOBHASH'', StackPop = 1, StackPush = 1, GasCost = 2, ImmediateSize = 0, IsJump = False, IsTerminal = False\<rparr>
      else if op = op_BASEFEE then \<lparr>Name = ''BASEFEE'', StackPop = 0, StackPush = 1, GasCost = 2, ImmediateSize = 0, IsJump = False, IsTerminal = False\<rparr>
      else if op = op_BLOBBASEFEE then \<lparr>Name = ''BLOBBASEFEE'', StackPop = 0, StackPush = 1, GasCost = 2, ImmediateSize = 0, IsJump = False, IsTerminal = False\<rparr>
      else if op = op_SHA3 then \<lparr>Name = ''SHA3'', StackPop = 2, StackPush = 1, GasCost = 30, ImmediateSize = 0, IsJump = False, IsTerminal = False\<rparr>
      else if op = op_KECCAK256 then \<lparr>Name = ''KECCAK256'', StackPop = 2, StackPush = 1, GasCost = 30, ImmediateSize = 0, IsJump = False, IsTerminal = False\<rparr>
      else if op = op_RETURNDATASIZE then \<lparr>Name = ''RETURNDATASIZE'', StackPop = 0, StackPush = 1, GasCost = 2, ImmediateSize = 0, IsJump = False, IsTerminal = False\<rparr>
      else if op = op_RETURNDATACOPY then \<lparr>Name = ''RETURNDATACOPY'', StackPop = 3, StackPush = 0, GasCost = 3, ImmediateSize = 0, IsJump = False, IsTerminal = False\<rparr>
      else if op = op_KYBER_KEYGEN then \<lparr>Name = ''KYBER_KEYGEN'', StackPop = 0, StackPush = 2, GasCost = 50000, ImmediateSize = 0, IsJump = False, IsTerminal = False\<rparr>
      else if op = op_KYBER_ENCAPS then \<lparr>Name = ''KYBER_ENCAPS'', StackPop = 1, StackPush = 2, GasCost = 25000, ImmediateSize = 0, IsJump = False, IsTerminal = False\<rparr>
      else if op = op_KYBER_DECAPS then \<lparr>Name = ''KYBER_DECAPS'', StackPop = 2, StackPush = 1, GasCost = 25000, ImmediateSize = 0, IsJump = False, IsTerminal = False\<rparr>
      else if op = op_KYBER_ZERO_KEY then \<lparr>Name = ''KYBER_ZERO_KEY'', StackPop = 2, StackPush = 0, GasCost = 3, ImmediateSize = 0, IsJump = False, IsTerminal = False\<rparr>
      else if op = op_CALL then \<lparr>Name = ''CALL'', StackPop = 7, StackPush = 1, GasCost = 0, ImmediateSize = 0, IsJump = False, IsTerminal = False\<rparr>
      else if op = op_CALLCODE then \<lparr>Name = ''CALLCODE'', StackPop = 7, StackPush = 1, GasCost = 0, ImmediateSize = 0, IsJump = False, IsTerminal = False\<rparr>
      else if op = op_DELEGATECALL then \<lparr>Name = ''DELEGATECALL'', StackPop = 6, StackPush = 1, GasCost = 0, ImmediateSize = 0, IsJump = False, IsTerminal = False\<rparr>
      else if op = op_STATICCALL then \<lparr>Name = ''STATICCALL'', StackPop = 6, StackPush = 1, GasCost = 0, ImmediateSize = 0, IsJump = False, IsTerminal = False\<rparr>
      else if op = op_CREATE then \<lparr>Name = ''CREATE'', StackPop = 3, StackPush = 1, GasCost = 0, ImmediateSize = 0, IsJump = False, IsTerminal = False\<rparr>
      else if op = op_CREATE2 then \<lparr>Name = ''CREATE2'', StackPop = 4, StackPush = 1, GasCost = 0, ImmediateSize = 0, IsJump = False, IsTerminal = False\<rparr>
      else if op = op_AUTH then \<lparr>Name = ''AUTH'', StackPop = 3, StackPush = 1, GasCost = 0, ImmediateSize = 0, IsJump = False, IsTerminal = False\<rparr>
      else if op = op_AUTHCALL then \<lparr>Name = ''AUTHCALL'', StackPop = 7, StackPush = 1, GasCost = 0, ImmediateSize = 0, IsJump = False, IsTerminal = False\<rparr>
      else if op = op_LOG0 then \<lparr>Name = ''LOG0'', StackPop = 2, StackPush = 0, GasCost = 375, ImmediateSize = 0, IsJump = False, IsTerminal = False\<rparr>
      else if op = op_LOG1 then \<lparr>Name = ''LOG1'', StackPop = 3, StackPush = 0, GasCost = 375, ImmediateSize = 0, IsJump = False, IsTerminal = False\<rparr>
      else if op = op_LOG2 then \<lparr>Name = ''LOG2'', StackPop = 4, StackPush = 0, GasCost = 375, ImmediateSize = 0, IsJump = False, IsTerminal = False\<rparr>
      else if op = op_LOG3 then \<lparr>Name = ''LOG3'', StackPop = 5, StackPush = 0, GasCost = 375, ImmediateSize = 0, IsJump = False, IsTerminal = False\<rparr>
      else if op = op_LOG4 then \<lparr>Name = ''LOG4'', StackPop = 6, StackPush = 0, GasCost = 375, ImmediateSize = 0, IsJump = False, IsTerminal = False\<rparr>
      else if op = op_SELFDESTRUCT then \<lparr>Name = ''SELFDESTRUCT'', StackPop = 1, StackPush = 0, GasCost = 0, ImmediateSize = 0, IsJump = False, IsTerminal = True\<rparr>
      else emptyInfo)"

definition isDupOrSwap :: "OpCode \<Rightarrow> bool" where
  "isDupOrSwap op \<longleftrightarrow> op \<in> set
     [op_DUP1, op_DUP2, op_DUP3, op_DUP4, op_DUP5, op_DUP6, op_DUP7, op_DUP8,
      op_DUP9, op_DUP10, op_DUP11, op_DUP12, op_DUP13, op_DUP14, op_DUP15, op_DUP16,
      op_SWAP1, op_SWAP2, op_SWAP3, op_SWAP4, op_SWAP5, op_SWAP6, op_SWAP7, op_SWAP8,
      op_SWAP9, op_SWAP10, op_SWAP11, op_SWAP12, op_SWAP13, op_SWAP14, op_SWAP15, op_SWAP16]"

definition GetInfo :: "OpCode \<Rightarrow> OpCodeInfo \<times> bool" where
  "GetInfo op = (let info = opcodeInfoTable op in (info, Name info \<noteq> []))"

definition OpCode_String :: "OpCode \<Rightarrow> string" where
  "OpCode_String op = (let info = opcodeInfoTable op in if Name info \<noteq> [] then Name info else ''UNKNOWN'')"

definition IsValid :: "OpCode \<Rightarrow> bool" where
  "IsValid op = (Name (opcodeInfoTable op) \<noteq> [])"

definition IsPush :: "OpCode \<Rightarrow> bool" where
  "IsPush op =
     (if op \<ge> op_PUSH1 \<and> op \<le> op_PUSH32 then True
      else if op \<ge> op_PUSH3 \<and> op \<le> op_PUSH31 then True
      else False)"

definition PushSize :: "OpCode \<Rightarrow> nat" where
  "PushSize op = ImmediateSize (opcodeInfoTable op)"

section \<open>Checks over the table\<close>

text \<open>Each row is checked once; the default row is that of the unused bytes.\<close>

definition free_ops :: "OpCode list" where
  "free_ops = [op_STOP, op_RETURN, op_REVERT, op_INVALID, op_CALL, op_CALLCODE, op_DELEGATECALL, op_STATICCALL,
     op_CREATE, op_CREATE2, op_AUTH, op_AUTHCALL, op_SELFDESTRUCT]"

definition row_ok :: "OpCode \<Rightarrow> OpCodeInfo \<Rightarrow> bool" where
  "row_ok op i \<longleftrightarrow> (GasCost i = 0 \<longrightarrow> Name i = [] \<or> op \<in> set free_ops) \<and>
     (ImmediateSize i = 0 \<or> IsPush op) \<and> StackPush i \<le> 2 \<and> ImmediateSize i \<le> 32"

lemma row_ok_if: "row_ok c a \<Longrightarrow> row_ok op b \<Longrightarrow> row_ok op (if op = c then a else b)"
  by simp

lemma row_ok_table: "row_ok op (opcodeInfoTable op)"
  unfolding opcodeInfoTable_def
  apply (rule row_ok_if, simp add: row_ok_def free_ops_def IsPush_def)+
  apply (simp add: row_ok_def emptyInfo_def)
  done

lemma IsPush_set: "IsPush op \<Longrightarrow> op \<in> set (map of_nat ([16..<22] @ [176..<202]))"
proof -
  assume "IsPush op"
  then have "unat op \<in> {16..<22} \<union> {176..<202}"
    by (auto simp: IsPush_def word_le_nat_alt split: if_splits)
  then have "unat op \<in> set ([16..<22] @ [176..<202])" by (simp only: set_append set_upt)
  then have "(of_nat (unat op) :: OpCode) \<in> of_nat ` set ([16..<22] @ [176..<202])" by (rule imageI)
  then show ?thesis by (simp only: of_nat_unat ucast_id set_map)
qed

lemma push_rows:
  "list_all (\<lambda>op. 1 \<le> PushSize op \<and> PushSize op \<le> 32 \<and> IsValid op \<and> op \<noteq> op_JUMPDEST)
     (map of_nat ([16..<22] @ [176..<202]))"
  by (simp add: upt_rec PushSize_def IsValid_def opcodeInfoTable_def)

lemma IsPush_facts:
  assumes "IsPush op"
  shows "1 \<le> PushSize op" "PushSize op \<le> 32" "IsValid op" "op \<noteq> op_JUMPDEST"
  using push_rows IsPush_set [OF assms] by (auto simp only: list_all_iff)

lemma PushSize_not_push: "\<not> IsPush op \<Longrightarrow> PushSize op = 0"
  using row_ok_table [of op] by (simp add: row_ok_def PushSize_def)

lemma GasCost_free: "IsValid op \<Longrightarrow> GasCost (opcodeInfoTable op) = 0 \<Longrightarrow> op \<in> set free_ops"
  using row_ok_table [of op] by (simp add: row_ok_def IsValid_def)

lemma GetInfo_eq: "GetInfo op = (opcodeInfoTable op, IsValid op)"
  by (simp add: GetInfo_def IsValid_def Let_def)

end
