(* ===== verification/QVM_Code.thy ===== *)
theory QVM_Code
  imports QVM_Opcodes
begin

text \<open>
  Static treatment of bytecode: the jump-destination analysis and \<open>ValidateBytecode\<close> of
  \<open>src/qvm/qvm.go\<close>, the validator of \<open>src/qvm/validator.go\<close>, the EVM translator of
  \<open>src/qvm/evm_translate.go\<close> and the marker functions of \<open>src/qvm/executor.go\<close>. Each scan is
  the loop of the code; the lemmas relate all of them to one list, the instruction starts of
  the code (\<open>instrs\<close>).
\<close>

section \<open>Jump destinations\<close>

definition MaxCodeSize :: nat where "MaxCodeSize = 24576"
definition MaxInitCodeSize :: nat where "MaxInitCodeSize = 49152"

text \<open>The map of destinations is kept as the list of the positions marked true.\<close>

function jump_scan :: "byte list \<Rightarrow> nat \<Rightarrow> u64 list \<Rightarrow> u64 list" where
  "jump_scan code pc dests =
     (if pc < length code then
        let op = code ! pc;
            dests = (if op = op_JUMPDEST then dests @ [of_nat pc] else dests)
        in if IsPush op then
             let nextPC = pc + 1 + PushSize op in
             if nextPC > length code then dests else jump_scan code nextPC dests
           else jump_scan code (pc + 1) dests
      else dests)"
  by pat_completeness auto
termination by (relation "measure (\<lambda>(code, pc, _). length code - pc)") auto

definition jumpDestsOf :: "byte list \<Rightarrow> u64 list" where
  "jumpDestsOf code = jump_scan code 0 []"

text \<open>The analysis with its bounded cache: the cache as the list of its entries and the insertion
  order. The hash is SHA-256 of the code, a parameter.\<close>

definition maxJumpDestCacheSize :: nat where "maxJumpDestCacheSize = 4096"

record jdCache =
  jumpDestCache :: "(Hash \<times> u64 list) list"
  jumpDestOrder :: "Hash list"

definition analyzeJumpDests :: "(byte list \<Rightarrow> Hash) \<Rightarrow> byte list \<Rightarrow> jdCache \<Rightarrow> u64 list \<times> jdCache" where
  "analyzeJumpDests sha256 code c =
     (let codeHash = sha256 code in
      case map_of (jumpDestCache c) codeHash of
        Some cached \<Rightarrow> (cached, c)
      | None \<Rightarrow>
          let dests = jump_scan code 0 [];
              c = (if length (jumpDestCache c) \<ge> maxJumpDestCacheSize then
                     let evictCount = maxJumpDestCacheSize div 4;
                         evictCount = (if evictCount > length (jumpDestOrder c) then length (jumpDestOrder c) else evictCount);
                         toEvict = take evictCount (jumpDestOrder c)
                     in c\<lparr>jumpDestCache := filter (\<lambda>(h, _). h \<notin> set toEvict) (jumpDestCache c),
                          jumpDestOrder := drop evictCount (jumpDestOrder c)\<rparr>
                   else c)
          in (dests, c\<lparr>jumpDestCache := (codeHash, dests) # jumpDestCache c,
                       jumpDestOrder := jumpDestOrder c @ [codeHash]\<rparr>))"

section \<open>Validation\<close>

function validate_scan :: "bool \<Rightarrow> byte list \<Rightarrow> nat \<Rightarrow> unit res" where
  "validate_scan devnet code pc =
     (if pc < length code then
        let op = code ! pc in
        if \<not> IsValid op then (if \<not> devnet then Inl ErrInvalidBytecode else validate_scan devnet code (pc + 1))
        else if IsPush op then validate_scan devnet code (pc + (1 + PushSize op))
        else validate_scan devnet code (pc + 1)
      else Inr ())"
  by pat_completeness auto
termination by (relation "measure (\<lambda>(_, code, pc). length code - pc)") auto

definition ValidateBytecode :: "bool \<Rightarrow> byte list \<Rightarrow> unit res" where
  "ValidateBytecode devnet code =
     (if length code > MaxCodeSize then Inl ErrMaxCodeSizeExceeded else validate_scan devnet code 0)"

datatype vmsg =
    CodeSizeExceeds nat nat | UnknownOpcode | TruncatedPush nat nat | InitCodeSizeExceeds nat nat | StartsWithEF

record ValidationError =
  ve_Offset :: u64
  ve_OpCode :: OpCode
  ve_Message :: vmsg

record ValidationResult =
  vr_Valid :: bool
  vr_Errors :: "ValidationError list"
  vr_JumpDests :: "u64 list"
  vr_CodeSize :: nat
  vr_OpcodeCount :: nat

definition FirstError :: "ValidationResult \<Rightarrow> ValidationError option" where
  "FirstError r = (if vr_Valid r \<or> length (vr_Errors r) = 0 then None else Some (hd (vr_Errors r)))"

record BytecodeValidator =
  maxCodeSize :: nat
  allowUnknown :: bool
  strictMode :: bool

definition NewBytecodeValidator :: BytecodeValidator where
  "NewBytecodeValidator = \<lparr>maxCodeSize = MaxCodeSize, allowUnknown = True, strictMode = False\<rparr>"

definition WithMaxCodeSize :: "nat \<Rightarrow> BytecodeValidator \<Rightarrow> BytecodeValidator" where
  "WithMaxCodeSize sz v = v\<lparr>maxCodeSize := sz\<rparr>"

definition WithStrictMode :: "bool \<Rightarrow> BytecodeValidator \<Rightarrow> BytecodeValidator" where
  "WithStrictMode strict v = v\<lparr>strictMode := strict, allowUnknown := \<not> strict\<rparr>"

definition add_error :: "u64 \<Rightarrow> OpCode \<Rightarrow> vmsg \<Rightarrow> ValidationResult \<Rightarrow> ValidationResult" where
  "add_error off op msg r =
     r\<lparr>vr_Valid := False, vr_Errors := vr_Errors r @ [\<lparr>ve_Offset = off, ve_OpCode = op, ve_Message = msg\<rparr>]\<rparr>"

function validate_loop :: "bool \<Rightarrow> byte list \<Rightarrow> nat \<Rightarrow> ValidationResult \<Rightarrow> ValidationResult" where
  "validate_loop allow code pc r =
     (if pc < length code then
        let op = code ! pc;
            r = r\<lparr>vr_OpcodeCount := vr_OpcodeCount r + 1\<rparr>;
            (info, valid) = GetInfo op
        in if \<not> valid then
             validate_loop allow code (pc + 1) (if \<not> allow then add_error (of_nat pc) op UnknownOpcode r else r)
           else
             let r = (if op = op_JUMPDEST then r\<lparr>vr_JumpDests := vr_JumpDests r @ [of_nat pc]\<rparr> else r) in
             if IsPush op then
               let pushSize = ImmediateSize info;
                   r = (if pc + 1 + pushSize > length code
                        then add_error (of_nat pc) op (TruncatedPush pushSize (length code - pc - 1)) r else r)
               in validate_loop allow code (pc + (1 + pushSize)) r
             else validate_loop allow code (pc + 1) r
      else r)"
  by pat_completeness auto
termination by (relation "measure (\<lambda>(_, code, pc, _). length code - pc)") auto

text \<open>The second pass of strict mode only walks over the code and is left out of the result.\<close>

definition Validate :: "BytecodeValidator \<Rightarrow> byte list \<Rightarrow> ValidationResult" where
  "Validate v code =
     (let result = \<lparr>vr_Valid = True, vr_Errors = [], vr_JumpDests = [], vr_CodeSize = length code, vr_OpcodeCount = 0\<rparr>
      in if length code > maxCodeSize v then add_error 0 0 (CodeSizeExceeds (length code) (maxCodeSize v)) result
         else validate_loop (allowUnknown v) code 0 result)"

definition ValidateInitCode :: "BytecodeValidator \<Rightarrow> byte list \<Rightarrow> ValidationResult" where
  "ValidateInitCode v code =
     (let result = Validate v code
      in if length code > MaxInitCodeSize
         then add_error 0 0 (InitCodeSizeExceeds (length code) MaxInitCodeSize) result else result)"

definition ValidateDeployedCode :: "BytecodeValidator \<Rightarrow> byte list \<Rightarrow> ValidationResult" where
  "ValidateDeployedCode v code =
     (let result = Validate v code
      in if length code > 0 \<and> code ! 0 = 0xEF then add_error 0 0xEF StartsWithEF result else result)"

function quick_scan :: "byte list \<Rightarrow> nat \<Rightarrow> unit res" where
  "quick_scan code pc =
     (if pc < length code then
        let op = code ! pc in
        if IsPush op then
          let pushSize = PushSize op in
          if pc + 1 + pushSize > length code then Inl ErrInvalidPushData
          else quick_scan code (pc + (1 + pushSize))
        else if \<not> snd (GetInfo op) then Inl ErrUnknownOpcode
        else quick_scan code (pc + 1)
      else Inr ())"
  by pat_completeness auto
termination by (relation "measure (\<lambda>(code, pc). length code - pc)") auto

definition QuickValidate :: "BytecodeValidator \<Rightarrow> byte list \<Rightarrow> unit res" where
  "QuickValidate v code =
     (if length code > maxCodeSize v then Inl ErrCodeTooLarge
      else if length code > 0 \<and> code ! 0 = 0xEF then Inl ErrInvalidCodePrefix
      else quick_scan code 0)"

section \<open>Translation of EVM bytecode\<close>

definition evmToQVMOpcodeMap :: "(byte \<times> OpCode) list" where
  "evmToQVMOpcodeMap = [
     (0x01, op_ADD), (0x02, op_MUL), (0x03, op_SUB), (0x04, op_DIV), (0x05, op_SDIV),
     (0x06, op_MOD), (0x07, op_SMOD), (0x08, op_ADDMOD), (0x09, op_MULMOD), (0x0A, op_EXP),
     (0x0B, op_SIGNEXTEND), (0x10, op_LT), (0x11, op_GT), (0x12, op_SLT), (0x13, op_SGT),
     (0x14, op_EQ), (0x15, op_ISZERO), (0x16, op_AND), (0x17, op_OR), (0x18, op_XOR),
     (0x19, op_NOT), (0x1A, op_BYTE), (0x1B, op_SHL), (0x1C, op_SHR), (0x1D, op_SAR),
     (0x20, op_KECCAK256), (0x30, op_ADDRESS), (0x31, op_BALANCE), (0x32, op_ORIGIN),
     (0x33, op_CALLER), (0x34, op_CALLVALUE), (0x35, op_CALLDATALOAD), (0x36, op_CALLDATASIZE),
     (0x37, op_CALLDATACOPY), (0x38, op_CODESIZE), (0x39, op_CODECOPY), (0x3A, op_GASPRICE),
     (0x3B, op_EXTCODESIZE), (0x3C, op_EXTCODECOPY), (0x3D, op_RETURNDATASIZE),
     (0x3E, op_RETURNDATACOPY), (0x3F, op_EXTCODEHASH), (0x40, op_BLOCKHASH), (0x41, op_COINBASE),
     (0x42, op_TIMESTAMP), (0x43, op_NUMBER), (0x44, op_PREVRANDAO), (0x45, op_GASLIMIT),
     (0x46, op_CHAINID), (0x47, op_SELFBALANCE), (0x48, op_BASEFEE), (0x49, op_BLOBHASH),
     (0x4A, op_BLOBBASEFEE), (0x50, op_POP), (0x51, op_MLOAD), (0x52, op_MSTORE),
     (0x53, op_MSTORE8), (0x54, op_SLOAD), (0x55, op_SSTORE), (0x56, op_JUMP), (0x57, op_JUMPI),
     (0x58, op_PC), (0x59, op_MSIZE), (0x5A, op_GAS), (0x5B, op_JUMPDEST), (0x5F, op_PUSH0),
     (0x5E, op_MCOPY), (0x5C, op_TLOAD), (0x5D, op_TSTORE), (0x60, op_PUSH1), (0x61, op_PUSH2),
     (0x62, op_PUSH3), (0x63, op_PUSH4), (0x64, op_PUSH5), (0x65, op_PUSH6), (0x66, op_PUSH7),
     (0x67, op_PUSH8), (0x68, op_PUSH9), (0x69, op_PUSH10), (0x6A, op_PUSH11), (0x6B, op_PUSH12),
     (0x6C, op_PUSH13), (0x6D, op_PUSH14), (0x6E, op_PUSH15), (0x6F, op_PUSH16), (0x70, op_PUSH17),
     (0x71, op_PUSH18), (0x72, op_PUSH19), (0x73, op_PUSH20), (0x74, op_PUSH21), (0x75, op_PUSH22),
     (0x76, op_PUSH23), (0x77, op_PUSH24), (0x78, op_PUSH25), (0x79, op_PUSH26), (0x7A, op_PUSH27),
     (0x7B, op_PUSH28), (0x7C, op_PUSH29), (0x7D, op_PUSH30), (0x7E, op_PUSH31), (0x7F, op_PUSH32),
     (0x80, op_DUP1), (0x81, op_DUP2), (0x82, op_DUP3), (0x83, op_DUP4), (0x84, op_DUP5),
     (0x85, op_DUP6), (0x86, op_DUP7), (0x87, op_DUP8), (0x88, op_DUP9), (0x89, op_DUP10),
     (0x8A, op_DUP11), (0x8B, op_DUP12), (0x8C, op_DUP13), (0x8D, op_DUP14), (0x8E, op_DUP15),
     (0x8F, op_DUP16), (0x90, op_SWAP1), (0x91, op_SWAP2), (0x92, op_SWAP3), (0x93, op_SWAP4),
     (0x94, op_SWAP5), (0x95, op_SWAP6), (0x96, op_SWAP7), (0x97, op_SWAP8), (0x98, op_SWAP9),
     (0x99, op_SWAP10), (0x9A, op_SWAP11), (0x9B, op_SWAP12), (0x9C, op_SWAP13), (0x9D, op_SWAP14),
     (0x9E, op_SWAP15), (0x9F, op_SWAP16), (0xA0, op_LOG0), (0xA1, op_LOG1), (0xA2, op_LOG2),
     (0xA3, op_LOG3), (0xA4, op_LOG4), (0xF0, op_CREATE), (0xF1, op_CALL), (0xF2, op_CALLCODE),
     (0xF3, op_RETURN), (0xF4, op_DELEGATECALL), (0xF5, op_CREATE2), (0xFA, op_STATICCALL),
     (0xFD, op_REVERT), (0xFE, op_INVALID), (0xFF, op_SELFDESTRUCT), (0xF6, op_AUTH),
     (0xF7, op_AUTHCALL), (0x00, op_STOP)]"

definition qvmOps :: "OpCode list" where
  "qvmOps = [
     op_STOP, op_JUMP, op_JUMPI, op_JUMPDEST, op_PC, op_NOP, op_RETURN, op_REVERT, op_INVALID,
     op_PUSH0, op_PUSH1, op_PUSH2, op_PUSH3, op_PUSH4, op_PUSH5, op_PUSH6, op_PUSH7, op_PUSH8,
     op_PUSH9, op_PUSH10, op_PUSH11, op_PUSH12, op_PUSH13, op_PUSH14, op_PUSH15, op_PUSH16, op_ADD,
     op_MUL, op_SUB, op_DIV, op_SDIV, op_MOD, op_SMOD, op_ADDMOD, op_MULMOD, op_EXP, op_SIGNEXTEND,
     op_LT, op_GT, op_SLT, op_SGT, op_EQ, op_ISZERO, op_AND, op_OR, op_XOR, op_NOT, op_BYTE,
     op_SHL, op_SHR, op_SAR, op_KECCAK256, op_ADDRESS, op_BALANCE, op_ORIGIN, op_CALLER,
     op_CALLVALUE, op_CALLDATALOAD, op_CALLDATASIZE, op_CALLDATACOPY, op_CODESIZE, op_CODECOPY,
     op_GASPRICE, op_EXTCODESIZE, op_EXTCODECOPY, op_RETURNDATASIZE, op_RETURNDATACOPY,
     op_EXTCODEHASH, op_BLOCKHASH, op_COINBASE, op_TIMESTAMP, op_NUMBER, op_CHAINID,
     op_SELFBALANCE, op_PREVRANDAO, op_BASEFEE, op_BLOBBASEFEE, op_GASLIMIT, op_POP, op_MLOAD,
     op_MSTORE, op_MSTORE8, op_SLOAD, op_SSTORE, op_MSIZE, op_GAS, op_LOG0, op_LOG1, op_LOG2,
     op_LOG3, op_LOG4, op_CREATE, op_CALL, op_CALLCODE, op_DELEGATECALL, op_CREATE2, op_STATICCALL,
     op_SELFDESTRUCT, op_DUP1, op_DUP2, op_DUP3, op_DUP4, op_DUP5, op_DUP6, op_DUP7, op_DUP8,
     op_DUP9, op_DUP10, op_DUP11, op_DUP12, op_DUP13, op_DUP14, op_DUP15, op_DUP16, op_SWAP1,
     op_SWAP2, op_SWAP3, op_SWAP4, op_SWAP5, op_SWAP6, op_SWAP7, op_SWAP8, op_SWAP9, op_SWAP10,
     op_SWAP11, op_SWAP12, op_SWAP13, op_SWAP14, op_SWAP15, op_SWAP16, op_TLOAD, op_TSTORE,
     op_BLOBHASH, op_MCOPY]"

definition IsEVMBytecode :: "byte list \<Rightarrow> bool" where
  "IsEVMBytecode code =
     (if length code = 0 then False
      else if length code \<ge> 5 \<and> code ! 0 = 0x60 \<and> code ! 1 = 0x80 \<and> code ! 2 = 0x60 \<and> code ! 3 = 0x40 \<and> code ! 4 = 0x52
      then True
      else if length code \<ge> 1 \<and> code ! 0 = 0x5F then True
      else let first = code ! 0 in
        if first \<in> set qvmOps then False
        else if first \<ge> 0x60 \<and> first \<le> 0x7F then True
        else if first \<ge> 0x80 \<and> first \<le> 0x9F then True
        else if first \<ge> 0xA0 \<and> first \<le> 0xA4 then True
        else False)"

definition EVMTranslatedMarker :: "byte list" where
  "EVMTranslatedMarker = [0xfa, 0xe5, 0xfe, 0x91, 0x4d, 0xe6, 0xe0, 0xe1]"

function translate_loop :: "byte list \<Rightarrow> nat \<Rightarrow> byte list \<Rightarrow> byte list res" where
  "translate_loop evmCode i qvmCode =
     (if i < length evmCode then
        let evmOp = evmCode ! i in
        if evmOp \<ge> 0x60 \<and> evmOp \<le> 0x7F then
          let pushSize = unat (evmOp - 0x60 + 1) in
          (case map_of evmToQVMOpcodeMap evmOp of
             None \<Rightarrow> Inl (Errorf ''evm_translate: unknown PUSH opcode'')
           | Some qvmOp \<Rightarrow>
               let end' = (if i + 1 + pushSize > length evmCode then length evmCode else i + 1 + pushSize);
                   actualSize = end' - i - 1
               in translate_loop evmCode end'
                    (qvmCode @ [qvmOp] @ slice evmCode (i + 1) end' @ replicate (pushSize - actualSize) 0))
        else (case map_of evmToQVMOpcodeMap evmOp of
                Some qvmOp \<Rightarrow> translate_loop evmCode (i + 1) (qvmCode @ [qvmOp])
              | None \<Rightarrow> Inl (Errorf ''evm_translate: unknown opcode''))
      else Inr qvmCode)"
  by pat_completeness auto
termination by (relation "measure (\<lambda>(code, i, _). length code - i)") (auto split: if_splits)

definition TranslateEVMBytecode :: "byte list \<Rightarrow> byte list res" where
  "TranslateEVMBytecode evmCode = translate_loop evmCode 0 EVMTranslatedMarker"

definition TranslateEVMBytecodeWithLog :: "byte list \<Rightarrow> byte list res" where
  "TranslateEVMBytecodeWithLog evmCode =
     (if \<not> IsEVMBytecode evmCode then Inr evmCode
      else case TranslateEVMBytecode evmCode of
        Inl _ \<Rightarrow> Inl (Errorf ''EVM to QVM bytecode translation failed'') | Inr translated \<Rightarrow> Inr translated)"

definition isEVMTranslatedCode :: "byte list \<Rightarrow> bool" where
  "isEVMTranslatedCode code =
     (if length code \<ge> length EVMTranslatedMarker \<and> take (length EVMTranslatedMarker) code = EVMTranslatedMarker then True
      else if length code \<ge> 8 \<and> code ! 0 = 0x10 \<and> code ! 1 = 0x80 \<and> code ! 2 = 0x10 \<and> code ! 3 = 0x40 \<and> code ! 4 = 0x51
        \<and> code ! 5 = 0x74 \<and> code ! 6 = 0x17 \<and> code ! 7 = 0x35 then True
      else False)"

definition StripEVMTranslatedMarkerFromRuntimeCode :: "byte list \<Rightarrow> byte list" where
  "StripEVMTranslatedMarkerFromRuntimeCode code =
     (if length code \<ge> length EVMTranslatedMarker \<and> take (length EVMTranslatedMarker) code = EVMTranslatedMarker
      then drop (length EVMTranslatedMarker) code else code)"

declare jump_scan.simps [simp del] validate_scan.simps [simp del] validate_loop.simps [simp del]
  quick_scan.simps [simp del] translate_loop.simps [simp del]

section \<open>Instruction starts\<close>

function instrs :: "byte list \<Rightarrow> nat \<Rightarrow> nat list" where
  "instrs code pc = (if pc < length code then pc # instrs code (pc + 1 + PushSize (code ! pc)) else [])"
  by pat_completeness auto
termination by (relation "measure (\<lambda>(code, pc). length code - pc)") auto

declare instrs.simps [simp del]

definition instr_start :: "byte list \<Rightarrow> nat \<Rightarrow> bool" where
  "instr_start code p \<longleftrightarrow> p \<in> set (instrs code 0)"

lemma instrs_Nil [simp]: "length code \<le> pc \<Longrightarrow> instrs code pc = []"
  by (simp add: instrs.simps)

lemma instrs_Cons: "pc < length code \<Longrightarrow> instrs code pc = pc # instrs code (pc + 1 + PushSize (code ! pc))"
  by (simp add: instrs.simps)

lemma instrs_bounds: "p \<in> set (instrs code pc) \<Longrightarrow> pc \<le> p \<and> p < length code"
proof (induction code pc rule: instrs.induct)
  case (1 code pc)
  then show ?case by (cases "pc < length code") (auto simp: instrs_Cons)
qed

lemma instrs_next:
  assumes "p \<in> set (instrs code pc)" and "p + 1 + PushSize (code ! p) < length code"
  shows "p + 1 + PushSize (code ! p) \<in> set (instrs code pc)"
  using assms
proof (induction code pc rule: instrs.induct)
  case (1 code pc)
  show ?case
  proof (cases "pc < length code")
    case True
    then show ?thesis using 1 by (cases "p = pc") (auto simp: instrs_Cons)
  qed (use 1 in simp)
qed

lemma instrs_gap:
  assumes "p \<in> set (instrs code pc)" and "q \<in> set (instrs code pc)" and "p < q"
  shows "p + 1 + PushSize (code ! p) \<le> q"
  using assms
proof (induction code pc rule: instrs.induct)
  case (1 code pc)
  show ?case
  proof (cases "pc < length code")
    case True
    let ?n = "pc + 1 + PushSize (code ! pc)"
    have q: "q \<in> set (instrs code ?n)" using 1(3,4) 1(2) instrs_bounds [of p code pc] instrs_bounds [of p code ?n] True
      by (auto simp: instrs_Cons)
    show ?thesis
    proof (cases "p = pc")
      case True
      then show ?thesis using instrs_bounds [OF q] by simp
    next
      case False
      then show ?thesis using 1 True q by (auto simp: instrs_Cons)
    qed
  qed (use 1 in simp)
qed

lemma instr_start_0: "code \<noteq> [] \<Longrightarrow> instr_start code 0"
  by (simp add: instr_start_def instrs_Cons)

lemma instr_start_next:
  "instr_start code p \<Longrightarrow> p + 1 + PushSize (code ! p) < length code \<Longrightarrow> instr_start code (p + 1 + PushSize (code ! p))"
  by (simp only: instr_start_def instrs_next)

section \<open>What the scans compute\<close>

lemma jump_scan_spec:
  "jump_scan code pc d = d @ map of_nat (filter (\<lambda>p. code ! p = op_JUMPDEST) (instrs code pc))"
proof (induction code pc d rule: jump_scan.induct)
  case (1 code pc d)
  show ?case
  proof (cases "pc < length code")
    case True
    show ?thesis
    proof (cases "IsPush (code ! pc)")
      case push: True
      show ?thesis
      proof (cases "pc + 1 + PushSize (code ! pc) > length code")
        case True
        then show ?thesis using \<open>pc < length code\<close> push IsPush_facts(4) [OF push]
          by (subst jump_scan.simps) (simp add: instrs_Cons Let_def)
      next
        case False
        then show ?thesis using 1(1) [OF \<open>pc < length code\<close> refl refl push refl] \<open>pc < length code\<close> push IsPush_facts(4) [OF push]
          by (subst jump_scan.simps) (simp add: instrs_Cons Let_def)
      qed
    next
      case False
      then show ?thesis using 1(2) [OF True refl refl False] True
        by (subst jump_scan.simps) (simp add: instrs_Cons Let_def PushSize_not_push)
    qed
  qed (simp add: jump_scan.simps)
qed

lemma jumpDestsOf_iff:
  assumes "length code < 18446744073709551616"
  shows "d \<in> set (jumpDestsOf code) \<longleftrightarrow> instr_start code (unat d) \<and> code ! unat d = op_JUMPDEST"
proof
  assume "d \<in> set (jumpDestsOf code)"
  then obtain p where p: "d = of_nat p" "p \<in> set (instrs code 0)" "code ! p = op_JUMPDEST"
    by (auto simp: jumpDestsOf_def jump_scan_spec)
  moreover have "unat (of_nat p :: u64) = p"
    using assms instrs_bounds [OF p(2)] by (simp add: unat_of_nat)
  ultimately show "instr_start code (unat d) \<and> code ! unat d = op_JUMPDEST" by (simp add: instr_start_def)
next
  assume "instr_start code (unat d) \<and> code ! unat d = op_JUMPDEST"
  then have "of_nat (unat d) \<in> set (jumpDestsOf code)"
    unfolding jumpDestsOf_def jump_scan_spec instr_start_def by (simp del: of_nat_unat)
  then show "d \<in> set (jumpDestsOf code)" by simp
qed

lemma validate_scan_spec:
  "validate_scan devnet code pc =
     (if devnet \<or> list_all (\<lambda>p. IsValid (code ! p)) (instrs code pc) then Inr () else Inl ErrInvalidBytecode)"
proof (induction devnet code pc rule: validate_scan.induct)
  case (1 devnet code pc)
  show ?case
  proof (cases "pc < length code")
    case True
    consider "\<not> IsValid (code ! pc)" | "IsValid (code ! pc)" "IsPush (code ! pc)" | "IsValid (code ! pc)" "\<not> IsPush (code ! pc)"
      by blast
    then show ?thesis
    proof cases
      case 1
      then have "\<not> IsPush (code ! pc)" using IsPush_facts(3) by blast
      with 1 "1.IH"(1) [OF True refl] True show ?thesis
        by (subst validate_scan.simps) (auto simp: instrs_Cons Let_def PushSize_not_push)
    next
      case 2
      then show ?thesis using "1.IH"(2) [OF True refl] True
        by (subst validate_scan.simps) (simp add: instrs_Cons Let_def)
    next
      case 3
      then show ?thesis using "1.IH"(3) [OF True refl] True
        by (subst validate_scan.simps) (simp add: instrs_Cons Let_def PushSize_not_push)
    qed
  qed (simp add: validate_scan.simps)
qed

definition whole_instr :: "byte list \<Rightarrow> nat \<Rightarrow> bool" where
  "whole_instr code p \<longleftrightarrow> IsValid (code ! p) \<and> p + 1 + PushSize (code ! p) \<le> length code"

lemma quick_scan_spec:
  "(quick_scan code pc = Inr ()) = list_all (whole_instr code) (instrs code pc)"
proof (induction code pc rule: quick_scan.induct)
  case (1 code pc)
  show ?case
  proof (cases "pc < length code")
    case True
    show ?thesis
    proof (cases "IsPush (code ! pc)")
      case push: True
      then show ?thesis using "1"(1) [OF True refl push refl] True IsPush_facts(3) [OF push]
        by (subst quick_scan.simps) (simp add: instrs_Cons Let_def whole_instr_def [of code pc])
    next
      case False
      then show ?thesis using "1"(2) [OF True refl False] True
        by (subst quick_scan.simps) (simp add: instrs_Cons Let_def PushSize_not_push whole_instr_def [of code pc] GetInfo_eq)
    qed
  qed (simp add: quick_scan.simps)
qed

definition loop_ok :: "bool \<Rightarrow> byte list \<Rightarrow> nat \<Rightarrow> bool" where
  "loop_ok allow code p \<longleftrightarrow> (allow \<or> IsValid (code ! p)) \<and> p + 1 + PushSize (code ! p) \<le> length code"

lemma loop_ok_no_push: "p < length code \<Longrightarrow> \<not> IsPush (code ! p) \<Longrightarrow> loop_ok allow code p \<longleftrightarrow> allow \<or> IsValid (code ! p)"
  by (simp add: loop_ok_def PushSize_not_push)

lemma add_error_simps [simp]:
  "vr_Valid (add_error off op msg r) = False" "vr_JumpDests (add_error off op msg r) = vr_JumpDests r"
  "vr_OpcodeCount (add_error off op msg r) = vr_OpcodeCount r" "vr_CodeSize (add_error off op msg r) = vr_CodeSize r"
  by (simp_all add: add_error_def)

lemma validate_loop_step:
  assumes "pc < length code"
  shows "\<exists>r'. validate_loop allow code pc r = validate_loop allow code (pc + 1 + PushSize (code ! pc)) r' \<and>
    vr_Valid r' = (vr_Valid r \<and> loop_ok allow code pc) \<and> vr_OpcodeCount r' = vr_OpcodeCount r + 1 \<and>
    vr_JumpDests r' = vr_JumpDests r @ (if code ! pc = op_JUMPDEST then [of_nat pc] else [])"
proof -
  have jd: "IsValid op_JUMPDEST" by (simp add: IsValid_def opcodeInfoTable_def)
  consider "\<not> IsValid (code ! pc)" | "IsValid (code ! pc)" "IsPush (code ! pc)" | "IsValid (code ! pc)" "\<not> IsPush (code ! pc)"
    by blast
  then show ?thesis
  proof cases
    case 1
    then have np: "\<not> IsPush (code ! pc)" "code ! pc \<noteq> op_JUMPDEST" using IsPush_facts(3) jd by auto
    show ?thesis
      by (subst validate_loop.simps)
        (use assms 1 np in \<open>auto simp: GetInfo_eq Let_def PushSize_not_push loop_ok_no_push\<close>)
  next
    case 2
    then show ?thesis
      by (subst validate_loop.simps)
        (use assms 2 IsPush_facts(4) [OF 2(2)] in \<open>auto simp: GetInfo_eq Let_def PushSize_def [symmetric] loop_ok_def\<close>)
  next
    case 3
    then show ?thesis
      by (subst validate_loop.simps)
        (use assms 3 in \<open>auto simp: GetInfo_eq Let_def PushSize_not_push loop_ok_no_push\<close>)
  qed
qed

lemma validate_loop_spec:
  "vr_Valid (validate_loop allow code pc r) = (vr_Valid r \<and> list_all (loop_ok allow code) (instrs code pc)) \<and>
   vr_JumpDests (validate_loop allow code pc r) = jump_scan code pc (vr_JumpDests r) \<and>
   vr_OpcodeCount (validate_loop allow code pc r) = vr_OpcodeCount r + length (instrs code pc)"
proof (induction code pc arbitrary: r rule: instrs.induct)
  case (1 code pc)
  show ?case
  proof (cases "pc < length code")
    case True
    obtain r' where r': "validate_loop allow code pc r = validate_loop allow code (pc + 1 + PushSize (code ! pc)) r'"
      "vr_Valid r' = (vr_Valid r \<and> loop_ok allow code pc)" "vr_OpcodeCount r' = vr_OpcodeCount r + 1"
      "vr_JumpDests r' = vr_JumpDests r @ (if code ! pc = op_JUMPDEST then [of_nat pc] else [])"
      using validate_loop_step [OF True] by blast
    show ?thesis using 1 [OF True, of r'] r' True by (simp add: instrs_Cons jump_scan_spec)
  qed (simp add: validate_loop.simps jump_scan_spec)
qed

section \<open>What the translation does\<close>

text \<open>The translation of one instruction of EVM code and of the whole code, without the marker.\<close>

definition evm_push :: "byte \<Rightarrow> nat" where
  "evm_push b = (if b \<ge> 0x60 \<and> b \<le> 0x7F then unat (b - 0x60 + 1) else 0)"

function evm_instrs :: "byte list \<Rightarrow> nat \<Rightarrow> nat list" where
  "evm_instrs code i = (if i < length code then i # evm_instrs code (i + 1 + evm_push (code ! i)) else [])"
  by pat_completeness auto
termination by (relation "measure (\<lambda>(code, pc). length code - pc)") auto

declare evm_instrs.simps [simp del]

lemma evm_instrs_Nil [simp]: "length code \<le> i \<Longrightarrow> evm_instrs code i = []"
  by (simp add: evm_instrs.simps)

lemma evm_instrs_Cons: "i < length code \<Longrightarrow> evm_instrs code i = i # evm_instrs code (i + 1 + evm_push (code ! i))"
  by (simp add: evm_instrs.simps)

lemma evm_instrs_ge: "p \<in> set (evm_instrs code i) \<Longrightarrow> i \<le> p \<and> p < length code"
proof (induction code i rule: evm_instrs.induct)
  case (1 code i)
  then show ?case by (cases "i < length code") (auto simp: evm_instrs_Cons)
qed

lemma evm_map_rows:
  "list_all (\<lambda>(e, q). (if IsPush q then PushSize q = evm_push e else evm_push e = 0) \<and> (q = op_JUMPDEST \<longleftrightarrow> e = 0x5B))
     evmToQVMOpcodeMap"
  by (simp add: evmToQVMOpcodeMap_def evm_push_def IsPush_def PushSize_def opcodeInfoTable_def word_le_nat_alt)

lemma evm_map_facts:
  assumes "map_of evmToQVMOpcodeMap e = Some q"
  shows "PushSize q = evm_push e" "q = op_JUMPDEST \<longleftrightarrow> e = 0x5B"
proof -
  have "(e, q) \<in> set evmToQVMOpcodeMap" using assms by (rule map_of_SomeD)
  with evm_map_rows show "PushSize q = evm_push e" "q = op_JUMPDEST \<longleftrightarrow> e = 0x5B"
    by (auto simp: list_all_iff PushSize_not_push split: if_splits)
qed

text \<open>At an instruction start of the EVM code the translation has the mapped opcode, and its push
  data is the same, padded with zeros where the EVM code ends.\<close>

definition tr_match :: "byte list \<Rightarrow> byte list \<Rightarrow> nat \<Rightarrow> bool" where
  "tr_match code Q p \<longleftrightarrow> p < length Q \<and> map_of evmToQVMOpcodeMap (code ! p) = Some (Q ! p) \<and>
     (\<forall>k. p < k \<and> k \<le> p + evm_push (code ! p) \<longrightarrow> k < length Q \<and> Q ! k = (if k < length code then code ! k else 0))"

definition push_data :: "byte list \<Rightarrow> nat \<Rightarrow> byte list" where
  "push_data code i = map (\<lambda>k. if k < length code then code ! k else 0) [i + 1..<i + 1 + evm_push (code ! i)]"

lemma push_data_padding:
  assumes "i < length code" and "n = evm_push (code ! i)"
    and "e = (if i + 1 + n > length code then length code else i + 1 + n)"
  shows "slice code (i + 1) e @ replicate (n - (e - i - 1)) 0 = push_data code i"
  using assms by (intro nth_equalityI) (auto simp: push_data_def slice_def nth_append simp del: upt_Suc)

lemma translate_step:
  assumes "i < length code"
  shows "translate_loop code i acc =
    (case map_of evmToQVMOpcodeMap (code ! i) of
       None \<Rightarrow> Inl (Errorf (if 0x60 \<le> code ! i \<and> code ! i \<le> 0x7F then ''evm_translate: unknown PUSH opcode'' else ''evm_translate: unknown opcode''))
     | Some q \<Rightarrow> translate_loop code (min (length code) (i + 1 + evm_push (code ! i))) (acc @ [q] @ push_data code i))"
proof (cases "0x60 \<le> code ! i \<and> code ! i \<le> 0x7F")
  case True
  then have n: "evm_push (code ! i) = unat (code ! i - 0x60 + 1)" by (simp add: evm_push_def)
  define e where "e = (if i + 1 + evm_push (code ! i) > length code then length code else i + 1 + evm_push (code ! i))"
  have e: "e = min (length code) (i + 1 + evm_push (code ! i))" by (simp add: e_def min_def)
  have "translate_loop code i acc =
    (case map_of evmToQVMOpcodeMap (code ! i) of
       None \<Rightarrow> Inl (Errorf ''evm_translate: unknown PUSH opcode'')
     | Some q \<Rightarrow> translate_loop code e
         (acc @ [q] @ slice code (i + 1) e @ replicate (evm_push (code ! i) - (e - i - 1)) 0))"
    using assms True unfolding translate_loop.simps [of code i acc] Let_def n [symmetric] e_def [symmetric] by simp
  then show ?thesis
    using True unfolding push_data_padding [OF assms refl e_def] e [symmetric] by simp
next
  case False
  then have "evm_push (code ! i) = 0" by (auto simp: evm_push_def)
  with assms False show ?thesis
    by (subst translate_loop.simps) (auto simp: Let_def push_data_def split: option.split simp del: upt_Suc)
qed

lemma translate_spec:
  assumes "translate_loop code i (m @ acc) = Inr q" and "i < length code \<Longrightarrow> length acc = i"
  shows "\<exists>Q. q = m @ Q \<and> length acc \<le> length Q \<and> take (length acc) Q = acc \<and>
    instrs Q (length acc) = evm_instrs code i \<and> (\<forall>p\<in>set (evm_instrs code i). tr_match code Q p)"
  using assms
proof (induction code i arbitrary: acc rule: evm_instrs.induct)
  case (1 code i)
  show ?case
  proof (cases "i < length code")
    case False
    then show ?thesis using 1(2) by (intro exI [of _ acc]) (simp add: translate_loop.simps)
  next
    case True
    let ?n = "evm_push (code ! i)" and ?D = "push_data code i"
    from 1(2) obtain op where op: "map_of evmToQVMOpcodeMap (code ! i) = Some op"
      and tr: "translate_loop code (min (length code) (i + 1 + ?n)) (m @ (acc @ [op] @ ?D)) = Inr q"
      unfolding translate_step [OF True] by (auto split: option.splits)
    have len: "length acc = i" using 1(3) True by simp
    have lenD: "length ?D = ?n" by (simp add: push_data_def)
    have "\<exists>Q. q = m @ Q \<and> i + 1 + ?n \<le> length Q \<and> take (i + 1 + ?n) Q = acc @ [op] @ ?D \<and>
        instrs Q (i + 1 + ?n) = evm_instrs code (i + 1 + ?n) \<and> (\<forall>p\<in>set (evm_instrs code (i + 1 + ?n)). tr_match code Q p)"
    proof (cases "i + 1 + ?n < length code")
      case le: True
      show ?thesis using 1(1) [OF True, of "acc @ [op] @ ?D"] tr le len lenD by (simp add: min_def)
    next
      case False
      then have "q = m @ (acc @ [op] @ ?D)" using tr by (simp add: translate_loop.simps min_def)
      then show ?thesis using False len lenD by (intro exI [of _ "acc @ [op] @ ?D"]) simp
    qed
    then obtain Q where Q: "q = m @ Q" "i + 1 + ?n \<le> length Q" "take (i + 1 + ?n) Q = acc @ [op] @ ?D"
      "instrs Q (i + 1 + ?n) = evm_instrs code (i + 1 + ?n)" "\<forall>p\<in>set (evm_instrs code (i + 1 + ?n)). tr_match code Q p"
      by blast
    have at: "Q ! k = (acc @ [op] @ ?D) ! k" if "k < i + 1 + ?n" for k
      using that Q(3) by (metis nth_take)
    have Qi: "Q ! i = op" using at [of i] len by (simp add: nth_append)
    have data: "Q ! k = (if k < length code then code ! k else 0)" if "i < k" "k \<le> i + ?n" for k
      using at [of k] that len by (simp add: nth_append push_data_def nth_Cons' del: upt_Suc)
    have "tr_match code Q i" using Q(2) op Qi data by (auto simp: tr_match_def)
    moreover have "instrs Q i = evm_instrs code i"
      using Q True evm_map_facts(1) [OF op] Qi by (simp add: evm_instrs_Cons instrs_Cons)
    moreover have "take i Q = acc" using Q(3) len by (metis append_eq_conv_conj take_take min.absorb1 le_add1 add.assoc)
    ultimately show ?thesis using Q True len by (intro exI [of _ Q]) (simp add: evm_instrs_Cons)
  qed
qed

section \<open>The cache of the jump analysis\<close>

text \<open>The cache holds analyses of codes under their hashes, in the order of insertion.\<close>

definition cache_ok :: "(byte list \<Rightarrow> Hash) \<Rightarrow> jdCache \<Rightarrow> bool" where
  "cache_ok sha256 c \<longleftrightarrow>
     map fst (jumpDestCache c) = rev (jumpDestOrder c) \<and> distinct (jumpDestOrder c) \<and>
     length (jumpDestOrder c) \<le> maxJumpDestCacheSize \<and>
     (\<forall>(h, d) \<in> set (jumpDestCache c). \<exists>code. h = sha256 code \<and> d = jumpDestsOf code)"

lemma map_fst_filter: "map fst (filter (\<lambda>(h, d). P h) xs) = filter P (map fst xs)"
  by (induction xs) auto

lemma cache_evict:
  assumes "cache_ok sha256 c" and "n \<le> length (jumpDestOrder c)"
  shows "cache_ok sha256 (c\<lparr>jumpDestCache := filter (\<lambda>(h, _). h \<notin> set (take n (jumpDestOrder c))) (jumpDestCache c),
                            jumpDestOrder := drop n (jumpDestOrder c)\<rparr>)"
proof -
  let ?o = "jumpDestOrder c"
  have "map fst (filter (\<lambda>(h, _). h \<notin> set (take n ?o)) (jumpDestCache c)) = filter (\<lambda>h. h \<notin> set (take n ?o)) (rev ?o)"
    using assms(1) by (simp add: map_fst_filter cache_ok_def)
  also have "\<dots> = rev (filter (\<lambda>h. h \<notin> set (take n ?o)) (take n ?o @ drop n ?o))"
    by (simp add: rev_filter)
  also have "\<dots> = rev (drop n ?o)"
  proof -
    have "set (take n ?o) \<inter> set (drop n ?o) = {}" using assms(1) by (simp add: cache_ok_def set_take_disj_set_drop_if_distinct)
    then have "filter (\<lambda>h. h \<notin> set (take n ?o)) (drop n ?o) = drop n ?o" by (auto intro: filter_True)
    then show ?thesis by (simp add: filter_empty_conv del: append_take_drop_id)
  qed
  finally show ?thesis using assms(1) by (auto simp: cache_ok_def)
qed

lemma cache_insert:
  assumes "cache_ok sha256 c" and "sha256 code \<notin> set (jumpDestOrder c)" and "length (jumpDestOrder c) < maxJumpDestCacheSize"
  shows "cache_ok sha256 (c\<lparr>jumpDestCache := (sha256 code, jumpDestsOf code) # jumpDestCache c,
                            jumpDestOrder := jumpDestOrder c @ [sha256 code]\<rparr>)"
  using assms by (auto simp: cache_ok_def)

lemma analyze_cached:
  assumes ok: "cache_ok sha256 c" and nocoll: "\<And>code'. sha256 code' = sha256 code \<Longrightarrow> code' = code"
  shows "fst (analyzeJumpDests sha256 code c) = jumpDestsOf code \<and> cache_ok sha256 (snd (analyzeJumpDests sha256 code c))"
proof (cases "map_of (jumpDestCache c) (sha256 code)")
  case (Some d)
  then have "(sha256 code, d) \<in> set (jumpDestCache c)" by (rule map_of_SomeD)
  with ok nocoll have "d = jumpDestsOf code" by (fastforce simp: cache_ok_def)
  with Some ok show ?thesis by (simp add: analyzeJumpDests_def)
next
  case None
  have new: "sha256 code \<notin> set (jumpDestOrder c)"
  proof -
    have "set (map fst (jumpDestCache c)) = set (rev (jumpDestOrder c))" using ok by (simp only: cache_ok_def)
    then show ?thesis using None by (simp add: map_of_eq_None_iff)
  qed
  have "length (map fst (jumpDestCache c)) = length (rev (jumpDestOrder c))" using ok by (simp only: cache_ok_def)
  then have len: "length (jumpDestCache c) = length (jumpDestOrder c)" by simp
  show ?thesis
  proof (cases "length (jumpDestCache c) \<ge> maxJumpDestCacheSize")
    case False
    with None new len cache_insert [OF ok new] show ?thesis
      by (simp add: analyzeJumpDests_def Let_def jumpDestsOf_def)
  next
    case True
    let ?n = "maxJumpDestCacheSize div 4"
    have n: "?n \<le> length (jumpDestOrder c)" using True len by (simp add: maxJumpDestCacheSize_def)
    let ?c = "c\<lparr>jumpDestCache := filter (\<lambda>(h, _). h \<notin> set (take ?n (jumpDestOrder c))) (jumpDestCache c),
                jumpDestOrder := drop ?n (jumpDestOrder c)\<rparr>"
    have ok': "cache_ok sha256 ?c" by (rule cache_evict [OF ok n])
    have "sha256 code \<notin> set (jumpDestOrder ?c)" using new by (auto dest: in_set_dropD)
    moreover have "length (jumpDestOrder ?c) < maxJumpDestCacheSize"
      using ok n by (auto simp: cache_ok_def maxJumpDestCacheSize_def)
    ultimately show ?thesis using cache_insert [OF ok', of code] None True n
      by (simp add: analyzeJumpDests_def Let_def jumpDestsOf_def)
  qed
qed

section \<open>Properties\<close>

text \<open>C24: The jump analysis accepts exactly the JUMPDEST bytes that are instruction starts; in
  particular no position inside the immediate data of a PUSH is ever a jump destination.\<close>

theorem jump_dests_exact:
  assumes "length code < 2 ^ 64"
  shows "(d \<in> set (jumpDestsOf code) \<longleftrightarrow> instr_start code (unat d) \<and> code ! unat d = op_JUMPDEST) \<and>
    (d \<in> set (jumpDestsOf code) \<and> instr_start code p \<and> p < unat d \<longrightarrow> p + PushSize (code ! p) < unat d)"
  using jumpDestsOf_iff [of code d] assms instrs_gap [of p code 0 "unat d"] by (auto simp: instr_start_def)

theorem jump_dests_exact_witness:
  "1 \<notin> set (jumpDestsOf [op_PUSH1, op_JUMPDEST, op_JUMPDEST]) \<and> 2 \<in> set (jumpDestsOf [op_PUSH1, op_JUMPDEST, op_JUMPDEST])"
proof -
  have "PushSize op_PUSH1 = 1" "PushSize op_JUMPDEST = 0" by (simp_all add: PushSize_def opcodeInfoTable_def)
  then have "instrs [op_PUSH1, op_JUMPDEST, op_JUMPDEST] 0 = [0, 2]" by (simp add: instrs_Cons)
  then have "instr_start [op_PUSH1, op_JUMPDEST, op_JUMPDEST] k \<longleftrightarrow> k = 0 \<or> k = 2" for k
    by (auto simp: instr_start_def)
  with jump_dests_exact [of "[op_PUSH1, op_JUMPDEST, op_JUMPDEST]" 1] jump_dests_exact [of "[op_PUSH1, op_JUMPDEST, op_JUMPDEST]" 2]
  show ?thesis by simp
qed

text \<open>C27: The cache of the jump analysis is transparent and bounded: where the hash of the code
  does not collide with that of another code, the cached analysis returns what a fresh scan
  returns, and the cache stays consistent and within 4096 entries.\<close>

theorem jump_cache_transparent:
  assumes "cache_ok sha256 c" and "\<And>code'. sha256 code' = sha256 code \<Longrightarrow> code' = code"
  shows "fst (analyzeJumpDests sha256 code c) = jumpDestsOf code \<and>
    cache_ok sha256 (snd (analyzeJumpDests sha256 code c)) \<and>
    length (jumpDestCache (snd (analyzeJumpDests sha256 code c))) \<le> 4096"
proof -
  have ok: "cache_ok sha256 (snd (analyzeJumpDests sha256 code c))" using analyze_cached [OF assms] by simp
  let ?c = "snd (analyzeJumpDests sha256 code c)"
  have "length (map fst (jumpDestCache ?c)) = length (rev (jumpDestOrder ?c))" using ok by (simp only: cache_ok_def)
  then have "length (jumpDestCache ?c) \<le> 4096" using ok by (simp add: cache_ok_def maxJumpDestCacheSize_def)
  with ok analyze_cached [OF assms] show ?thesis by simp
qed

theorem jump_cache_transparent_witness:
  "fst (analyzeJumpDests (\<lambda>code. if code = [] then 0 else 1) [] \<lparr>jumpDestCache = [], jumpDestOrder = []\<rparr>) = jumpDestsOf []"
proof -
  define h :: "byte list \<Rightarrow> Hash" where "h = (\<lambda>code. if code = [] then 0 else 1)"
  have ok: "cache_ok h \<lparr>jumpDestCache = [], jumpDestOrder = []\<rparr>" by (simp add: cache_ok_def)
  have nocoll: "code' = []" if "h code' = h []" for code' using that by (simp add: h_def split: if_splits)
  show ?thesis using jump_cache_transparent [of h _ "[]", OF ok nocoll] unfolding h_def by (rule conjunct1)
qed



text \<open>C36: \<open>ValidateInitCode\<close> runs the ordinary size check first, so with the default validator
  every init code above 24576 bytes is rejected, and its own larger limit of 49152 bytes has
  no effect.\<close>

theorem init_code_limit_ineffective:
  "vr_Valid (ValidateInitCode NewBytecodeValidator code) = vr_Valid (Validate NewBytecodeValidator code) \<and>
   (vr_Valid (ValidateInitCode NewBytecodeValidator code) \<longrightarrow> length code \<le> 24576)"
  by (auto simp: ValidateInitCode_def Validate_def NewBytecodeValidator_def MaxCodeSize_def MaxInitCodeSize_def Let_def)

theorem init_code_limit_ineffective_witness:
  "\<not> vr_Valid (ValidateInitCode NewBytecodeValidator (replicate 30000 0))"
  using init_code_limit_ineffective [of "replicate 30000 0"] by (auto simp: length_replicate)

text \<open>C25: The EVM translation, without its marker, keeps positions: the instruction starts of the
  translation are those of the EVM code, each has the mapped opcode and the same push data
  (padded with zeros at the end of the code), and its jump destinations are the EVM ones.\<close>

theorem translation_keeps_positions:
  assumes "TranslateEVMBytecode evm = Inr q"
  shows "let Q = StripEVMTranslatedMarkerFromRuntimeCode q in
    instrs Q 0 = evm_instrs evm 0 \<and> (\<forall>p\<in>set (evm_instrs evm 0). tr_match evm Q p) \<and>
    jumpDestsOf Q = map of_nat (filter (\<lambda>p. evm ! p = 0x5B) (evm_instrs evm 0)) \<and> isEVMTranslatedCode q"
proof -
  obtain Q where Q: "q = EVMTranslatedMarker @ Q" "instrs Q 0 = evm_instrs evm 0" "\<forall>p\<in>set (evm_instrs evm 0). tr_match evm Q p"
    using translate_spec [of evm 0 EVMTranslatedMarker "[]" q] assms by (auto simp: TranslateEVMBytecode_def)
  have "filter (\<lambda>p. Q ! p = op_JUMPDEST) (evm_instrs evm 0) = filter (\<lambda>p. evm ! p = 0x5B) (evm_instrs evm 0)"
    using Q(3) evm_map_facts(2) by (intro filter_cong) (auto simp: tr_match_def)
  with Q show ?thesis
    by (simp add: StripEVMTranslatedMarkerFromRuntimeCode_def isEVMTranslatedCode_def jumpDestsOf_def jump_scan_spec)
qed

theorem translation_keeps_positions_witness:
  "TranslateEVMBytecode [0x60, 0x5B, 0x5B] = Inr (EVMTranslatedMarker @ [op_PUSH1, 0x5B, op_JUMPDEST]) \<and>
   instrs (StripEVMTranslatedMarkerFromRuntimeCode (EVMTranslatedMarker @ [op_PUSH1, 0x5B, op_JUMPDEST])) 0 =
   evm_instrs [0x60, 0x5B, 0x5B] 0"
proof -
  have "TranslateEVMBytecode [0x60, 0x5B, 0x5B] = Inr (EVMTranslatedMarker @ [op_PUSH1, 0x5B, op_JUMPDEST])"
    by code_simp
  with translation_keeps_positions [OF this] show ?thesis by (simp add: Let_def)
qed

end
