(* ===== verification/QVM_State.thy ===== *)
theory QVM_State
  imports Qau_Prelude
begin

text \<open>
  The state interface of the virtual machine, \<open>StateDB\<close> of \<open>src/qvm/qvm.go\<close>, with the
  optional methods \<open>GetCommittedState\<close> (\<open>operations.go\<close>) and \<open>ReleaseSnapshot\<close>
  (\<open>snapshot_frame.go\<close>), which an implementation may lack. An implementation is a record of
  functions over its own state type; \<open>GetBalance\<close> and \<open>GetNonce\<close> return the state too, since
  an implementation may create the account it is asked for. The locale \<open>state_db\<close> is the
  contract the interpreter relies on.
\<close>

section \<open>The interface\<close>

record 's StateDB =
  GetBalance :: "Address \<Rightarrow> 's \<Rightarrow> int \<times> 's"
  SetBalance :: "Address \<Rightarrow> int \<Rightarrow> 's \<Rightarrow> 's"
  GetNonce :: "Address \<Rightarrow> 's \<Rightarrow> u64 \<times> 's"
  SetNonce :: "Address \<Rightarrow> u64 \<Rightarrow> 's \<Rightarrow> 's"
  GetCode :: "Address \<Rightarrow> 's \<Rightarrow> byte list"
  SetCode :: "Address \<Rightarrow> byte list \<Rightarrow> 's \<Rightarrow> 's"
  GetCodeHash :: "Address \<Rightarrow> 's \<Rightarrow> Hash"
  GetCodeSize :: "Address \<Rightarrow> 's \<Rightarrow> nat"
  GetState :: "Address \<Rightarrow> Hash \<Rightarrow> 's \<Rightarrow> Hash"
  SetState :: "Address \<Rightarrow> Hash \<Rightarrow> Hash \<Rightarrow> 's \<Rightarrow> 's"
  Exist :: "Address \<Rightarrow> 's \<Rightarrow> bool"
  IsEmpty :: "Address \<Rightarrow> 's \<Rightarrow> bool"
  Snapshot :: "'s \<Rightarrow> int \<times> 's"
  RevertToSnapshot :: "int \<Rightarrow> 's \<Rightarrow> 's"
  SelfDestruct :: "Address \<Rightarrow> 's \<Rightarrow> 's"
  HasSelfDestructed :: "Address \<Rightarrow> 's \<Rightarrow> bool"
  AddAddressToAccessList :: "Address \<Rightarrow> 's \<Rightarrow> 's"
  AddSlotToAccessList :: "Address \<Rightarrow> Hash \<Rightarrow> 's \<Rightarrow> 's"
  AddressInAccessList :: "Address \<Rightarrow> 's \<Rightarrow> bool"
  SlotInAccessList :: "Address \<Rightarrow> Hash \<Rightarrow> 's \<Rightarrow> bool \<times> bool"
  GetCommittedState :: "(Address \<Rightarrow> Hash \<Rightarrow> 's \<Rightarrow> Hash) option"
  ReleaseSnapshot :: "(int \<Rightarrow> 's \<Rightarrow> 's) option"

definition releaseFrame :: "'s StateDB \<Rightarrow> int \<Rightarrow> 's \<Rightarrow> 's" where
  "releaseFrame db sid s =
     (if sid < 0 then s else case ReleaseSnapshot db of None \<Rightarrow> s | Some rel \<Rightarrow> rel sid s)"

section \<open>The contract\<close>

text \<open>
  What a state holds of an account, as the getters return it, and the stack of snapshots as
  the list of the contents they restore. \<open>balances\<close>, \<open>nonces\<close>, \<open>codes\<close> and \<open>slots\<close> are the
  observations the interpreter can make.
\<close>

definition bal :: "'s StateDB \<Rightarrow> 's \<Rightarrow> Address \<Rightarrow> int" where
  "bal db s a = fst (GetBalance db a s)"

definition nonce :: "'s StateDB \<Rightarrow> 's \<Rightarrow> Address \<Rightarrow> u64" where
  "nonce db s a = fst (GetNonce db a s)"

definition slot :: "'s StateDB \<Rightarrow> 's \<Rightarrow> Address \<Rightarrow> Hash \<Rightarrow> Hash" where
  "slot db s a k = GetState db a k s"

definition code_at :: "'s StateDB \<Rightarrow> 's \<Rightarrow> Address \<Rightarrow> byte list" where
  "code_at db s a = GetCode db a s"

record view =
  v_bal :: "Address \<Rightarrow> int"
  v_nonce :: "Address \<Rightarrow> u64"
  v_code :: "Address \<Rightarrow> byte list"
  v_slot :: "Address \<Rightarrow> Hash \<Rightarrow> Hash"

definition view_of :: "'s StateDB \<Rightarrow> 's \<Rightarrow> view" where
  "view_of db s = \<lparr>v_bal = bal db s, v_nonce = nonce db s, v_code = code_at db s, v_slot = slot db s\<rparr>"

text \<open>The sum of all balances (addresses are 160-bit words, so it is a finite sum), and that none is
  negative.\<close>

definition totalSupply :: "'s StateDB \<Rightarrow> 's \<Rightarrow> int" where
  "totalSupply db s = (\<Sum>a\<in>UNIV. bal db s a)"

definition solvent :: "'s StateDB \<Rightarrow> 's \<Rightarrow> bool" where
  "solvent db s \<longleftrightarrow> (\<forall>a. 0 \<le> bal db s a)"

locale state_db =
  fixes db :: "'s StateDB"
    and snaps :: "'s \<Rightarrow> view list"
  assumes view_GetBalance: "view_of db (snd (GetBalance db a s)) = view_of db s"
    and view_GetNonce: "view_of db (snd (GetNonce db a s)) = view_of db s"
    and view_SetBalance: "view_of db (SetBalance db a v s) = (view_of db s)\<lparr>v_bal := (bal db s)(a := v)\<rparr>"
    and view_SetNonce: "view_of db (SetNonce db a n s) = (view_of db s)\<lparr>v_nonce := (nonce db s)(a := n)\<rparr>"
    and view_SetCode: "view_of db (SetCode db a c s) = (view_of db s)\<lparr>v_code := (code_at db s)(a := c)\<rparr>"
    and view_SetState: "view_of db (SetState db a k w s) = (view_of db s)\<lparr>v_slot := (slot db s)(a := (slot db s a)(k := w))\<rparr>"
    and view_AddAddress: "view_of db (AddAddressToAccessList db a s) = view_of db s"
    and view_AddSlot: "view_of db (AddSlotToAccessList db a k s) = view_of db s"
    and view_SelfDestruct: "bal db (SelfDestruct db a s) = (bal db s)(a := 0)"
    and view_Snapshot: "view_of db (snd (Snapshot db s)) = view_of db s"
    and snaps_GetBalance: "snaps (snd (GetBalance db a s)) = snaps s"
    and snaps_GetNonce: "snaps (snd (GetNonce db a s)) = snaps s"
    and snaps_SetBalance: "snaps (SetBalance db a v s) = snaps s"
    and snaps_SetNonce: "snaps (SetNonce db a n s) = snaps s"
    and snaps_SetCode: "snaps (SetCode db a c s) = snaps s"
    and snaps_SetState: "snaps (SetState db a k w s) = snaps s"
    and snaps_AddAddress: "snaps (AddAddressToAccessList db a s) = snaps s"
    and snaps_AddSlot: "snaps (AddSlotToAccessList db a k s) = snaps s"
    and snaps_SelfDestruct: "snaps (SelfDestruct db a s) = snaps s"
    and Snapshot_push: "0 \<le> fst (Snapshot db s) \<Longrightarrow>
        fst (Snapshot db s) = int (length (snaps s)) \<and> snaps (snd (Snapshot db s)) = snaps s @ [view_of db s]"
    and Snapshot_full: "fst (Snapshot db s) < 0 \<Longrightarrow> snaps (snd (Snapshot db s)) = snaps s"
    and Revert_view: "0 \<le> sid \<Longrightarrow> sid < int (length (snaps s)) \<Longrightarrow>
        view_of db (RevertToSnapshot db sid s) = snaps s ! nat sid \<and> snaps (RevertToSnapshot db sid s) = take (nat sid) (snaps s)"
    and Release_snaps: "ReleaseSnapshot db = Some rel \<Longrightarrow> 0 \<le> sid \<Longrightarrow> sid < int (length (snaps s)) \<Longrightarrow>
        view_of db (rel sid s) = view_of db s \<and> snaps (rel sid s) = take (nat sid) (snaps s)"
begin

lemmas view_simps = view_GetBalance view_GetNonce view_SetBalance view_SetNonce view_SetCode view_SetState
  view_AddAddress view_AddSlot view_Snapshot

lemmas snaps_simps = snaps_GetBalance snaps_GetNonce snaps_SetBalance snaps_SetNonce snaps_SetCode snaps_SetState
  snaps_AddAddress snaps_AddSlot snaps_SelfDestruct

lemma bal_view: "bal db s = v_bal (view_of db s)"
  by (simp add: view_of_def)

lemma bal_SetBalance: "bal db (SetBalance db a v s) = (bal db s)(a := v)"
  using view_SetBalance [of a v s] by (simp add: bal_view)

lemma supply_cong: "bal db s = bal db s' \<Longrightarrow> totalSupply db s = totalSupply db s'"
  by (simp add: totalSupply_def)

lemma supply_view: "view_of db s = view_of db s' \<Longrightarrow> totalSupply db s = totalSupply db s'"
  by (rule supply_cong) (simp add: bal_view)

lemma sum_upd: "(\<Sum>a\<in>(UNIV :: Address set). ((f :: Address \<Rightarrow> int)(x := v)) a) = (\<Sum>a\<in>UNIV. f a) - f x + v"
proof -
  have "(\<Sum>a\<in>UNIV. (f(x := v)) a) = (f(x := v)) x + (\<Sum>a\<in>UNIV - {x}. (f(x := v)) a)"
    by (rule sum.remove) simp_all
  also have "(\<Sum>a\<in>UNIV - {x}. (f(x := v)) a) = (\<Sum>a\<in>UNIV - {x}. f a)" by (rule sum.cong) simp_all
  also have "(\<Sum>a\<in>UNIV. f a) = f x + (\<Sum>a\<in>UNIV - {x}. f a)" by (rule sum.remove) simp_all
  ultimately show ?thesis by simp
qed

lemma supply_SetBalance: "totalSupply db (SetBalance db a v s) = totalSupply db s - bal db s a + v"
  unfolding totalSupply_def bal_SetBalance by (rule sum_upd)

lemma supply_SelfDestruct: "totalSupply db (SelfDestruct db a s) = totalSupply db s - bal db s a"
  using sum_upd [of "bal db s" a 0] unfolding totalSupply_def view_SelfDestruct by linarith

end

end
