(* ===== verification/QVM_Env.thy ===== *)
theory QVM_Env
  imports QVM_Gas QVM_Code QVM_State
begin

text \<open>
  \<open>src/qvm/qvm.go\<close> and \<open>src/qvm/environment.go\<close>: the execution context and result, the
  interpreter with the code it calls, the environment of a running frame and its bookkeeping of
  active addresses and reentries.

  What the frames of one transaction share (the state, the maps owned by the root environment and
  the transient storage) is the record \<open>Shared\<close>, which every frame threads. Transient storage is
  a Go map that several environments refer to and that one handler reassigns, so an environment
  holds an index into the list of these maps. A child frame reads of its parent environment only
  the active addresses of the chain of ancestors and the transient storage; the parent does not
  run while the child does, so \<open>ParentEnv\<close> is a copy of these parts. The tracer, which only
  observes, and the abort channel of gas estimation are left out.
\<close>

section \<open>Contexts, results, interpreter\<close>

definition MaxCallDepth :: u64 where "MaxCallDepth = 1024"
definition MaxActiveCallDepth :: nat where "MaxActiveCallDepth = 1024"
definition MaxReentriesPerAddress :: int where "MaxReentriesPerAddress = 10"

record Log =
  log_Address :: Address
  log_Topics :: "Hash list"
  log_Data :: "byte list"

type_synonym TransientStorage = "Address \<Rightarrow> (Hash \<Rightarrow> Hash option) option"

record ParentEnv =
  pe_activeAddresses :: "Address list list"
  pe_transientStorage :: nat

record ExecutionContext =
  ctx_Origin :: Address
  ctx_GasPrice :: "int option"
  ctx_Caller :: Address
  ctx_Address :: Address
  ctx_Value :: "int option"
  ctx_BlockNumber :: u64
  ctx_Timestamp :: "64 word"
  ctx_Coinbase :: Address
  ctx_GasLimit :: u64
  ctx_ChainID :: u64
  ctx_BlockHashes :: "u64 \<Rightarrow> Hash option"
  ctx_PrevRandao :: Hash
  ctx_BlobHashes :: "Hash list"
  ctx_BlobBaseFee :: u64
  ctx_BaseFee :: u64
  ctx_Code :: "byte list"
  ctx_Input :: "byte list"
  ctx_OriginalCode :: "byte list option"
  ctx_EVMCompatible :: bool
  ctx_Gas :: u64
  ctx_Depth :: int
  ctx_ReadOnly :: bool
  ctx_ParentEnv :: "ParentEnv option"

record ExecutionResult =
  res_ReturnData :: "byte list"
  res_GasUsed :: u64
  res_GasRefund :: u64
  res_Logs :: "Log list"
  res_Err :: "qerr option"
  res_Reverted :: bool

text \<open>The arguments of a precompiled contract: the caller, the origin and the value of the frame
  that calls it, block time and chain id, the static flag, the input and the gas.\<close>

record precall =
  pre_caller :: Address
  pre_origin :: Address
  pre_value :: "int option"
  pre_time :: "64 word"
  pre_chainID :: u64
  pre_static :: bool
  pre_input :: "byte list"
  pre_gas :: u64

text \<open>
  The interpreter: the implementation of the state interface, the gas table, and the code it only
  calls: Keccak-256, the secp256k1 signer recovery, the Kyber decapsulation and the registry of
  precompiled contracts (an output or a failure, the gas used, the new state).
\<close>

record 's Interpreter =
  i_db :: "'s StateDB"
  i_gasTable :: GasTable
  i_ecdsaAuthEnabled :: bool
  i_keccak256 :: "byte list \<Rightarrow> Hash"
  i_recoverSigner :: "Hash \<Rightarrow> byte \<Rightarrow> byte list \<Rightarrow> byte list \<Rightarrow> Address option"
  i_decapsulate :: "byte list \<Rightarrow> byte list \<Rightarrow> byte list res"
  i_IsPrecompiled :: "Address \<Rightarrow> bool"
  i_IsStateful :: "Address \<Rightarrow> bool"
  i_RunPrecompiled :: "Address \<Rightarrow> precall \<Rightarrow> 's \<Rightarrow> (byte list option \<times> u64) \<times> 's"

section \<open>Environments\<close>

record 's Shared =
  sh_stateDB :: 's
  sh_txCreatedContracts :: "Address set"
  sh_selfDestructCleared :: "Address set"
  sh_reentryCounts :: "Address \<Rightarrow> int"
  sh_transient :: "TransientStorage list"

record 's Environment =
  env_ctx :: ExecutionContext
  env_shared :: "'s Shared"
  env_stack :: Stack
  env_memory :: Memory
  env_gas :: GasMeter
  env_pc :: u64
  env_jumpDests :: "u64 list"
  env_logs :: "Log list"
  env_returnData :: "byte list"
  env_stopped :: bool
  env_reverted :: bool
  env_err :: "qerr option"
  env_callDepth :: u64
  env_activeAddresses :: "Address list"
  env_parentEnv :: "Address list list"
  env_selfDestructed :: bool
  env_selfDestructBeneficiary :: Address
  env_blockHashes :: "u64 \<Rightarrow> Hash option"
  env_transientStorage :: nat
  env_authorizedAddress :: "Address option"
  env_pqcKeyRegions :: "(u64 \<times> u64) list"

text \<open>Running a method of one part of the environment.\<close>

definition on_stack :: "(Stack, 'a) op \<Rightarrow> ('s Environment, 'a) op" where
  "on_stack = zoom env_stack (\<lambda>x. env_stack_update (\<lambda>_. x))"

definition on_memory :: "(Memory, 'a) op \<Rightarrow> ('s Environment, 'a) op" where
  "on_memory = zoom env_memory (\<lambda>x. env_memory_update (\<lambda>_. x))"

definition on_gas :: "(GasMeter, 'a) op \<Rightarrow> ('s Environment, 'a) op" where
  "on_gas = zoom env_gas (\<lambda>x. env_gas_update (\<lambda>_. x))"

abbreviation pop :: "('s Environment, Word) op" where "pop \<equiv> on_stack Stack_Pop"
abbreviation popUint64 :: "('s Environment, u64) op" where "popUint64 \<equiv> on_stack Stack_PopUint64"
abbreviation popBigInt :: "('s Environment, int) op" where "popBigInt \<equiv> on_stack Stack_PopBigInt"
abbreviation push :: "Word \<Rightarrow> ('s Environment, unit) op" where "push w \<equiv> on_stack (Stack_Push w)"
abbreviation pushUint64 :: "u64 \<Rightarrow> ('s Environment, unit) op" where "pushUint64 v \<equiv> on_stack (Stack_PushUint64 v)"
abbreviation pushBigInt :: "int option \<Rightarrow> ('s Environment, unit) op" where "pushBigInt v \<equiv> on_stack (Stack_PushBigInt v)"
abbreviation consume :: "u64 \<Rightarrow> ('s Environment, unit) op" where "consume c \<equiv> on_gas (Consume c)"

abbreviation env_db :: "'s Environment \<Rightarrow> 's" where "env_db e \<equiv> sh_stateDB (env_shared e)"

text \<open>A call of a getter or setter of the state, and of one that returns a value and the state.\<close>

definition db_get :: "('s \<Rightarrow> 'a) \<Rightarrow> ('s Environment, 'a) op" where
  "db_get f = gets (\<lambda>e. f (env_db e))"

definition db_set :: "('s \<Rightarrow> 's) \<Rightarrow> ('s Environment, unit) op" where
  "db_set f = modify (\<lambda>e. e\<lparr>env_shared := (env_shared e)\<lparr>sh_stateDB := f (env_db e)\<rparr>\<rparr>)"

definition db_run :: "('s \<Rightarrow> 'a \<times> 's) \<Rightarrow> ('s Environment, 'a) op" where
  "db_run f = (\<lambda>e. case f (env_db e) of (a, s) \<Rightarrow> (Inr a, e\<lparr>env_shared := (env_shared e)\<lparr>sh_stateDB := s\<rparr>\<rparr>))"

section \<open>Active addresses and reentries\<close>

definition IsAddressActive :: "Address \<Rightarrow> 's Environment \<Rightarrow> bool" where
  "IsAddressActive addr e = list_ex (\<lambda>actives. list_ex (\<lambda>a. a = addr) actives) (env_activeAddresses e # env_parentEnv e)"

definition PushActiveAddress :: "Address \<Rightarrow> ('s Environment, bool) op" where
  "PushActiveAddress addr = (\<lambda>e.
     if length (env_activeAddresses e) \<ge> MaxActiveCallDepth then (Inr False, e)
     else (Inr True, e\<lparr>env_activeAddresses := env_activeAddresses e @ [addr]\<rparr>))"

definition PopActiveAddress :: "'s Environment \<Rightarrow> 's Environment" where
  "PopActiveAddress e =
     (if length (env_activeAddresses e) > 0
      then e\<lparr>env_activeAddresses := take (length (env_activeAddresses e) - 1) (env_activeAddresses e)\<rparr>
      else e)"

definition restoreActive :: "nat \<Rightarrow> 's Environment \<Rightarrow> 's Environment" where
  "restoreActive savedActiveLen e = e\<lparr>env_activeAddresses := take savedActiveLen (env_activeAddresses e)\<rparr>"

definition IncrementReentryCount :: "Address \<Rightarrow> ('s Environment, bool) op" where
  "IncrementReentryCount addr = (\<lambda>e.
     let counts = sh_reentryCounts (env_shared e) in
     if counts addr \<ge> MaxReentriesPerAddress then (Inr False, e)
     else (Inr True, e\<lparr>env_shared := (env_shared e)\<lparr>sh_reentryCounts := counts(addr := counts addr + 1)\<rparr>\<rparr>))"

text \<open>Deleting a key of a map with integer values and storing zero under it are the same to every
  reader of the map, so an absent key is zero here.\<close>

definition DecrementReentryCount :: "Address \<Rightarrow> 's Environment \<Rightarrow> 's Environment" where
  "DecrementReentryCount addr e =
     (let counts = sh_reentryCounts (env_shared e) in
      if counts addr \<le> 0 then e\<lparr>env_shared := (env_shared e)\<lparr>sh_reentryCounts := counts(addr := 0)\<rparr>\<rparr>
      else e\<lparr>env_shared := (env_shared e)\<lparr>sh_reentryCounts := counts(addr := counts addr - 1)\<rparr>\<rparr>)"

definition getBlockHash :: "u64 \<Rightarrow> 's Environment \<Rightarrow> Hash" where
  "getBlockHash blockNum e =
     (let currentBlock = ctx_BlockNumber (env_ctx e) in
      if blockNum \<ge> currentBlock \<or> currentBlock - blockNum > 256 then 0
      else case env_blockHashes e blockNum of Some hash \<Rightarrow> hash | None \<Rightarrow> 0)"

text \<open>The address in a stack word: \<open>copy(addr[:], word[12:])\<close>.\<close>

definition wordAddress :: "Word \<Rightarrow> Address" where
  "wordAddress w = arr_of (drop 12 (Word_Bytes w))"

section \<open>How the primitives run\<close>

lemma run_on_stack [op_simps]: "on_stack m e = (case m (env_stack e) of (r, s) \<Rightarrow> (r, e\<lparr>env_stack := s\<rparr>))"
  by (simp add: on_stack_def zoom_def)

lemma run_on_memory [op_simps]: "on_memory m e = (case m (env_memory e) of (r, s) \<Rightarrow> (r, e\<lparr>env_memory := s\<rparr>))"
  by (simp add: on_memory_def zoom_def)

lemma run_on_gas [op_simps]: "on_gas m e = (case m (env_gas e) of (r, s) \<Rightarrow> (r, e\<lparr>env_gas := s\<rparr>))"
  by (simp add: on_gas_def zoom_def)

lemma run_db_get [op_simps]: "db_get f e = (Inr (f (env_db e)), e)"
  by (simp add: db_get_def gets_def)

lemma run_db_set [op_simps]: "db_set f e = (Inr (), e\<lparr>env_shared := (env_shared e)\<lparr>sh_stateDB := f (env_db e)\<rparr>\<rparr>)"
  by (simp add: db_set_def modify_def)

lemma run_db_run [op_simps]:
  "db_run f e = (case f (env_db e) of (a, s) \<Rightarrow> (Inr a, e\<lparr>env_shared := (env_shared e)\<lparr>sh_stateDB := s\<rparr>\<rparr>))"
  by (simp add: db_run_def)

lemma wordAddress_ucast: "wordAddress w = ucast w"
proof -
  have "big_SetBytes (Word_Bytes w) = big_SetBytes (take 12 (Word_Bytes w)) * 256 ^ 20 + big_SetBytes (drop 12 (Word_Bytes w))"
    using big_SetBytes_append [of "take 12 (Word_Bytes w)" "drop 12 (Word_Bytes w)"] by simp
  then have "uint w = big_SetBytes (take 12 (Word_Bytes w)) * 2 ^ 160 + big_SetBytes (drop 12 (Word_Bytes w))"
    unfolding ToBigInt_uint [of w, unfolded ToBigInt_def] by simp
  then have eq: "take_bit 160 (uint w) = take_bit 160 (big_SetBytes (drop 12 (Word_Bytes w)))"
    by (simp only: take_bit_eq_mod mod_mult_self3)
  have "(word_of_int (uint w) :: Address) = word_of_int (big_SetBytes (drop 12 (Word_Bytes w)))"
  proof (rule word_of_int_eq_iff [THEN iffD2])
    have "LENGTH(160) = 160" by simp
    then show "take_bit LENGTH(160) (uint w) = take_bit LENGTH(160) (big_SetBytes (drop 12 (Word_Bytes w)))"
      by (simp only: eq)
  qed
  then show ?thesis by (simp only: wordAddress_def arr_of_def ucast_eq)
qed

lemma IsAddressActive_iff:
  "IsAddressActive addr e \<longleftrightarrow> addr \<in> set (env_activeAddresses e) \<or> (\<exists>l \<in> set (env_parentEnv e). addr \<in> set l)"
  by (auto simp: IsAddressActive_def list_ex_iff)

end
