(* ===== verification/QVM_Arith_Ops.thy ===== *)
theory QVM_Arith_Ops
  imports QVM_Env
begin

text \<open>
  The arithmetic, comparison and bitwise handlers of \<open>src/qvm/operations.go\<close>,
  \<open>operations_missing.go\<close> and \<open>opcodes_extended.go\<close>. Most have a fast path on 64-bit operands, a
  slow path through \<open>big.Int\<close>, or a loop over the bytes of a word; each is shown to be the
  operation of the 256-bit word on the two (three) topmost stack entries.
\<close>

section \<open>Integers of \<open>math/big\<close>\<close>

definition maxUint256 :: int where
  "maxUint256 = 0xffffffffffffffffffffffffffffffffffffffffffffffffffffffffffffffff"

definition bigMaxUint256Plus1 :: int where
  "bigMaxUint256Plus1 = 0x10000000000000000000000000000000000000000000000000000000000000000"

text \<open>\<open>Quo\<close> and \<open>Rem\<close> truncate towards zero; \<open>Exp\<close> is modular exponentiation.\<close>

definition big_Quo :: "int \<Rightarrow> int \<Rightarrow> int" where
  "big_Quo x y = sgn x * sgn y * (\<bar>x\<bar> div \<bar>y\<bar>)"

definition big_Rem :: "int \<Rightarrow> int \<Rightarrow> int" where
  "big_Rem x y = sgn x * (\<bar>x\<bar> mod \<bar>y\<bar>)"

fun big_Exp :: "int \<Rightarrow> nat \<Rightarrow> int \<Rightarrow> int" where
  "big_Exp x y m =
     (if y = 0 then 1 mod m
      else let h = big_Exp (x * x mod m) (y div 2) m in if odd y then x * h mod m else h)"

declare big_Exp.simps [simp del]

definition toSigned :: "int \<Rightarrow> int" where
  "toSigned x = (if bit x 255 then x - bigMaxUint256Plus1 else x)"

definition fromSigned :: "int \<Rightarrow> int" where
  "fromSigned v = (if v < 0 then v + bigMaxUint256Plus1 else v)"

definition isUint64 :: "Word \<Rightarrow> bool" where
  "isUint64 w =
     ((arr_of (slice (Word_Bytes w) 0 8) :: u64) = 0 \<and>
      (arr_of (slice (Word_Bytes w) 8 16) :: u64) = 0 \<and>
      (arr_of (slice (Word_Bytes w) 16 24) :: u64) = 0)"

section \<open>Arithmetic\<close>

definition opAdd :: "('s Environment, unit) op" where
  "opAdd = bind pop (\<lambda>a. bind pop (\<lambda>b.
     let slow = pushBigInt (Some ((ToBigInt a + ToBigInt b) AND maxUint256)) in
     if isUint64 a \<and> isUint64 b then
       let av = ToUint64 a; bv = ToUint64 b; s = av + bv in
       if s \<ge> av then push (NewWordFromUint64 s) else slow
     else slow))"

definition opSub :: "('s Environment, unit) op" where
  "opSub = bind pop (\<lambda>a. bind pop (\<lambda>b.
     let result = ToBigInt a - ToBigInt b;
         result = (if result < 0 then result + bigMaxUint256Plus1 else result);
         slow = pushBigInt (Some (result AND maxUint256)) in
     if isUint64 a \<and> isUint64 b then
       let av = ToUint64 a; bv = ToUint64 b in
       if av \<ge> bv then push (NewWordFromUint64 (av - bv)) else slow
     else slow))"

definition opMul :: "('s Environment, unit) op" where
  "opMul = bind pop (\<lambda>a. bind pop (\<lambda>b.
     let slow = pushBigInt (Some ((ToBigInt a * ToBigInt b) AND maxUint256)) in
     if isUint64 a \<and> isUint64 b then
       let av = ToUint64 a; bv = ToUint64 b in
       if av = 0 \<or> bv = 0 then push (NewWordFromUint64 0)
       else if av \<le> MaxUint64 div bv then push (NewWordFromUint64 (av * bv))
       else slow
     else slow))"

definition opDiv :: "('s Environment, unit) op" where
  "opDiv = bind pop (\<lambda>a. bind pop (\<lambda>b.
     if isUint64 a \<and> isUint64 b then
       let bv = ToUint64 b in
       if bv = 0 then push (NewWordFromUint64 0) else push (NewWordFromUint64 (ToUint64 a div bv))
     else if ToBigInt b = 0 then push (NewWordFromUint64 0)
     else pushBigInt (Some (ToBigInt a div ToBigInt b))))"

definition opMod :: "('s Environment, unit) op" where
  "opMod = bind pop (\<lambda>a. bind pop (\<lambda>b.
     if isUint64 a \<and> isUint64 b then
       let bv = ToUint64 b in
       if bv = 0 then push (NewWordFromUint64 0) else push (NewWordFromUint64 (ToUint64 a mod bv))
     else if ToBigInt b = 0 then push (NewWordFromUint64 0)
     else pushBigInt (Some (ToBigInt a mod ToBigInt b))))"

definition opSDiv :: "('s Environment, unit) op" where
  "opSDiv = bind pop (\<lambda>a. bind pop (\<lambda>b.
     if Word_IsZero b then push (NewWordFromUint64 0)
     else
       let as = toSigned (ToBigInt a); bs = toSigned (ToBigInt b); minInt = - push_bit 255 1 in
       if as = minInt \<and> bs = - 1 then push (arr_of (0x80 # replicate 31 0))
       else pushBigInt (Some (fromSigned (big_Quo as bs)))))"

definition opSMod :: "('s Environment, unit) op" where
  "opSMod = bind pop (\<lambda>a. bind pop (\<lambda>b.
     if Word_IsZero b then push (NewWordFromUint64 0)
     else
       let as = toSigned (ToBigInt a); bs = toSigned (ToBigInt b) in
       pushBigInt (Some (fromSigned (big_Rem as bs)))))"

definition opAddMod :: "('s Environment, unit) op" where
  "opAddMod = bind popBigInt (\<lambda>a. bind popBigInt (\<lambda>b. bind popBigInt (\<lambda>n.
     pushBigInt (Some (if n = 0 then 0 else (a + b) mod n)))))"

definition opMulMod :: "('s Environment, unit) op" where
  "opMulMod = bind popBigInt (\<lambda>a. bind popBigInt (\<lambda>b. bind popBigInt (\<lambda>n.
     pushBigInt (Some (if n = 0 then 0 else (a * b) mod n)))))"

definition opExp :: "('s Environment, unit) op" where
  "opExp = bind popBigInt (\<lambda>base. bind popBigInt (\<lambda>ex.
     let expBytes = (big_BitLen ex + 7) div 8 in
     case SafeMulGas (of_nat expBytes) GasExpByte of
       Inl _ \<Rightarrow> fail ErrGasOverflow
     | Inr dynamicGas \<Rightarrow>
         bind (consume dynamicGas) (\<lambda>_. pushBigInt (Some (big_Exp base (nat ex) bigMaxUint256Plus1)))))"

definition opSignExtend :: "('s Environment, unit) op" where
  "opSignExtend = bind pop (\<lambda>kWord. bind pop (\<lambda>x.
     if \<not> isUint64 kWord then push x
     else
       let k = ToUint64 kWord in
       if k \<ge> 31 then push x
       else
         let byteIdx = unat (31 - k);
             signBit = (Word_Bytes x ! byteIdx) AND 0x80;
             fill = (if signBit \<noteq> 0 then 0xFF else 0x00) in
         push (arr_of (foldl (\<lambda>result j. result[j := fill]) (Word_Bytes x) [0..<byteIdx]))))"

section \<open>Comparisons\<close>

definition opLt :: "('s Environment, unit) op" where
  "opLt = bind pop (\<lambda>a. bind pop (\<lambda>b.
     if isUint64 a \<and> isUint64 b then
       if ToUint64 a < ToUint64 b then pushUint64 1 else pushUint64 0
     else if ToBigInt a < ToBigInt b then pushUint64 1 else pushUint64 0))"

definition opGt :: "('s Environment, unit) op" where
  "opGt = bind pop (\<lambda>a. bind pop (\<lambda>b.
     if isUint64 a \<and> isUint64 b then
       if ToUint64 a > ToUint64 b then pushUint64 1 else pushUint64 0
     else if ToBigInt a > ToBigInt b then pushUint64 1 else pushUint64 0))"

definition opSlt :: "('s Environment, unit) op" where
  "opSlt = bind pop (\<lambda>a. bind pop (\<lambda>b.
     if isUint64 a \<and> isUint64 b \<and> Word_Bytes a ! 24 < 0x80 \<and> Word_Bytes b ! 24 < 0x80 then
       if sint (ToUint64 a) < sint (ToUint64 b) then pushUint64 1 else pushUint64 0
     else if toSigned (ToBigInt a) < toSigned (ToBigInt b) then pushUint64 1 else pushUint64 0))"

definition opSgt :: "('s Environment, unit) op" where
  "opSgt = bind pop (\<lambda>a. bind pop (\<lambda>b.
     if isUint64 a \<and> isUint64 b \<and> Word_Bytes a ! 24 < 0x80 \<and> Word_Bytes b ! 24 < 0x80 then
       if sint (ToUint64 a) > sint (ToUint64 b) then pushUint64 1 else pushUint64 0
     else if toSigned (ToBigInt a) > toSigned (ToBigInt b) then pushUint64 1 else pushUint64 0))"

definition opEq :: "('s Environment, unit) op" where
  "opEq = bind pop (\<lambda>a. bind pop (\<lambda>b. if a = b then pushUint64 1 else pushUint64 0))"

definition opIsZero :: "('s Environment, unit) op" where
  "opIsZero = bind pop (\<lambda>a. if Word_IsZero a then pushUint64 1 else pushUint64 0)"

section \<open>Bitwise operations\<close>

definition opAnd :: "('s Environment, unit) op" where
  "opAnd = bind pop (\<lambda>a. bind pop (\<lambda>b.
     push (arr_of (map (\<lambda>k. Word_Bytes a ! k AND Word_Bytes b ! k) [0..<WordSize]))))"

definition opOr :: "('s Environment, unit) op" where
  "opOr = bind pop (\<lambda>a. bind pop (\<lambda>b.
     push (arr_of (map (\<lambda>k. Word_Bytes a ! k OR Word_Bytes b ! k) [0..<WordSize]))))"

definition opXor :: "('s Environment, unit) op" where
  "opXor = bind pop (\<lambda>a. bind pop (\<lambda>b.
     push (arr_of (map (\<lambda>k. Word_Bytes a ! k XOR Word_Bytes b ! k) [0..<WordSize]))))"

definition opNot :: "('s Environment, unit) op" where
  "opNot = bind pop (\<lambda>a. push (arr_of (map (\<lambda>k. NOT (Word_Bytes a ! k)) [0..<WordSize])))"

definition opShl :: "('s Environment, unit) op" where
  "opShl = bind pop (\<lambda>shiftWord. bind pop (\<lambda>value.
     let shift = ToUint64 shiftWord;
         shiftBig = ToBigInt shiftWord;
         slow = pushBigInt (Some (if shiftBig \<ge> 256 then 0
                                  else push_bit (nat shiftBig) (ToBigInt value) AND maxUint256)) in
     if isUint64 shiftWord \<and> shift < 64 \<and> isUint64 value then
       let v = ToUint64 value in
       if shift > 0 \<and> drop_bit (unat (64 - shift)) v \<noteq> 0 then slow
       else push (NewWordFromUint64 (push_bit (unat shift) v))
     else slow))"

definition opShr :: "('s Environment, unit) op" where
  "opShr = bind pop (\<lambda>shiftWord. bind pop (\<lambda>value.
     let shift = ToUint64 shiftWord; shiftBig = ToBigInt shiftWord in
     if isUint64 shiftWord \<and> shift < 64 \<and> isUint64 value then
       push (NewWordFromUint64 (drop_bit (unat shift) (ToUint64 value)))
     else pushBigInt (Some (if shiftBig \<ge> 256 then 0 else drop_bit (nat shiftBig) (ToBigInt value)))))"

definition opSar :: "('s Environment, unit) op" where
  "opSar = bind pop (\<lambda>shiftWord. bind pop (\<lambda>value.
     let shift = ToUint64 shiftWord in
     if isUint64 shiftWord \<and> shift < 64 \<and> isUint64 value \<and> Word_Bytes value ! 24 < 0x80 then
       push (NewWordFromUint64 (signed_drop_bit (unat shift) (ToUint64 value)))
     else
       let shiftBig = ToBigInt shiftWord;
           valueSigned = toSigned (ToBigInt value);
           result = (if shiftBig \<ge> 256 then if valueSigned \<ge> 0 then 0 else - 1
                     else drop_bit (nat shiftBig) valueSigned) in
       pushBigInt (Some (result AND maxUint256))))"

definition opByte :: "('s Environment, unit) op" where
  "opByte = bind pop (\<lambda>index. bind pop (\<lambda>value.
     if \<not> isUint64 index then pushUint64 0
     else
       let idx = ToUint64 index in
       if idx \<ge> 32 then pushUint64 0
       else pushUint64 (ucast (Word_Bytes value ! unat idx))))"

section \<open>Word operations on the stack\<close>

text \<open>What the handlers are to be: a function of the topmost words replaces them.\<close>

definition unop :: "(Word \<Rightarrow> Word) \<Rightarrow> ('s Environment, unit) op" where
  "unop f = bind pop (\<lambda>a. push (f a))"

definition binop :: "(Word \<Rightarrow> Word \<Rightarrow> Word) \<Rightarrow> ('s Environment, unit) op" where
  "binop f = bind pop (\<lambda>a. bind pop (\<lambda>b. push (f a b)))"

definition ternop :: "(Word \<Rightarrow> Word \<Rightarrow> Word \<Rightarrow> Word) \<Rightarrow> ('s Environment, unit) op" where
  "ternop f = bind pop (\<lambda>a. bind pop (\<lambda>b. bind pop (\<lambda>c. push (f a b c))))"

section \<open>Words that fit 64 bits\<close>

lemma maxUint256_mask: "maxUint256 = mask 256"
  by (simp add: maxUint256_def mask_eq_exp_minus_1)

lemma bigMaxUint256Plus1_eq: "bigMaxUint256Plus1 = 2 ^ 256"
  by (simp add: bigMaxUint256Plus1_def)

lemma arr_of_8_eq_0: "length bs = 8 \<Longrightarrow> (arr_of bs :: u64) = 0 \<longleftrightarrow> big_SetBytes bs = 0"
  using uint_arr_of [of bs, where 'l = 64] by (simp add: word_uint_eq_iff)

lemma list_split_8:
  assumes "length xs = 32"
  shows "xs = ((slice xs 0 8 @ slice xs 8 16) @ slice xs 16 24) @ slice xs 24 32"
proof -
  have t: "take i xs @ take 8 (drop i xs) = take (i + 8) xs" for i by (simp only: take_add)
  show ?thesis using assms t [of 8] t [of 16] t [of 24] by (simp add: slice_def)
qed

lemma digits_less_iff:
  fixes a b c d M :: int
  assumes "0 \<le> a" "0 \<le> b" "0 \<le> c" "0 \<le> d" "d < M"
  shows "((a * M + b) * M + c) * M + d < M \<longleftrightarrow> a = 0 \<and> b = 0 \<and> c = 0"
proof -
  have low: "x * M + d < M \<longleftrightarrow> x = 0" if "0 \<le> x" for x
  proof
    assume less: "x * M + d < M"
    show "x = 0"
    proof (rule ccontr)
      assume "x \<noteq> 0"
      with that assms have "1 * M \<le> x * M" by (intro mult_right_mono) simp_all
      with less assms show False by simp
    qed
  qed (use assms in simp)
  have zero: "x * M + y = 0 \<longleftrightarrow> x = 0 \<and> y = 0" if "0 \<le> x" "0 \<le> y" for x y
    using that assms by (auto simp: add_nonneg_eq_0_iff)
  show ?thesis using assms by (simp add: low zero)
qed

lemma isUint64_iff: "isUint64 w \<longleftrightarrow> uint w < 2 ^ 64"
proof -
  let ?s = "\<lambda>i. big_SetBytes (slice (Word_Bytes w) i (i + 8))"
  have len: "length (slice (Word_Bytes w) i (i + 8)) = 8" if "i \<le> 24" for i
    using that by (simp add: length_slice)
  have "uint w = big_SetBytes (Word_Bytes w)" using ToBigInt_uint [of w] by (simp only: ToBigInt_def)
  also have "\<dots> = ((?s 0 * 2 ^ 64 + ?s 8) * 2 ^ 64 + ?s 16) * 2 ^ 64 + ?s 24"
    by (subst list_split_8) (simp_all add: big_SetBytes_append length_slice)
  finally have w: "uint w = ((?s 0 * 2 ^ 64 + ?s 8) * 2 ^ 64 + ?s 16) * 2 ^ 64 + ?s 24" .
  have s24: "?s 24 < 2 ^ 64" using big_SetBytes_less [of "slice (Word_Bytes w) 24 (24 + 8)"] len [of 24] by simp
  have nn: "0 \<le> ?s i" for i by simp
  have "isUint64 w \<longleftrightarrow> ?s 0 = 0 \<and> ?s 8 = 0 \<and> ?s 16 = 0"
    using len [of 0] len [of 8] len [of 16] by (simp add: isUint64_def arr_of_8_eq_0)
  with w show ?thesis
    by (simp only: digits_less_iff [OF nn nn nn nn s24])
qed

lemma isUint64E:
  assumes "isUint64 w"
  obtains x :: u64 where "w = ucast x"
proof
  have "take_bit 64 (uint w) = uint w" using assms by (simp add: isUint64_iff take_bit_int_eq_self)
  then show "w = ucast (ucast w :: u64)"
    by (simp add: word_uint_eq_iff unsigned_ucast_eq unsigned_take_bit_eq)
qed

lemma isUint64_ucast [simp]: "isUint64 (ucast (x :: u64))"
  using uint_lt2p [of x] by (simp add: isUint64_iff unsigned_ucast_eq take_bit_int_eq_self)

lemma ucast_u64_of_nat: "(ucast (x :: u64) :: Word) = of_nat (unat x)"
  by (simp add: word_unat_eq_iff unsigned_ucast_eq unsigned_of_nat)

lemma ucast_down_up [simp]: "(ucast (ucast (x :: u64) :: Word) :: u64) = x"
  by (rule bit_eqI) (auto simp: bit_simps)

section \<open>The slow paths\<close>

lemma NewWordFromBigInt_masked: "NewWordFromBigInt (Some (v AND maxUint256)) = word_of_int v"
proof -
  have "v AND maxUint256 = take_bit 256 v" by (simp add: maxUint256_mask take_bit_eq_mask)
  then show ?thesis
    by (simp add: NewWordFromBigInt_Some word_of_int_eq_iff)
qed

lemma NewWordFromBigInt_nonneg: "0 \<le> v \<Longrightarrow> NewWordFromBigInt (Some v) = word_of_int v"
  by (simp add: NewWordFromBigInt_Some)

lemma word_of_int_plus_2p256: "(word_of_int (v + bigMaxUint256Plus1) :: Word) = word_of_int v"
  by (simp add: bigMaxUint256Plus1_eq word_of_int_eq_iff take_bit_eq_mod)

lemma toSigned_uint: "toSigned (uint (w :: Word)) = sint w"
proof -
  have "bit (uint w) 255 \<longleftrightarrow> bit w 255" by (simp add: bit_uint_iff bit_imp_le_length)
  moreover have "sint w = signed_take_bit 255 (uint w)" by (simp add: sint_uint)
  ultimately show ?thesis
    using uint_lt2p [of w]
    by (simp add: toSigned_def bigMaxUint256Plus1_eq signed_take_bit_eq_take_bit_minus take_bit_int_eq_self)
qed

lemma word_of_int_fromSigned: "(word_of_int (fromSigned v) :: Word) = word_of_int v"
  by (cases "v < 0") (simp_all only: fromSigned_def word_of_int_plus_2p256 if_True if_False)

lemma NewWordFromBigInt_fromSigned:
  assumes "- (2 ^ 256) \<le> v"
  shows "NewWordFromBigInt (Some (fromSigned v)) = word_of_int v"
proof -
  have "0 \<le> fromSigned v" using assms by (simp add: fromSigned_def bigMaxUint256Plus1_eq)
  then show ?thesis by (simp only: NewWordFromBigInt_nonneg word_of_int_fromSigned)
qed

lemma big_Exp_eq: "0 < m \<Longrightarrow> big_Exp x y m = x ^ y mod m"
proof (induction x y m rule: big_Exp.induct)
  case (1 x y m)
  show ?case
  proof (cases "y = 0")
    case False
    have sq: "(x * x mod m) ^ (y div 2) mod m = (x * x) ^ (y div 2) mod m" by (rule power_mod)
    have "x ^ y = (x * x) ^ (y div 2) * x ^ (y mod 2)"
      by (metis mult_div_mod_eq power_add power_mult power2_eq_square)
    then have "x ^ y mod m = (if odd y then x * ((x * x) ^ (y div 2)) mod m else (x * x) ^ (y div 2) mod m)"
      by (simp add: odd_iff_mod_2_eq_one mult.commute)
    then show ?thesis using "1.IH" [OF False "1.prems"] False sq
      by (subst big_Exp.simps) (simp add: Let_def mod_mult_right_eq)
  qed (simp add: big_Exp.simps)
qed

section \<open>The handlers are the word operations\<close>

lemma pushUint64_push: "pushUint64 v = push (ucast v)"
  by (simp add: Stack_PushUint64_def)

lemma pushBigInt_push: "pushBigInt v = push (NewWordFromBigInt v)"
  by (simp add: Stack_PushBigInt_def)

lemma popBigInt_pop: "bind popBigInt k = bind pop (\<lambda>a. k (uint a))"
  by (rule ext) (simp add: Stack_PopBigInt_def op_simps split: prod.split sum.split)

lemma popUint64_pop: "bind popUint64 k = bind pop (\<lambda>a. k (ucast a))"
  by (rule ext) (simp add: Stack_PopUint64_def op_simps split: prod.split sum.split)

lemmas stack_words = pushUint64_push pushBigInt_push popBigInt_pop popUint64_pop

lemma bind_cong: "(\<And>a. k a = l a) \<Longrightarrow> bind m k = bind m l"
  by (drule ext) simp

lemma unopI: "(\<And>a. k a = push (f a)) \<Longrightarrow> bind pop (\<lambda>a. k a) = unop f"
  unfolding unop_def by (intro bind_cong)

lemma binopI:
  assumes "\<And>a b. isUint64 a \<and> isUint64 b \<Longrightarrow> k a b = push (f a b)"
    and "\<And>a b. \<not> (isUint64 a \<and> isUint64 b) \<Longrightarrow> k a b = push (f a b)"
  shows "bind pop (\<lambda>a. bind pop (\<lambda>b. k a b)) = binop f"
  unfolding binop_def by (intro bind_cong) (use assms in blast)

lemma ternopI:
  "(\<And>a b c. k a b c = push (f a b c)) \<Longrightarrow> bind pop (\<lambda>a. bind pop (\<lambda>b. bind pop (\<lambda>c. k a b c))) = ternop f"
  unfolding ternop_def by (intro bind_cong)

lemma uint_ucast_Word: "uint (ucast (x :: u64) :: Word) = uint x"
  using uint_lt2p [of x] by (simp add: unsigned_ucast_eq take_bit_int_eq_self)

lemma unat_ucast_Word: "unat (ucast (x :: u64) :: Word) = unat x"
  by (simp only: unat_eq_nat_uint uint_ucast_Word)

lemma ucast_Word_eq_0: "(ucast (x :: u64) :: Word) = 0 \<longleftrightarrow> x = 0"
  using uint_ucast_Word [of x] by (simp add: word_uint_eq_iff)

lemma ucast_add: "x \<le> x + y \<Longrightarrow> (ucast (x + y :: u64) :: Word) = ucast x + ucast y"
proof -
  assume "x \<le> x + y"
  then have "unat x + unat y < 18446744073709551616" using add_wraps_iff [of x y] by (simp only: not_le [symmetric] not_less) blast
  then show ?thesis by (simp only: ucast_u64_of_nat unat_add64_id of_nat_add)
qed

lemma ucast_sub: "y \<le> x \<Longrightarrow> (ucast (x - y :: u64) :: Word) = ucast x - ucast y"
  by (simp only: ucast_u64_of_nat unat_sub64 word_le_nat_alt of_nat_diff)

lemma ucast_mul:
  assumes "y \<noteq> 0" and "x \<le> MaxUint64 div y"
  shows "(ucast (x * y :: u64) :: Word) = ucast x * ucast y"
proof -
  have "0 < unat y" using assms(1) by (simp add: unat_gt_0)
  moreover have "unat x \<le> unat MaxUint64 div unat y" using assms(2) by (simp only: word_le_nat_alt unat_div64)
  ultimately have "unat x * unat y \<le> unat MaxUint64" by (simp only: less_eq_div_iff_mult_less_eq)
  then have "unat x * unat y < 18446744073709551616" by simp
  then show ?thesis by (simp only: ucast_u64_of_nat unat_mult64_id of_nat_mult)
qed

lemma ucast_div: "(ucast (x div y :: u64) :: Word) = ucast x div ucast y"
  by (simp only: word_unat_eq_iff unat_ucast_Word unat_div_distrib)

lemma ucast_mod: "(ucast (x mod y :: u64) :: Word) = ucast x mod ucast y"
  by (simp only: word_unat_eq_iff unat_ucast_Word unat_mod_distrib)

lemma slow_add: "NewWordFromBigInt (Some ((uint a + uint b) AND maxUint256)) = a + b"
  by (simp add: NewWordFromBigInt_masked)

lemma slow_sub:
  "NewWordFromBigInt (Some ((if uint a - uint b < 0 then uint a - uint b + bigMaxUint256Plus1 else uint a - uint b) AND maxUint256)) = a - b"
proof -
  have "(word_of_int (if uint a - uint b < 0 then uint a - uint b + bigMaxUint256Plus1 else uint a - uint b) :: Word)
      = word_of_int (uint a - uint b)"
    by (cases "uint a - uint b < 0") (simp_all only: word_of_int_plus_2p256 if_True if_False)
  then show ?thesis by (simp add: NewWordFromBigInt_masked)
qed

lemma slow_mul: "NewWordFromBigInt (Some ((uint a * uint b) AND maxUint256)) = a * b"
  by (simp add: NewWordFromBigInt_masked)

lemma slow_div: "NewWordFromBigInt (Some (uint a div uint b)) = a div b"
  by (subst NewWordFromBigInt_nonneg) (simp_all add: word_div_def div_int_pos_iff)

lemma slow_mod: "NewWordFromBigInt (Some (uint a mod uint b)) = a mod b"
  by (subst NewWordFromBigInt_nonneg) (simp_all add: word_mod_def, cases "uint b = 0", simp_all add: less_le)

lemma uint_Word_eq_0: "uint (a :: Word) = 0 \<longleftrightarrow> a = 0"
  by (simp add: word_uint_eq_iff)

lemmas fast_path = ucast_add ucast_sub ucast_mul ucast_div ucast_mod ucast_Word_eq_0
lemmas slow_path = slow_add slow_sub slow_mul slow_div slow_mod uint_Word_eq_0

lemma opAdd_word: "opAdd = binop (+)"
  unfolding opAdd_def
proof (rule binopI, goal_cases)
  case (1 a b)
  then obtain x y :: u64 where "a = ucast x" "b = ucast y" by (auto elim!: isUint64E)
  then show ?case by (simp add: Let_def stack_words slow_path fast_path)
next
  case (2 a b)
  then show ?case by (auto simp: Let_def stack_words slow_path)
qed

lemma opSub_word: "opSub = binop (-)"
  unfolding opSub_def
proof (rule binopI, goal_cases)
  case (1 a b)
  then obtain x y :: u64 where "a = ucast x" "b = ucast y" by (auto elim!: isUint64E)
  then show ?case by (simp only: Let_def stack_words slow_path fast_path ToBigInt_uint ToUint64_ucast ucast_down_up NewWordFromUint64_ucast isUint64_ucast simp_thms if_True cong: if_cong split: if_split)
next
  case (2 a b)
  then show ?case by (simp only: Let_def stack_words slow_path ToBigInt_uint if_False)
qed

lemma opMul_word: "opMul = binop (*)"
  unfolding opMul_def
proof (rule binopI, goal_cases)
  case (1 a b)
  then obtain x y :: u64 where "a = ucast x" "b = ucast y" by (auto elim!: isUint64E)
  then show ?case by (simp add: Let_def stack_words slow_path fast_path)
next
  case (2 a b)
  then show ?case by (auto simp: Let_def stack_words slow_path)
qed

lemma opDiv_word: "opDiv = binop (div)"
  unfolding opDiv_def
proof (rule binopI, goal_cases)
  case (1 a b)
  then obtain x y :: u64 where "a = ucast x" "b = ucast y" by (auto elim!: isUint64E)
  then show ?case by (simp add: Let_def stack_words fast_path)
next
  case (2 a b)
  then show ?case
    by (cases "b = 0") (simp_all only: stack_words slow_path ToBigInt_uint if_False if_True NewWordFromUint64_ucast unsigned_0 div_by_0 simp_thms)
qed

lemma opMod_word: "opMod = binop (\<lambda>a b. if b = 0 then 0 else a mod b)"
  unfolding opMod_def
proof (rule binopI, goal_cases)
  case (1 a b)
  then obtain x y :: u64 where "a = ucast x" "b = ucast y" by (auto elim!: isUint64E)
  then show ?case by (simp add: Let_def stack_words fast_path)
next
  case (2 a b)
  then show ?case
    by (cases "b = 0") (simp_all only: stack_words slow_path ToBigInt_uint if_False if_True NewWordFromUint64_ucast unsigned_0 div_by_0 simp_thms)
qed

lemma binop_plainI: "(\<And>a b. k a b = push (f a b)) \<Longrightarrow> bind pop (\<lambda>a. bind pop (\<lambda>b. k a b)) = binop f"
  unfolding binop_def by (intro bind_cong)

lemma mod_Word_nonneg: "0 \<le> x \<Longrightarrow> 0 \<le> x mod uint (n :: Word)"
  by (cases "uint n = 0") (simp_all add: less_le)

lemma opAddMod_word:
  "opAddMod = ternop (\<lambda>a b n. if n = 0 then 0 else word_of_int ((uint a + uint b) mod uint n))"
  unfolding opAddMod_def stack_words
proof (rule ternopI, goal_cases)
  case (1 a b c)
  have "0 \<le> (uint a + uint b) mod uint c" by (rule mod_Word_nonneg) simp
  then show ?case
    by (cases "c = 0") (simp_all only: uint_Word_eq_0 if_True if_False NewWordFromBigInt_nonneg simp_thms unsigned_0, simp)
qed

lemma opMulMod_word:
  "opMulMod = ternop (\<lambda>a b n. if n = 0 then 0 else word_of_int ((uint a * uint b) mod uint n))"
  unfolding opMulMod_def stack_words
proof (rule ternopI, goal_cases)
  case (1 a b c)
  have "0 \<le> (uint a * uint b) mod uint c" by (rule mod_Word_nonneg) simp
  then show ?case
    by (cases "c = 0") (simp_all only: uint_Word_eq_0 if_True if_False NewWordFromBigInt_nonneg simp_thms unsigned_0, simp)
qed

lemma expBytes_bound: "(big_BitLen (uint (b :: Word)) + 7) div 8 \<le> 32"
proof -
  have "big_BitLen (uint b) \<le> 256" using uint_lt2p [of b] by (simp add: big_BitLen_le_iff)
  then show ?thesis by linarith
qed

lemma exp_gas: "n \<le> 32 \<Longrightarrow> SafeMulGas (of_nat n) GasExpByte = Inr (of_nat n * GasExpByte)"
proof -
  assume "n \<le> 32"
  then have "unat (of_nat n :: u64) = n" by (simp add: unat_of_nat)
  with \<open>n \<le> 32\<close> have "unat (of_nat n :: u64) * unat GasExpByte < 18446744073709551616"
    by (simp add: GasExpByte_def)
  then show ?thesis by (simp add: SafeMulGas_spec)
qed

lemma NewWord_Exp: "NewWordFromBigInt (Some (big_Exp (uint a) (nat (uint b)) bigMaxUint256Plus1)) = a ^ unat b"
proof -
  have "big_Exp (uint a) (nat (uint b)) bigMaxUint256Plus1 = take_bit 256 (uint a ^ unat b)"
    by (simp only: big_Exp_eq bigMaxUint256Plus1_eq zero_less_power zero_less_numeral take_bit_eq_mod unat_eq_nat_uint)
  moreover have "(word_of_int (take_bit 256 k) :: Word) = word_of_int k" for k by (simp add: word_of_int_eq_iff)
  ultimately show ?thesis by (simp add: NewWordFromBigInt_nonneg)
qed

lemma opExp_word:
  "opExp = bind pop (\<lambda>a. bind pop (\<lambda>b.
     bind (consume (of_nat ((big_BitLen (uint b) + 7) div 8) * 50)) (\<lambda>_. push (a ^ unat b))))"
  unfolding opExp_def stack_words
  by (intro bind_cong, simp only: Let_def exp_gas [OF expBytes_bound] sum.case NewWord_Exp)
     (simp only: GasExpByte_def)

text \<open>Truncated division: the quotient and the remainder, with the sign of the dividend.\<close>

lemma big_Quo_Rem: "big_Quo x y * y + big_Rem x y = x"
proof -
  have "\<bar>x\<bar> div \<bar>y\<bar> * \<bar>y\<bar> + \<bar>x\<bar> mod \<bar>y\<bar> = \<bar>x\<bar>" by (rule div_mult_mod_eq)
  then have "sgn x * (\<bar>x\<bar> div \<bar>y\<bar> * \<bar>y\<bar> + \<bar>x\<bar> mod \<bar>y\<bar>) = x" by (simp add: sgn_mult_abs)
  then show ?thesis by (simp add: big_Quo_def big_Rem_def algebra_simps abs_sgn)
qed

lemma abs_big_Quo_le: "\<bar>big_Quo x y\<bar> \<le> \<bar>x\<bar>"
proof (cases "y = 0 \<or> x = 0")
  case False
  then have "\<bar>big_Quo x y\<bar> = \<bar>x\<bar> div \<bar>y\<bar>"
    by (simp add: big_Quo_def abs_mult pos_imp_zdiv_nonneg_iff)
  moreover have "1 \<le> \<bar>y\<bar>" using False by linarith
  ultimately show ?thesis using zdiv_mono2 [of "\<bar>x\<bar>" 1 "\<bar>y\<bar>"] by simp
qed (auto simp: big_Quo_def)

lemma abs_big_Rem_le: "\<bar>big_Rem x y\<bar> \<le> \<bar>x\<bar>"
proof (cases "y = 0 \<or> x = 0")
  case False
  then have "\<bar>big_Rem x y\<bar> = \<bar>x\<bar> mod \<bar>y\<bar>" by (simp add: big_Rem_def abs_mult)
  with False show ?thesis by (simp add: zmod_le_nonneg_dividend)
qed (auto simp: big_Rem_def sgn_mult_abs)

lemma abs_sint_Word: "\<bar>sint (a :: Word)\<bar> \<le> 2 ^ 255"
  using sint_ge [of a] sint_lt [of a] by (simp add: abs_le_iff)

lemma signed_result:
  assumes "\<bar>v\<bar> \<le> \<bar>sint (a :: Word)\<bar>"
  shows "NewWordFromBigInt (Some (fromSigned v)) = word_of_int v"
proof (rule NewWordFromBigInt_fromSigned)
  have "\<bar>v\<bar> \<le> 2 ^ 255" using assms abs_sint_Word [of a] by (rule order_trans)
  then show "- (2 ^ 256) \<le> v" by simp
qed

lemma min_word: "(arr_of (0x80 # replicate 31 0) :: Word) = word_of_int (2 ^ 255)"
  by (simp add: arr_of_def big_SetBytes_Cons)

lemma big_Quo_min: "big_Quo (- push_bit 255 1) (- 1) = 2 ^ 255"
  by (simp add: big_Quo_def push_bit_eq_mult)

lemma opSDiv_word: "opSDiv = binop (\<lambda>a b. if b = 0 then 0 else word_of_int (big_Quo (sint a) (sint b)))"
  unfolding opSDiv_def
proof (rule binop_plainI, goal_cases)
  case (1 a b)
  show ?case
  proof (cases "sint a = - push_bit 255 1 \<and> sint b = - 1")
    case True
    then have "b \<noteq> 0" by auto
    with True show ?thesis
      by (simp only: Let_def Word_IsZero_iff ToBigInt_uint toSigned_uint if_True if_False simp_thms min_word big_Quo_min)
  next
    case False
    then show ?thesis
      by (cases "b = 0") (simp_all only: Let_def Word_IsZero_iff ToBigInt_uint toSigned_uint if_True if_False simp_thms
        stack_words signed_result [OF abs_big_Quo_le] NewWordFromUint64_ucast unsigned_0)
  qed
qed

lemma opSMod_word: "opSMod = binop (\<lambda>a b. if b = 0 then 0 else word_of_int (big_Rem (sint a) (sint b)))"
  unfolding opSMod_def
proof (rule binop_plainI, goal_cases)
  case (1 a b)
  show ?case
    by (cases "b = 0") (simp_all only: Let_def Word_IsZero_iff ToBigInt_uint toSigned_uint if_True if_False simp_thms
        stack_words signed_result [OF abs_big_Rem_le] NewWordFromUint64_ucast unsigned_0)
qed

subsection \<open>Comparisons\<close>

lemma ucast_less: "(ucast (x :: u64) :: Word) < ucast y \<longleftrightarrow> x < y"
  by (simp only: word_less_nat_alt unat_ucast_Word)

lemma push_flag: "(if c then pushUint64 1 else pushUint64 0) = push (if c then 1 else 0)"
  by (simp add: stack_words)

lemma opLt_word: "opLt = binop (\<lambda>a b. if a < b then 1 else 0)"
  unfolding opLt_def push_flag
proof (rule binopI, goal_cases)
  case (1 a b)
  then obtain x y :: u64 where "a = ucast x" "b = ucast y" by (auto elim!: isUint64E)
  then show ?case by (simp add: ucast_less)
next
  case (2 a b)
  then show ?case by (simp only: if_False ToBigInt_uint word_less_def)
qed

lemma opGt_word: "opGt = binop (\<lambda>a b. if a > b then 1 else 0)"
  unfolding opGt_def push_flag
proof (rule binopI, goal_cases)
  case (1 a b)
  then obtain x y :: u64 where "a = ucast x" "b = ucast y" by (auto elim!: isUint64E)
  then show ?case by (simp add: ucast_less)
next
  case (2 a b)
  then show ?case by (simp only: if_False ToBigInt_uint word_less_def)
qed

lemma opEq_word: "opEq = binop (\<lambda>a b. if a = b then 1 else 0)"
  unfolding opEq_def push_flag by (rule binop_plainI) simp

lemma opIsZero_word: "opIsZero = unop (\<lambda>a. if a = 0 then 1 else 0)"
  unfolding opIsZero_def push_flag by (rule unopI) simp

lemma bit_Word_Bytes: "k < 32 \<Longrightarrow> j < 8 \<Longrightarrow> bit (Word_Bytes w ! k) j \<longleftrightarrow> bit w (8 * (31 - k) + j)"
  by (auto simp: Word_Bytes_def WordSize_def nth_arr_bytes bit_simps)

lemma top_byte:
  fixes k :: int
  assumes "0 \<le> k" "k < 2 ^ 64"
  shows "k div 2 ^ 56 mod 256 = k div 2 ^ 56" and "k div 2 ^ 56 < 128 \<longleftrightarrow> k < 2 ^ 63"
proof -
  define q r where "q = k div 2 ^ 56" and "r = k mod 2 ^ 56"
  have k: "k = q * 2 ^ 56 + r" by (simp only: q_def r_def div_mult_mod_eq)
  have r: "0 \<le> r" "r < 2 ^ 56" by (simp_all add: r_def)
  have "0 \<le> q" "q < 256" using k r assms by simp_all
  then show "k div 2 ^ 56 mod 256 = k div 2 ^ 56" by (simp only: q_def [symmetric] mod_pos_pos_trivial)
  have "q < 128 \<longleftrightarrow> k < 2 ^ 63" using k r by simp linarith
  then show "k div 2 ^ 56 < 128 \<longleftrightarrow> k < 2 ^ 63" by (simp only: q_def)
qed

lemma sign_byte: "Word_Bytes (ucast (x :: u64)) ! 24 < 0x80 \<longleftrightarrow> uint x < 2 ^ 63"
proof -
  have "Word_Bytes (ucast x) ! 24 = ucast (drop_bit 56 (ucast x :: Word))"
    by (simp add: Word_Bytes_def WordSize_def nth_arr_bytes)
  then have "uint (Word_Bytes (ucast x) ! 24) = uint x div 2 ^ 56 mod 256"
    by (simp only: uint_byte_at uint_ucast_Word)
  also have "\<dots> = uint x div 2 ^ 56" using uint_lt2p [of x] by (intro top_byte) simp_all
  finally have "Word_Bytes (ucast x) ! 24 < 0x80 \<longleftrightarrow> uint x div 2 ^ 56 < 128" by (simp add: word_less_def)
  moreover have "uint x div 2 ^ 56 < 128 \<longleftrightarrow> uint x < 2 ^ 63"
    using uint_lt2p [of x] by (intro top_byte) simp_all
  ultimately show ?thesis by blast
qed

lemma signed_take_bit_nonneg: "0 \<le> k \<Longrightarrow> k < 2 ^ n \<Longrightarrow> signed_take_bit n k = (k :: int)"
  by (rule signed_take_bit_int_eq_self) (simp_all add: order_trans [of "- (2 ^ n)" 0])

lemma sint_u64_small: "uint (x :: u64) < 2 ^ 63 \<Longrightarrow> sint x = uint x"
  by (simp add: sint_uint signed_take_bit_nonneg)

lemma sint_ucast_Word: "sint (ucast (x :: u64) :: Word) = uint x"
proof -
  have "sint (ucast x :: Word) = signed_take_bit 255 (uint x)" by (simp add: sint_uint uint_ucast_Word)
  then show ?thesis using uint_lt2p [of x] by (simp add: signed_take_bit_nonneg)
qed

lemma fast_sint:
  assumes "isUint64 a" and "Word_Bytes a ! 24 < 0x80"
  shows "sint (ToUint64 a) = sint a"
proof -
  obtain x :: u64 where a: "a = ucast x" using assms(1) by (rule isUint64E)
  with assms(2) have "uint x < 2 ^ 63" by (simp only: sign_byte)
  then show ?thesis using a by (simp add: sint_u64_small sint_ucast_Word)
qed

lemma opSlt_word: "opSlt = binop (\<lambda>a b. if sint a < sint b then 1 else 0)"
  unfolding opSlt_def push_flag
  by (rule binop_plainI) (simp only: fast_sint ToBigInt_uint toSigned_uint if_cancel cong: if_cong)

lemma opSgt_word: "opSgt = binop (\<lambda>a b. if sint a > sint b then 1 else 0)"
  unfolding opSgt_def push_flag
  by (rule binop_plainI) (simp only: fast_sint ToBigInt_uint toSigned_uint if_cancel cong: if_cong)

subsection \<open>Bitwise operations\<close>

lemma arr_of_eqI:
  assumes "length bs = 32" and "\<And>k. k < 32 \<Longrightarrow> bs ! k = Word_Bytes w ! k"
  shows "arr_of bs = w"
proof -
  have "bs = Word_Bytes w" using assms by (simp add: list_eq_iff_nth_eq)
  then show ?thesis using NewWord_Word_Bytes [of w] by (simp only: NewWord_arr_of)
qed

lemma opAnd_word: "opAnd = binop (AND)"
  unfolding opAnd_def
  by (rule binop_plainI, rule arg_cong [where f = push], rule arr_of_eqI)
     (auto simp: WordSize_def bit_eq_iff bit_Word_Bytes bit_simps)

lemma opOr_word: "opOr = binop (OR)"
  unfolding opOr_def
  by (rule binop_plainI, rule arg_cong [where f = push], rule arr_of_eqI)
     (auto simp: WordSize_def bit_eq_iff bit_Word_Bytes bit_simps)

lemma opXor_word: "opXor = binop (XOR)"
  unfolding opXor_def
  by (rule binop_plainI, rule arg_cong [where f = push], rule arr_of_eqI)
     (auto simp: WordSize_def bit_eq_iff bit_Word_Bytes bit_simps)

lemma opNot_word: "opNot = unop NOT"
  unfolding opNot_def
  by (rule unopI, rule arg_cong [where f = push], rule arr_of_eqI)
     (auto simp: WordSize_def bit_eq_iff bit_Word_Bytes bit_simps)

lemma word_of_int_push_bit: "(word_of_int (push_bit n (uint v)) :: Word) = push_bit n v"
  using push_bit_of_int [of n "uint v", where 'a = Word] by simp

lemma word_of_int_drop_bit: "(word_of_int (drop_bit n (uint v)) :: Word) = drop_bit n v"
proof -
  have "uint (drop_bit n v) = drop_bit n (uint v)" 
    using uint_lt2p [of v] by (simp add: unsigned_drop_bit_eq take_bit_int_eq_self)
  then show ?thesis using word_of_int_uint [of "drop_bit n v"] by (simp only:)
qed

lemma word_of_int_sdrop_bit: "(word_of_int (drop_bit n (sint v)) :: Word) = signed_drop_bit n v"
  by (simp add: sint_signed_drop_bit_eq [symmetric])

lemma push_bit_big: "256 \<le> n \<Longrightarrow> push_bit n (v :: Word) = 0"
  by (rule bit_eqI) (auto simp: bit_simps)

lemma drop_bit_big: "256 \<le> n \<Longrightarrow> drop_bit n (v :: Word) = 0"
  by (rule bit_eqI) (auto simp: bit_simps dest: bit_imp_le_length)

lemma drop_bit_sint_big: "256 \<le> n \<Longrightarrow> drop_bit n (sint (v :: Word)) = (if sint v \<ge> 0 then 0 else - 1)"
proof -
  assume n: "256 \<le> n"
  have "(2 :: int) ^ 255 < 2 ^ n" using n by (intro power_strict_increasing) simp_all
  then have "\<bar>sint v\<bar> < 2 ^ n" using abs_sint_Word [of v] by linarith
  then have "sint v div 2 ^ n = - 1" if "sint v < 0"
    using that div_add_self2 [of "2 ^ n" "sint v"] div_pos_pos_trivial [of "sint v + 2 ^ n" "2 ^ n"] by simp
  with \<open>\<bar>sint v\<bar> < 2 ^ n\<close> show ?thesis by (auto simp: drop_bit_eq_div div_pos_pos_trivial not_le)
qed

lemma nat_uint_Word: "nat (uint (w :: Word)) = unat w"
  by (simp only: unat_eq_nat_uint)

lemma shift_big_iff: "uint (w :: Word) \<ge> 256 \<longleftrightarrow> 256 \<le> unat w"
  using of_nat_le_iff [of 256 "unat w", where 'a = int] by (simp del: of_nat_le_iff)

lemma push_bit_ucast:
  assumes "n < 64" and "0 < n \<longrightarrow> drop_bit (64 - n) x = 0"
  shows "(ucast (push_bit n (x :: u64)) :: Word) = push_bit n (ucast x)"
proof (rule bit_eqI)
  fix m assume "possible_bit TYPE(Word) m"
  then have m: "m < 256" by simp
  have lost: "\<not> bit x (m - n)" if "64 \<le> m"
  proof (cases "n = 0")
    case True
    then show ?thesis using that by (auto dest: bit_imp_le_length)
  next
    case False
    then have "\<not> bit (drop_bit (64 - n) x) (m - 64)" using assms by simp
    moreover have "64 - n + (m - 64) = m - n" using that assms(1) by linarith
    ultimately show ?thesis by (simp add: bit_simps)
  qed
  show "bit (ucast (push_bit n x) :: Word) m = bit (push_bit n (ucast x :: Word)) m"
    using m lost by (cases "m < 64") (auto simp: bit_simps not_less)
qed

lemma drop_bit_ucast: "(ucast (drop_bit n (x :: u64)) :: Word) = drop_bit n (ucast x)"
  by (rule bit_eqI) (auto simp: bit_simps dest: bit_imp_le_length)

lemma opShl_word: "opShl = binop (\<lambda>s v. push_bit (unat s) v)"
  unfolding opShl_def
proof (rule binop_plainI, goal_cases)
  case (1 a b)
  have slow: "NewWordFromBigInt (Some (if uint a \<ge> 256 then 0 else push_bit (nat (uint a)) (uint b) AND maxUint256)) = push_bit (unat a) b"
    by (cases "256 \<le> uint a")
       (simp_all only: if_True if_False NewWordFromBigInt_masked word_of_int_push_bit nat_uint_Word, simp_all add: shift_big_iff push_bit_big NewWordFromBigInt_nonneg)
  show ?case
  proof (cases "isUint64 a \<and> ToUint64 a < 64 \<and> isUint64 b \<and> \<not> (ToUint64 a > 0 \<and> drop_bit (unat (64 - ToUint64 a)) (ToUint64 b) \<noteq> 0)")
    case True
    then obtain x y :: u64 where xy: "a = ucast x" "b = ucast y" by (auto elim!: isUint64E)
    with True have x: "x < 64" and d: "0 < x \<longrightarrow> drop_bit (unat (64 - x)) y = 0" by auto
    then have "unat (64 - x) = 64 - unat x" by (simp add: unat_sub64 order_less_imp_le)
    with x d have "(ucast (push_bit (unat x) y) :: Word) = push_bit (unat x) (ucast y)"
      by (intro push_bit_ucast) (auto simp: word_less_nat_alt)
    then show ?thesis using True xy by (simp only: Let_def) (auto simp: unat_ucast_Word)
  next
    case False
    then show ?thesis by (simp only: Let_def stack_words ToBigInt_uint slow) auto
  qed
qed

lemma opShr_word: "opShr = binop (\<lambda>s v. drop_bit (unat s) v)"
  unfolding opShr_def
proof (rule binop_plainI, goal_cases)
  case (1 a b)
  have slow: "NewWordFromBigInt (Some (if uint a \<ge> 256 then 0 else drop_bit (nat (uint a)) (uint b))) = drop_bit (unat a) b"
    by (cases "256 \<le> uint a")
       (simp_all add: NewWordFromBigInt_nonneg word_of_int_drop_bit nat_uint_Word shift_big_iff drop_bit_big)
  show ?case
  proof (cases "isUint64 a \<and> ToUint64 a < 64 \<and> isUint64 b")
    case True
    then obtain x y :: u64 where xy: "a = ucast x" "b = ucast y" by (auto elim!: isUint64E)
    with True show ?thesis by (simp add: Let_def unat_ucast_Word drop_bit_ucast)
  next
    case False
    then show ?thesis by (simp only: Let_def stack_words ToBigInt_uint slow) auto
  qed
qed

lemma sdrop_fast:
  assumes "uint (x :: u64) < 2 ^ 63"
  shows "(ucast (signed_drop_bit n x) :: Word) = signed_drop_bit n (ucast x)"
proof -
  have "uint (drop_bit n x) = drop_bit n (uint x)"
    using uint_lt2p [of x] by (simp add: unsigned_drop_bit_eq take_bit_int_eq_self)
  moreover have "sint (signed_drop_bit n x) = drop_bit n (uint x)"
    by (simp only: sint_signed_drop_bit_eq sint_u64_small [OF assms])
  moreover have "word_of_int (sint (signed_drop_bit n x)) = signed_drop_bit n x" by simp
  ultimately have "signed_drop_bit n x = drop_bit n x"
    using word_of_int_uint [of "drop_bit n x"] by (simp only:)
  then have "ucast (signed_drop_bit n x) = drop_bit n (ucast x :: Word)" by (simp only: drop_bit_ucast)
  also have "\<dots> = word_of_int (drop_bit n (uint x))"
    using word_of_int_drop_bit [of n "ucast x"] by (simp only: uint_ucast_Word)
  also have "\<dots> = signed_drop_bit n (ucast x)"
    using word_of_int_sdrop_bit [of n "ucast x"] by (simp only: sint_ucast_Word)
  finally show ?thesis .
qed

lemma opSar_word: "opSar = binop (\<lambda>s v. signed_drop_bit (unat s) v)"
  unfolding opSar_def
proof (rule binop_plainI, goal_cases)
  case (1 a b)
  have slow: "NewWordFromBigInt (Some ((if uint a \<ge> 256 then if sint b \<ge> 0 then 0 else - 1
      else drop_bit (nat (uint a)) (sint b)) AND maxUint256)) = signed_drop_bit (unat a) b"
  proof (cases "256 \<le> uint a")
    case True
    then have "256 \<le> unat a" by (simp only: shift_big_iff)
    then have "(if sint b \<ge> 0 then 0 else - 1) = drop_bit (unat a) (sint b)" by (simp only: drop_bit_sint_big)
    with True show ?thesis by (simp only: if_True NewWordFromBigInt_masked word_of_int_sdrop_bit)
  next
    case False
    then show ?thesis by (simp only: if_False NewWordFromBigInt_masked word_of_int_sdrop_bit nat_uint_Word)
  qed
  show ?case
  proof (cases "isUint64 a \<and> ToUint64 a < 64 \<and> isUint64 b \<and> Word_Bytes b ! 24 < 0x80")
    case True
    then obtain x y :: u64 where xy: "a = ucast x" "b = ucast y" by (auto elim!: isUint64E)
    with True have "uint y < 2 ^ 63" by (simp only: sign_byte)
    with True xy show ?thesis by (simp add: Let_def unat_ucast_Word sdrop_fast)
  next
    case False
    then show ?thesis by (simp only: Let_def stack_words ToBigInt_uint toSigned_uint slow if_False)
  qed
qed

lemma byte_of_Word: "k < 32 \<Longrightarrow> (ucast (ucast (Word_Bytes w ! k) :: u64) :: Word) = drop_bit (8 * (31 - k)) w AND 0xFF"
proof -
  assume k: "k < 32"
  have full: "(0xFF :: Word) = mask 8" by (simp add: mask_eq_exp_minus_1)
  show ?thesis unfolding full using k
    by (simp add: Word_Bytes_def WordSize_def nth_arr_bytes del: mask_numeral) (rule bit_eqI, auto simp: bit_simps simp del: mask_numeral)
qed

lemma opByte_word: "opByte = binop (\<lambda>i w. if i < 32 then drop_bit (8 * (31 - unat i)) w AND 0xFF else 0)"
  unfolding opByte_def
proof (rule binop_plainI, goal_cases)
  case (1 a b)
  show ?case
  proof (cases "isUint64 a")
    case True
    then obtain x :: u64 where x: "a = ucast x" by (rule isUint64E)
    have "a < 32 \<longleftrightarrow> x < 32" using ucast_less [of x 32] x by simp
    with x show ?thesis
      by (auto simp: Let_def stack_words unat_ucast_Word byte_of_Word word_less_nat_alt not_less word_le_nat_alt)
  next
    case False
    then have "\<not> a < 32" by (auto simp: isUint64_iff word_less_def)
    with False show ?thesis by (simp add: stack_words)
  qed
qed

lemma foldl_fill: "n \<le> length xs \<Longrightarrow> foldl (\<lambda>r j. r[j := f]) xs [0..<n] = replicate n f @ drop n xs"
proof (induction n)
  case (Suc n)
  then have "drop n xs = xs ! n # drop (Suc n) xs" by (simp add: Cons_nth_drop_Suc)
  with Suc show ?case by (simp add: list_update_append replicate_append_same [symmetric] del: Cons_nth_drop_Suc)
qed simp

lemma sign_extend_bytes:
  assumes "k < 31"
  shows "arr_of (replicate (31 - k) (if bit x (8 * k + 7) then 0xFF else 0) @ drop (31 - k) (Word_Bytes x))
       = signed_take_bit (8 * k + 7) x"
proof (rule arr_of_eqI)
  fix j :: nat assume j: "j < 32"
  have full: "(0xFF :: byte) = - 1" by simp
  show "(replicate (31 - k) (if bit x (8 * k + 7) then 0xFF else 0) @ drop (31 - k) (Word_Bytes x)) ! j
      = Word_Bytes (signed_take_bit (8 * k + 7) x) ! j"
  proof (rule bit_eqI)
    fix m assume "possible_bit TYPE(byte) m"
    then have m: "m < 8" by simp
    show "bit ((replicate (31 - k) (if bit x (8 * k + 7) then 0xFF else 0) @ drop (31 - k) (Word_Bytes x)) ! j) m
        = bit (Word_Bytes (signed_take_bit (8 * k + 7) x) ! j) m"
    proof (cases "j < 31 - k")
      case True
      then have "8 * k + 7 \<le> 8 * (31 - j) + m" and "8 * (31 - j) + m < 256" using m by linarith+
      with True j m assms show ?thesis unfolding full
        by (simp add: nth_append bit_Word_Bytes bit_signed_take_bit_iff min_def)
    next
      case False
      then have "8 * (31 - j) + m \<le> 8 * k + 7" using j m by linarith
      with False j m assms show ?thesis
        by (simp add: nth_append bit_Word_Bytes bit_signed_take_bit_iff min_def)
    qed
  qed
qed (use assms in simp)

lemma opSignExtend_word: "opSignExtend = binop (\<lambda>k x. if k < 31 then signed_take_bit (8 * unat k + 7) x else x)"
  unfolding opSignExtend_def
proof (rule binop_plainI, goal_cases)
  case (1 a b)
  show ?case
  proof (cases "a < 31")
    case True
    then have "isUint64 a" by (auto simp: isUint64_iff word_less_def)
    then obtain x :: u64 where x: "a = ucast x" by (rule isUint64E)
    have x31: "x < 31" using ucast_less [of x 31] x True by simp
    then have u: "unat (31 - x) = 31 - unat x" and n: "unat x < 31"
      by (simp_all add: unat_sub64 order_less_imp_le word_less_nat_alt)
    have nx: "\<not> 31 \<le> x" using x31 by (simp only: not_le)
    have bit: "(Word_Bytes b ! (31 - unat x)) AND 0x80 \<noteq> 0 \<longleftrightarrow> bit b (8 * unat x + 7)"
    proof -
      have "(0x80 :: byte) = push_bit 7 1" by simp
      then have "(Word_Bytes b ! (31 - unat x)) AND 0x80 \<noteq> 0 \<longleftrightarrow> bit (Word_Bytes b ! (31 - unat x)) 7"
        by (simp only: and_exp_eq_0_iff_not_bit push_bit_eq_mult mult_1 simp_thms)
      then show ?thesis using n by (simp add: bit_Word_Bytes)
    qed
    show ?thesis
      using x nx True n sign_extend_bytes [OF n, of b]
      by (simp add: Let_def u bit foldl_fill unat_ucast_Word cong: if_cong)
  next
    case False
    have "31 \<le> ToUint64 a" if "isUint64 a"
    proof -
      obtain x :: u64 where "a = ucast x" using \<open>isUint64 a\<close> by (rule isUint64E)
      then show ?thesis using ucast_less [of x 31] False by simp
    qed
    with False show ?thesis by (simp add: Let_def)
  qed
qed

lemmas arith_words = opAdd_word opSub_word opMul_word opDiv_word opMod_word opSDiv_word opSMod_word
  opAddMod_word opMulMod_word opExp_word opSignExtend_word

lemmas compare_words = opLt_word opGt_word opSlt_word opSgt_word opEq_word opIsZero_word

lemmas bit_words = opAnd_word opOr_word opXor_word opNot_word opShl_word opShr_word opSar_word opByte_word

lemma Stack_Pop_nonempty: "xs \<noteq> [] \<Longrightarrow> Stack_Pop xs = (Inr (last xs), butlast xs)"
  by (simp add: Stack_Pop_def last_conv_nth butlast_conv_take)

lemma run_binop:
  assumes "env_stack e = xs @ [b, a]" and "length xs < MaxStackSize"
  shows "binop f e = (Inr (), e\<lparr>env_stack := xs @ [f a b]\<rparr>)"
  using assms by (simp add: binop_def op_simps Stack_Pop_nonempty butlast_append Stack_Push_def)

section \<open>Properties\<close>

text \<open>C23: The arithmetic handlers, with their 64-bit fast paths and their detour through
  unbounded integers, are the operations of 256-bit words: sum, difference and product modulo
  \<open>2^256\<close>, quotient and remainder (zero for a zero divisor) unsigned and truncated-signed, the
  exact intermediate result for \<open>ADDMOD\<close> and \<open>MULMOD\<close>, sign extension from byte \<open>k\<close>, and the
  power after a charge of 50 gas for every byte of the exponent.\<close>

theorem arithmetic_handlers:
  "opAdd = binop (+) \<and> opSub = binop (-) \<and> opMul = binop (*) \<and>
   opDiv = binop (\<lambda>a b. if b = 0 then 0 else a div b) \<and>
   opMod = binop (\<lambda>a b. if b = 0 then 0 else a mod b) \<and>
   opSDiv = binop (\<lambda>a b. if b = 0 then 0 else word_of_int (sgn (sint a) * sgn (sint b) * (\<bar>sint a\<bar> div \<bar>sint b\<bar>))) \<and>
   opSMod = binop (\<lambda>a b. if b = 0 then 0 else word_of_int (sgn (sint a) * (\<bar>sint a\<bar> mod \<bar>sint b\<bar>))) \<and>
   opAddMod = ternop (\<lambda>a b n. if n = 0 then 0 else word_of_int ((uint a + uint b) mod uint n)) \<and>
   opMulMod = ternop (\<lambda>a b n. if n = 0 then 0 else word_of_int ((uint a * uint b) mod uint n)) \<and>
   opSignExtend = binop (\<lambda>k x. if k < 31 then signed_take_bit (8 * unat k + 7) x else x) \<and>
   opExp = bind pop (\<lambda>a. bind pop (\<lambda>b.
     bind (consume (of_nat ((big_BitLen (uint b) + 7) div 8) * 50)) (\<lambda>_. push (a ^ unat b))))"
proof -
  have "(\<lambda>a b :: Word. if b = 0 then 0 else a div b) = (div)" by (intro ext) simp
  then show ?thesis by (simp only: arith_words big_Quo_def big_Rem_def simp_thms)
qed

text \<open>C31: The comparison handlers push 1 or 0 as the unsigned, the two's complement or the
  equality test of the two words says, on every operand and whichever path they take.\<close>

theorem comparison_handlers:
  "opLt = binop (\<lambda>a b. if a < b then 1 else 0) \<and> opGt = binop (\<lambda>a b. if a > b then 1 else 0) \<and>
   opSlt = binop (\<lambda>a b. if sint a < sint b then 1 else 0) \<and> opSgt = binop (\<lambda>a b. if sint a > sint b then 1 else 0) \<and>
   opEq = binop (\<lambda>a b. if a = b then 1 else 0) \<and> opIsZero = unop (\<lambda>a. if a = 0 then 1 else 0)"
  by (simp only: compare_words simp_thms)

text \<open>C30: The bitwise handlers, which work byte by byte or through unbounded integers, are the
  operations of 256-bit words; a shift by 256 or more gives zero (or all sign bits), also for a
  shift operand whose low 64 bits are small.\<close>

theorem bitwise_handlers:
  "opAnd = binop (AND) \<and> opOr = binop (OR) \<and> opXor = binop (XOR) \<and> opNot = unop NOT \<and>
   opShl = binop (\<lambda>s v. push_bit (unat s) v) \<and> opShr = binop (\<lambda>s v. drop_bit (unat s) v) \<and>
   opSar = binop (\<lambda>s v. signed_drop_bit (unat s) v) \<and>
   opByte = binop (\<lambda>i w. if i < 32 then drop_bit (8 * (31 - unat i)) w AND 0xFF else 0)"
  by (simp only: bit_words simp_thms)

end
