(* ===== verification/QVM_Data_Ops.thy ===== *)
theory QVM_Data_Ops
  imports QVM_Arith_Ops
begin

text \<open>
  The handlers of \<open>src/qvm/operations.go\<close>, \<open>operations_missing.go\<close> and \<open>opcodes_extended.go\<close>
  that push immediates and context values, read and write memory, copy call data, return data and
  code, hash, log, return and revert, and the Kyber handlers. \<open>fmt.Errorf\<close> messages are kept as
  the string of \<open>Errorf\<close>, without the numbers they print.
\<close>

section \<open>Push and context\<close>

definition opPush :: "OpCode \<Rightarrow> ('s Environment, unit) op" where
  "opPush opc = (let sz = PushSize opc in
     if sz = 0 then fail ErrInvalidOpcode
     else bind (gets env_pc) (\<lambda>start. bind (gets (\<lambda>e. ctx_Code (env_ctx e))) (\<lambda>code.
       let end0 = start + of_nat sz;
           end1 = (if end0 > ulen code then ulen code else end0);
           data = (if start < ulen code then slice code (unat start) (unat end1) else []);
           data = (if length data < sz then go_copy (replicate sz 0) (sz - length data) data else data)
       in bind (modify (\<lambda>e. e\<lparr>env_pc := end1\<rparr>)) (\<lambda>_. push (NewWord data)))))"

definition opAddress :: "('s Environment, unit) op" where
  "opAddress = bind (gets (\<lambda>e. ctx_Address (env_ctx e))) (\<lambda>a. push (arr_of (go_copy (replicate WordSize 0) 12 (arr_bytes 20 a))))"

definition opCaller :: "('s Environment, unit) op" where
  "opCaller = bind (gets (\<lambda>e. ctx_Caller (env_ctx e))) (\<lambda>a. push (arr_of (go_copy (replicate WordSize 0) 12 (arr_bytes 20 a))))"

definition opOrigin :: "('s Environment, unit) op" where
  "opOrigin = bind (gets (\<lambda>e. ctx_Origin (env_ctx e))) (\<lambda>a. push (NewWord (arr_bytes 20 a)))"

definition opCoinbase :: "('s Environment, unit) op" where
  "opCoinbase = bind (gets (\<lambda>e. ctx_Coinbase (env_ctx e))) (\<lambda>a. push (NewWord (arr_bytes 20 a)))"

definition opCallValue :: "('s Environment, unit) op" where
  "opCallValue = bind (gets (\<lambda>e. ctx_Value (env_ctx e))) pushBigInt"

definition opGasPrice :: "('s Environment, unit) op" where
  "opGasPrice = bind (gets (\<lambda>e. ctx_GasPrice (env_ctx e))) (\<lambda>v. push (NewWordFromBigInt v))"

definition opGasLimit :: "('s Environment, unit) op" where
  "opGasLimit = bind (gets (\<lambda>e. ctx_GasLimit (env_ctx e))) pushUint64"

definition opPrevRandao :: "('s Environment, unit) op" where
  "opPrevRandao = bind (gets (\<lambda>e. ctx_PrevRandao (env_ctx e))) (\<lambda>h. push (NewWord (arr_bytes 32 h)))"

definition opBlobBaseFee :: "('s Environment, unit) op" where
  "opBlobBaseFee = bind (gets (\<lambda>e. ctx_BlobBaseFee (env_ctx e))) pushUint64"

definition opBaseFee :: "('s Environment, unit) op" where
  "opBaseFee = bind (gets (\<lambda>e. ctx_BaseFee (env_ctx e))) pushUint64"

definition opBlobHash :: "('s Environment, unit) op" where
  "opBlobHash = bind popUint64 (\<lambda>index. bind (gets (\<lambda>e. ctx_BlobHashes (env_ctx e))) (\<lambda>hashes.
     if index \<ge> ulen hashes then push (NewWordFromUint64 0)
     else push (NewWord (arr_bytes 32 (hashes ! unat index)))))"

definition opBlockHash :: "('s Environment, unit) op" where
  "opBlockHash = bind popUint64 (\<lambda>blockNum. bind (gets (\<lambda>e. ctx_BlockNumber (env_ctx e))) (\<lambda>currentBlock.
     if blockNum \<ge> currentBlock \<or> currentBlock - blockNum > 256 then push (NewWord (replicate 32 0))
     else bind (gets (getBlockHash blockNum)) (\<lambda>h. push (NewWord (arr_bytes 32 h)))))"

definition opCodeSize :: "('s Environment, unit) op" where
  "opCodeSize = bind (gets env_ctx) (\<lambda>c.
     let codeLen = (case ctx_OriginalCode c of None \<Rightarrow> ulen (ctx_Code c) | Some oc \<Rightarrow> ulen oc)
     in pushUint64 codeLen)"

definition opCallDataLoad :: "('s Environment, unit) op" where
  "opCallDataLoad = bind popUint64 (\<lambda>offset. bind (gets (\<lambda>e. ctx_Input (env_ctx e))) (\<lambda>data.
     let w = (if offset < ulen data then
                let end1 = (if offset > MaxUint64 - 32 then ulen data
                            else if offset + 32 > ulen data then ulen data else offset + 32)
                in go_copy (replicate WordSize 0) 0 (slice data (unat offset) (unat end1))
              else replicate WordSize 0)
     in push (arr_of w)))"

section \<open>Memory\<close>

definition memSize :: "'s Environment \<Rightarrow> u64" where
  "memSize e = Memory_Size (env_memory e)"

definition opMLoad :: "('s Environment, unit) op" where
  "opMLoad = bind popUint64 (\<lambda>offset.
     let newSize = offset + 32 in
     if newSize < offset then fail ErrMemoryOverflow
     else bind (gets memSize) (\<lambda>sz. bind (consume (MemoryExpansionCost sz newSize)) (\<lambda>_.
       bind (on_memory (Memory_GetPtr offset 32)) (\<lambda>data. push (NewWord data)))))"

definition opMStore :: "('s Environment, unit) op" where
  "opMStore = bind popUint64 (\<lambda>offset. bind pop (\<lambda>value.
     let newSize = offset + 32 in
     if newSize < offset then fail ErrMemoryOverflow
     else bind (gets memSize) (\<lambda>sz. bind (consume (MemoryExpansionCost sz newSize)) (\<lambda>_.
       on_memory (Memory_Set32 offset value)))))"

definition opMStore8 :: "('s Environment, unit) op" where
  "opMStore8 = bind popUint64 (\<lambda>offset. bind pop (\<lambda>value.
     let newSize = offset + 1 in
     if newSize < offset then fail ErrMemoryOverflow
     else bind (gets memSize) (\<lambda>sz. bind (consume (MemoryExpansionCost sz newSize)) (\<lambda>_.
       on_memory (Memory_SetByte offset (Word_Bytes value ! 31))))))"

definition opMCopy :: "('s Environment, unit) op" where
  "opMCopy = bind popUint64 (\<lambda>dest. bind popUint64 (\<lambda>src. bind popUint64 (\<lambda>sz.
     if sz = 0 then ret ()
     else if dest > MaxUint64 - sz \<or> src > MaxUint64 - sz then fail (Errorf ''MCOPY offset overflow'')
     else bind (gets memSize) (\<lambda>msize.
       let expansionCost = MemoryExpansionCost msize (max (dest + sz) (src + sz)) in
       case SafeAddGas sz 31 of Inl _ \<Rightarrow> fail (Errorf ''size overflow in MCOPY gas calculation'') | Inr words \<Rightarrow>
       case SafeMulGas (words div 32) GasMemoryCopy of Inl _ \<Rightarrow> fail (Errorf ''copy gas overflow in MCOPY'') | Inr copyCost \<Rightarrow>
       case SafeAddGas expansionCost copyCost of Inl _ \<Rightarrow> fail (Errorf ''MCOPY gas cost overflow'') | Inr totalCost \<Rightarrow>
       bind (consume totalCost) (\<lambda>_. bind (on_memory (Memory_Get src sz)) (\<lambda>data. on_memory (Memory_Set dest data)))))))"

text \<open>The part of a source slice that a copy of \<open>sz\<close> bytes from \<open>offset\<close> takes, padded with
  zeros: \<open>data := make([]byte, size)\<close> and the clamped \<open>copy\<close> behind it.\<close>

definition padded :: "byte list \<Rightarrow> u64 \<Rightarrow> u64 \<Rightarrow> byte list" where
  "padded src offset sz =
     (let data = replicate (unat sz) 0 in
      if offset < ulen src then
        let end1 = (if offset + sz > ulen src then ulen src else offset + sz)
        in go_copy data 0 (slice src (unat offset) (unat end1))
      else data)"

definition opCallDataCopy :: "('s Environment, unit) op" where
  "opCallDataCopy = bind popUint64 (\<lambda>dest. bind popUint64 (\<lambda>offset. bind popUint64 (\<lambda>sz.
     if sz = 0 then ret ()
     else if dest > MaxUint64 - sz \<or> offset > MaxUint64 - sz then fail (Errorf ''CALLDATACOPY offset overflow'')
     else bind (gets memSize) (\<lambda>msize.
       let expansionCost = MemoryExpansionCost msize (dest + sz) in
       case SafeAddGas sz 31 of Inl _ \<Rightarrow> fail (Errorf ''size overflow in CALLDATACOPY gas calculation'') | Inr words \<Rightarrow>
       case SafeMulGas GasCopy (words div 32) of Inl _ \<Rightarrow> fail (Errorf ''copy gas overflow in CALLDATACOPY'') | Inr copyGas \<Rightarrow>
       case SafeAddGas expansionCost copyGas of Inl _ \<Rightarrow> fail (Errorf ''gas cost overflow'') | Inr totalCopyCost \<Rightarrow>
       bind (consume totalCopyCost) (\<lambda>_. bind (gets (\<lambda>e. ctx_Input (env_ctx e))) (\<lambda>input.
         on_memory (Memory_Set dest (padded input offset sz))))))))"

definition opReturnDataCopy :: "('s Environment, unit) op" where
  "opReturnDataCopy = bind popUint64 (\<lambda>dest. bind popUint64 (\<lambda>offset. bind popUint64 (\<lambda>sz.
     if sz = 0 then ret ()
     else bind (gets env_returnData) (\<lambda>rdata.
       if dest > MaxUint64 - sz \<or> offset > MaxUint64 - sz then fail (Errorf ''RETURNDATACOPY offset overflow'')
       else if offset + sz > ulen rdata then fail (Errorf ''RETURNDATACOPY out of bounds'')
       else bind (gets memSize) (\<lambda>msize.
         let expansionCost = MemoryExpansionCost msize (dest + sz) in
         case SafeAddGas sz 31 of Inl _ \<Rightarrow> fail (Errorf ''size overflow in RETURNDATACOPY gas calculation'') | Inr words \<Rightarrow>
         case SafeMulGas GasCopy (words div 32) of Inl _ \<Rightarrow> fail (Errorf ''copy gas overflow in RETURNDATACOPY'') | Inr copyGas \<Rightarrow>
         case SafeAddGas expansionCost copyGas of Inl _ \<Rightarrow> fail (Errorf ''gas cost overflow'') | Inr totalCopyCost \<Rightarrow>
         bind (consume totalCopyCost) (\<lambda>_.
           on_memory (Memory_Set dest (go_copy (replicate (unat sz) 0) 0 (slice rdata (unat offset) (unat (offset + sz)))))))))))"

definition opCodeCopy :: "('s Environment, unit) op" where
  "opCodeCopy = bind popUint64 (\<lambda>dest. bind popUint64 (\<lambda>offset. bind popUint64 (\<lambda>sz.
     if sz = 0 then ret ()
     else if dest > MaxUint64 - sz \<or> offset > MaxUint64 - sz then fail (Errorf ''CODECOPY offset overflow'')
     else bind (gets memSize) (\<lambda>msize.
       let expansionCost = MemoryExpansionCost msize (dest + sz) in
       if sz > MaxUint64 - 31 then fail (Errorf ''CODECOPY size overflow'')
       else let words = (sz + 31) div 32 in
       case SafeMulGas GasCopy words of Inl _ \<Rightarrow> fail (Errorf ''CODECOPY copy gas overflow'') | Inr copyGas \<Rightarrow>
       case SafeAddGas expansionCost copyGas of Inl _ \<Rightarrow> fail (Errorf ''gas cost overflow'') | Inr totalCopyCost \<Rightarrow>
       bind (consume totalCopyCost) (\<lambda>_. bind (gets env_ctx) (\<lambda>c.
         let sourceCode = (case ctx_OriginalCode c of None \<Rightarrow> ctx_Code c | Some oc \<Rightarrow> oc)
         in on_memory (Memory_Set dest (padded sourceCode offset sz))))))))"

section \<open>Hash, log, return, revert\<close>

definition opSHA3 :: "'s Interpreter \<Rightarrow> ('s Environment, unit) op" where
  "opSHA3 i = bind popUint64 (\<lambda>offset. bind popUint64 (\<lambda>sz.
     let newSize = offset + sz in
     if newSize < offset then fail ErrMemoryOverflow
     else bind (gets memSize) (\<lambda>msize. bind (consume (MemoryExpansionCost msize newSize)) (\<lambda>_.
       case SafeAddGas sz 31 of Inl _ \<Rightarrow> fail (Errorf ''size overflow in SHA3 gas calculation'') | Inr sha3Words \<Rightarrow>
       bind (lift_res (SafeMulGas (sha3Words div 32) GasSHA3Word)) (\<lambda>gasCost. bind (consume gasCost) (\<lambda>_.
         bind (on_memory (Memory_Get offset sz)) (\<lambda>data. push (NewWord (arr_bytes 32 (i_keccak256 i data))))))))))"

text \<open>The common beginning of \<open>RETURN\<close> and \<open>REVERT\<close>: charge the expansion and take the bytes.\<close>

definition takeReturnData :: "u64 \<Rightarrow> u64 \<Rightarrow> ('s Environment, unit) op" where
  "takeReturnData offset sz =
     bind (if sz > 0 then
             let newSize = offset + sz in
             if newSize < offset then fail ErrMemoryOverflow
             else bind (gets memSize) (\<lambda>msize. consume (MemoryExpansionCost msize newSize))
           else ret ()) (\<lambda>_.
     if sz > 0 then bind (on_memory (Memory_Get offset sz)) (\<lambda>data. modify (\<lambda>e. e\<lparr>env_returnData := data\<rparr>))
     else ret ())"

definition opReturn :: "('s Environment, unit) op" where
  "opReturn = bind popUint64 (\<lambda>offset. bind popUint64 (\<lambda>sz.
     bind (takeReturnData offset sz) (\<lambda>_. modify (\<lambda>e. e\<lparr>env_stopped := True\<rparr>))))"

definition opRevert :: "('s Environment, unit) op" where
  "opRevert = bind popUint64 (\<lambda>offset. bind popUint64 (\<lambda>sz.
     bind (takeReturnData offset sz) (\<lambda>_.
       modify (\<lambda>e. e\<lparr>env_stopped := True, env_reverted := True, env_err := Some ErrExecutionReverted\<rparr>))))"

fun pop_topics :: "nat \<Rightarrow> ('s Environment, Hash list) op" where
  "pop_topics 0 = ret []"
| "pop_topics (Suc n) = bind pop (\<lambda>t. bind (pop_topics n) (\<lambda>ts. ret (t # ts)))"

definition opLog :: "nat \<Rightarrow> ('s Environment, unit) op" where
  "opLog numTopics = bind (gets (\<lambda>e. ctx_ReadOnly (env_ctx e))) (\<lambda>ro.
     if ro then fail ErrWriteProtection
     else bind popUint64 (\<lambda>offset. bind popUint64 (\<lambda>sz.
       case SafeMulGas GasLogTopic (of_nat numTopics) of Inl _ \<Rightarrow> fail (Errorf ''gas overflow in LOG operation (topic cost)'') | Inr topicGas \<Rightarrow>
       case SafeMulGas GasLogData sz of Inl _ \<Rightarrow> fail (Errorf ''gas overflow in LOG operation (data cost)'') | Inr dataGas \<Rightarrow>
       case SafeAddGas topicGas dataGas of Inl _ \<Rightarrow> fail (Errorf ''gas overflow in LOG operation (total)'') | Inr dynamicGas \<Rightarrow>
       bind (if sz > 0 then
               if offset > MaxUint64 - sz then fail (Errorf ''LOG offset overflow'')
               else bind (gets memSize) (\<lambda>msize. consume (MemoryExpansionCost msize (offset + sz)))
             else ret ()) (\<lambda>_.
       bind (on_memory (Memory_Get offset sz)) (\<lambda>data.
       bind (pop_topics numTopics) (\<lambda>topics.
       bind (if dynamicGas > 0 then consume dynamicGas else ret ()) (\<lambda>_.
       modify (\<lambda>e. e\<lparr>env_logs := env_logs e @
         [\<lparr>log_Address = ctx_Address (env_ctx e), log_Topics = topics, log_Data = data\<rparr>]\<rparr>))))))))"

section \<open>Post-quantum key material\<close>

text \<open>Sizes of Kyber-768 keys and ciphertexts, as \<open>src/crypto/kyber.go\<close> fixes them.\<close>

definition KyberPrivateKeySize :: u64 where "KyberPrivateKeySize = 2400"
definition KyberCiphertextSize :: u64 where "KyberCiphertextSize = 1088"

definition opKyberKeyGen :: "('s Environment, unit) op" where
  "opKyberKeyGen = fail ErrNonDeterministicOpcode"

definition opKyberEncaps :: "('s Environment, unit) op" where
  "opKyberEncaps = fail ErrNonDeterministicOpcode"

definition opKyberDecaps :: "'s Interpreter \<Rightarrow> ('s Environment, unit) op" where
  "opKyberDecaps i = bind popUint64 (\<lambda>ciphertextOffset. bind popUint64 (\<lambda>privOffset.
     let readEndPriv = privOffset + KyberPrivateKeySize in
     if readEndPriv < privOffset then fail ErrMemoryOverflow
     else let readEndCipher = ciphertextOffset + KyberCiphertextSize in
     if readEndCipher < ciphertextOffset then fail ErrMemoryOverflow
     else let maxReadEnd = (if readEndCipher > readEndPriv then readEndCipher else readEndPriv) in
     bind (gets memSize) (\<lambda>msize. bind (consume (MemoryExpansionCost msize maxReadEnd)) (\<lambda>_.
     bind (on_memory (Memory_Get privOffset KyberPrivateKeySize)) (\<lambda>privBytes.
     bind (on_memory (Memory_Get ciphertextOffset KyberCiphertextSize)) (\<lambda>ciphertext.
     bind (lift_res (i_decapsulate i privBytes ciphertext)) (\<lambda>sharedKey.
     bind (gets memSize) (\<lambda>sharedKeyOffset.
       if sharedKeyOffset > MaxUint64 - ulen sharedKey then fail ErrOutOfGas
       else bind (gets memSize) (\<lambda>msize.
         bind (consume (MemoryExpansionCost msize (sharedKeyOffset + ulen sharedKey))) (\<lambda>_.
         bind (on_memory (Memory_Set sharedKeyOffset sharedKey)) (\<lambda>_.
         bind (on_memory (Memory_ZeroRange privOffset KyberPrivateKeySize)) (\<lambda>_.
           pushUint64 sharedKeyOffset))))))))))))"

definition opKyberZeroKey :: "('s Environment, unit) op" where
  "opKyberZeroKey = bind popUint64 (\<lambda>sz. bind popUint64 (\<lambda>offset.
     if sz = 0 then ret ()
     else if offset > MaxUint64 - sz then fail ErrOutOfGas
     else bind (gets memSize) (\<lambda>msize.
       let expansionCost = MemoryExpansionCost msize (offset + sz) in
       case SafeAddGas expansionCost (CalculateCopyGas sz) of Inl _ \<Rightarrow> fail ErrOutOfGas | Inr c \<Rightarrow>
       bind (consume c) (\<lambda>_. on_memory (Memory_ZeroRange offset sz)))))"

end
