(* ===== verification/QVM_State_Ops.thy ===== *)
theory QVM_State_Ops
  imports QVM_Data_Ops
begin

text \<open>
  The handlers that read and write the state: storage, transient storage, balances and foreign
  code, self-destruction and the AUTH authorization, from \<open>src/qvm/operations.go\<close>,
  \<open>operations_missing.go\<close> and \<open>opcodes_extended.go\<close>.
\<close>

section \<open>Storage\<close>

text \<open>The cold-slot surcharge at the head of \<open>SLOAD\<close> and \<open>SSTORE\<close>.\<close>

definition touchSlot :: "'s Interpreter \<Rightarrow> Hash \<Rightarrow> ('s Environment, unit) op" where
  "touchSlot i key = bind (gets (\<lambda>e. ctx_Address (env_ctx e))) (\<lambda>addr.
     bind (db_get (SlotInAccessList (i_db i) addr key)) (\<lambda>(_, slotOk).
       if \<not> slotOk then
         bind (consume (GasColdSLoad - GasWarmSLoad)) (\<lambda>_. db_set (AddSlotToAccessList (i_db i) addr key))
       else ret ()))"

definition opSLoad :: "'s Interpreter \<Rightarrow> ('s Environment, unit) op" where
  "opSLoad i = bind pop (\<lambda>key. bind (touchSlot i key) (\<lambda>_.
     bind (gets (\<lambda>e. ctx_Address (env_ctx e))) (\<lambda>addr.
     bind (db_get (GetState (i_db i) addr key)) (\<lambda>value. push (NewWord (arr_bytes 32 value))))))"

text \<open>The gas matrix of \<open>SSTORE\<close>: the cost, and whether the clearing refund is due, from the
  current, the committed (if the state knows it) and the new value.\<close>

definition sstoreGas :: "GasTable \<Rightarrow> Hash \<Rightarrow> Hash option \<Rightarrow> Hash \<Rightarrow> u64 \<times> bool" where
  "sstoreGas t current original value =
     (if current = value then (gt_SLoad t, False)
      else if original \<noteq> None \<and> current \<noteq> the original then (gt_SLoad t, the original \<noteq> 0 \<and> value = 0)
      else if current = 0 then (gt_SStoreSet t, False)
      else if value = 0 then (gt_SStoreReset t, original \<noteq> None \<and> the original \<noteq> 0)
      else (gt_SStoreReset t, False))"

definition opSStore :: "'s Interpreter \<Rightarrow> ('s Environment, unit) op" where
  "opSStore i = bind (gets (\<lambda>e. ctx_ReadOnly (env_ctx e))) (\<lambda>ro.
     if ro then fail ErrWriteProtection
     else bind pop (\<lambda>key. bind pop (\<lambda>value. bind (touchSlot i key) (\<lambda>_.
       bind (gets (\<lambda>e. ctx_Address (env_ctx e))) (\<lambda>addr.
       bind (db_get (GetState (i_db i) addr key)) (\<lambda>current.
       bind (case GetCommittedState (i_db i) of None \<Rightarrow> ret None
             | Some committed \<Rightarrow> bind (db_get (committed addr key)) (\<lambda>v. ret (Some v))) (\<lambda>original.
       let (gasCost, refund) = sstoreGas (i_gasTable i) current original value in
       bind (if refund then modify (\<lambda>e. e\<lparr>env_gas := Refund (gt_SStoreClear (i_gasTable i)) (env_gas e)\<rparr>) else ret ()) (\<lambda>_.
       bind (consume gasCost) (\<lambda>_. db_set (SetState (i_db i) addr key value))))))))))"

text \<open>Transient storage: the map the environment refers to, with its inner maps.\<close>

definition getTransient :: "'s Environment \<Rightarrow> TransientStorage" where
  "getTransient e = sh_transient (env_shared e) ! env_transientStorage e"

definition opTLoad :: "('s Environment, unit) op" where
  "opTLoad = bind pop (\<lambda>key. bind (gets (\<lambda>e. ctx_Address (env_ctx e))) (\<lambda>addr.
     bind (gets getTransient) (\<lambda>ts.
       case ts addr of
         None \<Rightarrow> push (NewWordFromUint64 0)
       | Some slots \<Rightarrow> (case slots key of
           Some v \<Rightarrow> push (NewWord (arr_bytes 32 v))
         | None \<Rightarrow> push (NewWordFromUint64 0)))))"

definition setTransient :: "TransientStorage \<Rightarrow> 's Environment \<Rightarrow> 's Environment" where
  "setTransient ts e =
     e\<lparr>env_shared := (env_shared e)\<lparr>sh_transient := (sh_transient (env_shared e))[env_transientStorage e := ts]\<rparr>\<rparr>"

definition opTStore :: "('s Environment, unit) op" where
  "opTStore = bind (gets (\<lambda>e. ctx_ReadOnly (env_ctx e))) (\<lambda>ro.
     if ro then fail ErrWriteProtection
     else bind pop (\<lambda>key. bind pop (\<lambda>value. modify (\<lambda>e.
       let ts = getTransient e; addr = ctx_Address (env_ctx e);
           slots = (case ts addr of None \<Rightarrow> Map.empty | Some slots \<Rightarrow> slots)
       in setTransient (ts(addr \<mapsto> slots(key \<mapsto> value))) e))))"

section \<open>Accounts\<close>

definition opBalance :: "'s Interpreter \<Rightarrow> ('s Environment, unit) op" where
  "opBalance i = bind pop (\<lambda>addrWord. let addr = wordAddress addrWord in
     bind (db_get (AddressInAccessList (i_db i) addr)) (\<lambda>warm.
     bind (if \<not> warm then
             bind (lift_res (SafeSubGas (gt_BalanceCold (i_gasTable i)) (gt_Balance (i_gasTable i)))) (\<lambda>coldSurcharge.
             bind (consume coldSurcharge) (\<lambda>_. db_set (AddAddressToAccessList (i_db i) addr)))
           else ret ()) (\<lambda>_.
     bind (db_run (GetBalance (i_db i) addr)) (\<lambda>balance. pushBigInt (Some balance)))))"

definition opSelfBalance :: "'s Interpreter \<Rightarrow> ('s Environment, unit) op" where
  "opSelfBalance i = bind (gets (\<lambda>e. ctx_Address (env_ctx e))) (\<lambda>addr.
     bind (db_run (GetBalance (i_db i) addr)) (\<lambda>balance. push (NewWordFromBigInt (Some balance))))"

text \<open>The cold-account surcharge at the head of the \<open>EXTCODE\<close> handlers.\<close>

definition touchAccount :: "'s Interpreter \<Rightarrow> Address \<Rightarrow> ('s Environment, unit) op" where
  "touchAccount i addr = bind (db_get (AddressInAccessList (i_db i) addr)) (\<lambda>warm.
     if \<not> warm then
       bind (lift_res (SafeSubGas GasColdAccountAccess GasWarmAccountAccess)) (\<lambda>extraCost.
       bind (consume extraCost) (\<lambda>_. db_set (AddAddressToAccessList (i_db i) addr)))
     else ret ())"

definition opExtCodeSize :: "'s Interpreter \<Rightarrow> ('s Environment, unit) op" where
  "opExtCodeSize i = bind pop (\<lambda>addrWord. let addr = wordAddress addrWord in
     bind (touchAccount i addr) (\<lambda>_.
     bind (db_get (GetCodeSize (i_db i) addr)) (\<lambda>sz. pushUint64 (of_nat sz))))"

definition opExtCodeCopy :: "'s Interpreter \<Rightarrow> ('s Environment, unit) op" where
  "opExtCodeCopy i = bind pop (\<lambda>addrWord. bind popUint64 (\<lambda>destOffset. bind popUint64 (\<lambda>offset. bind popUint64 (\<lambda>sz.
     let addr = wordAddress addrWord in
     bind (touchAccount i addr) (\<lambda>_.
       if sz = 0 then ret ()
       else if destOffset > MaxUint64 - sz \<or> offset > MaxUint64 - sz then fail (Errorf ''EXTCODECOPY offset overflow'')
       else bind (gets memSize) (\<lambda>msize.
         let expansionCost = MemoryExpansionCost msize (destOffset + sz) in
         if sz > MaxUint64 - 31 then fail (Errorf ''EXTCODECOPY size overflow'')
         else let words = (sz + 31) div 32 in
         if words > MaxUint64 div GasCopy then fail (Errorf ''EXTCODECOPY copy gas overflow'')
         else case SafeMulGas words GasCopy of Inl _ \<Rightarrow> fail (Errorf ''EXTCODECOPY copy gas overflow'') | Inr copyGas \<Rightarrow>
         case SafeAddGas expansionCost copyGas of Inl _ \<Rightarrow> fail (Errorf ''gas cost overflow'') | Inr totalCopyCost \<Rightarrow>
         bind (consume totalCopyCost) (\<lambda>_. bind (db_get (GetCode (i_db i) addr)) (\<lambda>code.
           on_memory (Memory_Set destOffset (padded code offset sz)))))))))) "

definition opExtCodeHash :: "'s Interpreter \<Rightarrow> ('s Environment, unit) op" where
  "opExtCodeHash i = bind pop (\<lambda>addrWord. let addr = wordAddress addrWord in
     bind (touchAccount i addr) (\<lambda>_.
     bind (db_get (Exist (i_db i) addr)) (\<lambda>exists.
       if \<not> exists then push (NewWordFromUint64 0)
       else bind (db_get (GetCodeHash (i_db i) addr)) (\<lambda>h. push (NewWord (arr_bytes 32 h))))))"

section \<open>Self-destruction\<close>

definition stopFrame :: "('s Environment, unit) op" where
  "stopFrame = modify (\<lambda>e. e\<lparr>env_stopped := True\<rparr>)"

text \<open>The part of the handler after the EIP-6780 checks.\<close>

definition destructAccount :: "'s Interpreter \<Rightarrow> Address \<Rightarrow> ('s Environment, unit) op" where
  "destructAccount i beneficiary = bind (gets (\<lambda>e. ctx_Address (env_ctx e))) (\<lambda>addr.
     bind (db_get (Exist (i_db i) beneficiary)) (\<lambda>exists.
     bind (db_run (GetBalance (i_db i) addr)) (\<lambda>balance.
     bind (if \<not> exists \<and> balance > 0 then
             (case SafeAddGas GasSelfDestruct GasSelfDestructNewAccount of Inl _ \<Rightarrow> fail ErrGasOverflow | Inr c \<Rightarrow> ret c)
           else ret GasSelfDestruct) (\<lambda>gasCost.
     bind (consume gasCost) (\<lambda>_.
     bind (db_run (GetBalance (i_db i) addr)) (\<lambda>balance.
     bind (if balance > 0 then
             bind (db_set (SetBalance (i_db i) addr 0)) (\<lambda>_.
             bind (db_run (GetBalance (i_db i) beneficiary)) (\<lambda>beneficiaryBalance.
             db_set (SetBalance (i_db i) beneficiary (beneficiaryBalance + balance))))
           else ret ()) (\<lambda>_.
     bind (db_set (SelfDestruct (i_db i) addr)) (\<lambda>_.
       modify (\<lambda>e. e\<lparr>env_selfDestructed := True, env_selfDestructBeneficiary := beneficiary, env_stopped := True\<rparr>)))))))))"

definition opSelfDestruct :: "'s Interpreter \<Rightarrow> ('s Environment, unit) op" where
  "opSelfDestruct i = bind (gets (\<lambda>e. ctx_ReadOnly (env_ctx e))) (\<lambda>ro.
     if ro then fail ErrWriteProtection
     else bind pop (\<lambda>beneficiaryWord.
       let beneficiary = wordAddress beneficiaryWord in
       bind (gets (\<lambda>e. ctx_Address (env_ctx e))) (\<lambda>addr.
       bind (db_get (HasSelfDestructed (i_db i) addr)) (\<lambda>dead.
       bind (gets (\<lambda>e. addr \<in> sh_selfDestructCleared (env_shared e))) (\<lambda>cleared.
         if dead \<and> \<not> cleared then stopFrame
         else bind (if dead then modify (\<lambda>e. e\<lparr>env_shared := (env_shared e)\<lparr>sh_selfDestructCleared := sh_selfDestructCleared (env_shared e) - {addr}\<rparr>\<rparr>)
                    else ret ()) (\<lambda>_.
         bind (gets (\<lambda>e. addr \<in> sh_txCreatedContracts (env_shared e))) (\<lambda>created.
           if \<not> created then stopFrame
           else bind (PushActiveAddress addr) (\<lambda>pushed.
             if pushed then deferring PopActiveAddress (destructAccount i beneficiary)
             else destructAccount i beneficiary))))))))"

section \<open>Authorization\<close>

text \<open>Every refusal clears the authorization and pushes zero.\<close>

definition authRefused :: "('s Environment, unit) op" where
  "authRefused = bind (modify (\<lambda>e. e\<lparr>env_authorizedAddress := None\<rparr>)) (\<lambda>_. push 0)"

text \<open>The checks on the message: 65 bytes of signature, and a commitment to chain id, nonce and
  contract address.\<close>

definition authMessage :: "'s Interpreter \<Rightarrow> Address \<Rightarrow> byte list \<Rightarrow> ('s Environment, unit) op" where
  "authMessage i authorityAddr msg =
     (let yParity = msg ! 0; rBytes = slice msg 1 33; sBytes = slice msg 33 65; commit = drop 65 msg in
      if length commit < 84 then authRefused
      else
        let commitChainID = (arr_of (slice commit 24 32) :: u64);
            commitAddr = (arr_of (slice commit 64 84) :: Address);
            commitNonce = big_SetBytes (slice commit 32 64) in
        bind (gets env_ctx) (\<lambda>c.
          if commitChainID \<noteq> ctx_ChainID c then authRefused
          else if commitAddr \<noteq> ctx_Address c then authRefused
          else if commitNonce \<ge> 2 ^ 64 then authRefused
          else bind (db_run (GetNonce (i_db i) authorityAddr)) (\<lambda>authorityNonce.
            if (word_of_int commitNonce :: u64) \<noteq> authorityNonce then authRefused
            else case i_recoverSigner i (i_keccak256 i (0x05 # commit)) yParity rBytes sBytes of
              None \<Rightarrow> authRefused
            | Some recoveredAddr \<Rightarrow>
                if recoveredAddr \<noteq> authorityAddr then authRefused
                else bind (db_set (SetNonce (i_db i) authorityAddr (authorityNonce + 1))) (\<lambda>_.
                  bind (modify (\<lambda>e. e\<lparr>env_authorizedAddress := Some authorityAddr\<rparr>)) (\<lambda>_.
                  push (arr_of (go_copy (replicate WordSize 0) 12 (arr_bytes 20 authorityAddr))))))))"

definition opAuth :: "'s Interpreter \<Rightarrow> ('s Environment, unit) op" where
  "opAuth i = bind pop (\<lambda>authority. bind popUint64 (\<lambda>offset. bind popUint64 (\<lambda>len.
     if \<not> i_ecdsaAuthEnabled i then authRefused
     else bind (consume 3000) (\<lambda>_.
       bind (if len > 0 then
               if offset + len < offset then fail ErrMemoryOverflow
               else bind (gets memSize) (\<lambda>msize. consume (MemoryExpansionCost msize (offset + len)))
             else ret ()) (\<lambda>_.
       let authorityAddr = wordAddress authority in
       if authorityAddr = 0 then authRefused
       else bind (gets (\<lambda>e. ctx_ReadOnly (env_ctx e))) (\<lambda>ro.
         if ro then authRefused
         else catch (on_memory (Memory_Get offset len)) (\<lambda>_. authRefused) (\<lambda>msg.
           if length msg < 65 then authRefused else authMessage i authorityAddr msg))))))) "

end
