(* ===== verification/QVM_Calls.thy ===== *)
theory QVM_Calls
  imports QVM_State_Ops
begin

text \<open>
  The handlers that start another frame: \<open>CALL\<close>, \<open>STATICCALL\<close>, \<open>DELEGATECALL\<close> of
  \<open>src/qvm/call.go\<close>, \<open>CALLCODE\<close>, \<open>CREATE\<close>, \<open>CREATE2\<close> of \<open>operations_missing.go\<close>, \<open>AUTHCALL\<close> of
  \<open>opcodes_extended.go\<close>, and \<open>Interpreter.Execute\<close> of \<open>qvm.go\<close>, which sets a frame up. The run of
  the frame they start is the parameter \<open>rn\<close>; \<open>QVM_Frames\<close> ties the knot. The statements that
  several of these functions repeat literally are one definition here.
\<close>

section \<open>Setting a frame up\<close>

type_synonym 's runner = "'s Environment \<Rightarrow> ExecutionResult \<times> 's Environment"

definition parentView :: "'s Environment \<Rightarrow> ParentEnv" where
  "parentView e = \<lparr>pe_activeAddresses = env_activeAddresses e # env_parentEnv e, pe_transientStorage = env_transientStorage e\<rparr>"

text \<open>The head of \<open>Execute\<close>: a root frame owns fresh maps, a child frame shares its parent's.\<close>

definition newFrame :: "ExecutionContext \<Rightarrow> 's Shared \<Rightarrow> 's Environment" where
  "newFrame c sh =
     (let (shared, ref, actives, ancestors) =
        (case ctx_ParentEnv c of
           Some p \<Rightarrow> (sh, pe_transientStorage p, hd (pe_activeAddresses p), pe_activeAddresses p)
         | None \<Rightarrow> (sh\<lparr>sh_transient := sh_transient sh @ [Map.empty], sh_txCreatedContracts := {},
                       sh_selfDestructCleared := {}, sh_reentryCounts := (\<lambda>_. 0)\<rparr>,
                    length (sh_transient sh),
                    (if ctx_Caller c \<noteq> ctx_Address c then [ctx_Caller c] else []), []))
      in snd (PushActiveAddress (ctx_Address c)
        \<lparr>env_ctx = c, env_shared = shared, env_stack = NewStack, env_memory = NewMemory,
         env_gas = NewGasMeter (ctx_Gas c), env_pc = 0, env_jumpDests = jumpDestsOf (ctx_Code c),
         env_logs = [], env_returnData = [], env_stopped = False, env_reverted = False, env_err = None,
         env_callDepth = of_int (ctx_Depth c), env_activeAddresses = actives, env_parentEnv = ancestors,
         env_selfDestructed = False, env_selfDestructBeneficiary = 0, env_blockHashes = ctx_BlockHashes c,
         env_transientStorage = ref, env_authorizedAddress = None, env_pqcKeyRegions = []\<rparr>))"

text \<open>\<open>Execute\<close>: a failed child frame has the shared transient storage restored in place.\<close>

definition Execute :: "'s runner \<Rightarrow> ExecutionContext \<Rightarrow> 's Shared \<Rightarrow> ExecutionResult \<times> 's Shared" where
  "Execute rn c sh =
     (let (result, env) = rn (newFrame c sh); sh' = env_shared env in
      case ctx_ParentEnv c of
        None \<Rightarrow> (result, sh')
      | Some p \<Rightarrow>
          if res_Err result \<noteq> None \<or> res_Reverted result
          then (result, sh'\<lparr>sh_transient := (sh_transient sh')[pe_transientStorage p := sh_transient sh ! pe_transientStorage p]\<rparr>)
          else (result, sh'))"

text \<open>A call of \<open>Execute\<close> from a handler. The context refers to the calling environment, so what
  the child reads of it is what it holds at this point.\<close>

definition executeChild :: "'s runner \<Rightarrow> ExecutionContext \<Rightarrow> ('s Environment, ExecutionResult) op" where
  "executeChild rn c = (\<lambda>e.
     case Execute rn (c\<lparr>ctx_ParentEnv := Some (parentView e)\<rparr>) (env_shared e) of
       (result, sh) \<Rightarrow> (Inr result, e\<lparr>env_shared := sh\<rparr>))"

section \<open>Pieces of the call handlers\<close>

record callArgs =
  ca_gas :: u64
  ca_addr :: Address
  ca_value :: int
  ca_inOffset :: u64
  ca_inSize :: u64
  ca_outOffset :: u64
  ca_outSize :: u64

text \<open>Seven arguments in the order of the EVM or of the QVM (\<open>CALL\<close>, \<open>CALLCODE\<close>, \<open>AUTHCALL\<close>).\<close>

definition popCallArgs :: "('s Environment, callArgs) op" where
  "popCallArgs = bind (gets (\<lambda>e. ctx_EVMCompatible (env_ctx e))) (\<lambda>evm.
     if evm then
       bind pop (\<lambda>gasWord. bind pop (\<lambda>addrWord. bind pop (\<lambda>valueWord. bind pop (\<lambda>inOffsetWord.
       bind pop (\<lambda>inSizeWord. bind pop (\<lambda>outOffsetWord. bind pop (\<lambda>outSizeWord.
         ret \<lparr>ca_gas = ToUint64 gasWord, ca_addr = wordAddress addrWord, ca_value = ToBigInt valueWord,
              ca_inOffset = ToUint64 inOffsetWord, ca_inSize = ToUint64 inSizeWord,
              ca_outOffset = ToUint64 outOffsetWord, ca_outSize = ToUint64 outSizeWord\<rparr>)))))))
     else
       bind pop (\<lambda>outSizeWord. bind pop (\<lambda>outOffsetWord. bind pop (\<lambda>inSizeWord. bind pop (\<lambda>inOffsetWord.
       bind pop (\<lambda>valueWord. bind pop (\<lambda>addrWord. bind pop (\<lambda>gasWord.
         ret \<lparr>ca_gas = ToUint64 gasWord, ca_addr = wordAddress addrWord, ca_value = ToBigInt valueWord,
              ca_inOffset = ToUint64 inOffsetWord, ca_inSize = ToUint64 inSizeWord,
              ca_outOffset = ToUint64 outOffsetWord, ca_outSize = ToUint64 outSizeWord\<rparr>))))))))"

text \<open>Six arguments, without a value (\<open>STATICCALL\<close>, \<open>DELEGATECALL\<close>).\<close>

definition popCallArgs6 :: "('s Environment, callArgs) op" where
  "popCallArgs6 = bind (gets (\<lambda>e. ctx_EVMCompatible (env_ctx e))) (\<lambda>evm.
     if evm then
       bind pop (\<lambda>gasWord. bind pop (\<lambda>addrWord. bind pop (\<lambda>inOffsetWord.
       bind pop (\<lambda>inSizeWord. bind pop (\<lambda>outOffsetWord. bind pop (\<lambda>outSizeWord.
         ret \<lparr>ca_gas = ToUint64 gasWord, ca_addr = wordAddress addrWord, ca_value = 0,
              ca_inOffset = ToUint64 inOffsetWord, ca_inSize = ToUint64 inSizeWord,
              ca_outOffset = ToUint64 outOffsetWord, ca_outSize = ToUint64 outSizeWord\<rparr>))))))
     else
       bind pop (\<lambda>outSizeWord. bind pop (\<lambda>outOffsetWord. bind pop (\<lambda>inSizeWord. bind pop (\<lambda>inOffsetWord.
       bind pop (\<lambda>addrWord. bind pop (\<lambda>gasWord.
         ret \<lparr>ca_gas = ToUint64 gasWord, ca_addr = wordAddress addrWord, ca_value = 0,
              ca_inOffset = ToUint64 inOffsetWord, ca_inSize = ToUint64 inSizeWord,
              ca_outOffset = ToUint64 outOffsetWord, ca_outSize = ToUint64 outSizeWord\<rparr>)))))))"

definition callMemCost :: "callArgs \<Rightarrow> ('s Environment, u64) op" where
  "callMemCost a = bind (gets memSize) (\<lambda>msize.
     bind (if ca_inSize a > 0 then
             if ca_inOffset a + ca_inSize a < ca_inOffset a then fail ErrMemoryOverflow
             else ret (MemoryExpansionCost msize (ca_inOffset a + ca_inSize a))
           else ret 0) (\<lambda>memCost.
     if ca_outSize a > 0 then
       if ca_outOffset a + ca_outSize a < ca_outOffset a then fail ErrMemoryOverflow
       else let outExp = MemoryExpansionCost msize (ca_outOffset a + ca_outSize a)
            in ret (if outExp > memCost then outExp else memCost)
     else ret memCost))"

definition remainingGas :: "'s Environment \<Rightarrow> u64" where
  "remainingGas e = Remaining (env_gas e)"

definition rejectZeroAddrCall :: "'s Interpreter \<Rightarrow> callArgs \<Rightarrow> ('s Environment, unit) op" where
  "rejectZeroAddrCall i a = bind (callMemCost a) (\<lambda>memCost.
     bind (gets remainingGas) (\<lambda>available.
     if available < memCost then fail ErrOutOfGas
     else bind (consume memCost) (\<lambda>_.
       bind (gets remainingGas) (\<lambda>available.
       let (callCost, _) = CalculateCallGas (Some (i_gasTable i)) available (ca_gas a) False False False in
       if callCost > available then pushUint64 0
       else bind (consume callCost) (\<lambda>_. pushUint64 0)))))"

text \<open>The reentrancy guard: a reentered address with code is counted (and the count undone when
  the handler returns) and reserves 2300 gas. The rest of the handler gets the guard gas and the
  gas left.\<close>

definition reentryGuard :: "Address \<Rightarrow> bool \<Rightarrow> u64 \<Rightarrow> (u64 \<Rightarrow> u64 \<Rightarrow> ('s Environment, unit) op) \<Rightarrow> ('s Environment, unit) op" where
  "reentryGuard tracked targetHasCode available k =
     bind (gets (\<lambda>e. targetHasCode \<and> env_callDepth e \<ge> 1 \<and> IsAddressActive tracked e)) (\<lambda>reentry.
       if reentry then
         bind (IncrementReentryCount tracked) (\<lambda>ok.
           if \<not> ok then pushUint64 0
           else deferring (DecrementReentryCount tracked)
             (if available < 2300 then pushUint64 0 else k 2300 (available - 2300)))
       else k 0 available)"

text \<open>The context of a sub-call, with the fields the Go literal leaves out at their zero values.\<close>

definition subContext :: "'s Interpreter \<Rightarrow> 's Environment \<Rightarrow> Address \<Rightarrow> Address \<Rightarrow> Address \<Rightarrow> int option \<Rightarrow> byte list \<Rightarrow> u64 \<Rightarrow> bool \<Rightarrow> ExecutionContext" where
  "subContext i e codeAddr caller addr value input callGas readOnly =
     (let c = env_ctx e; code = GetCode (i_db i) codeAddr (env_db e) in
      \<lparr>ctx_Origin = ctx_Origin c, ctx_GasPrice = ctx_GasPrice c, ctx_Caller = caller, ctx_Address = addr,
       ctx_Value = value, ctx_BlockNumber = ctx_BlockNumber c, ctx_Timestamp = ctx_Timestamp c,
       ctx_Coinbase = ctx_Coinbase c, ctx_GasLimit = ctx_GasLimit c, ctx_ChainID = ctx_ChainID c,
       ctx_BlockHashes = Map.empty, ctx_PrevRandao = ctx_PrevRandao c, ctx_BlobHashes = [],
       ctx_BlobBaseFee = ctx_BlobBaseFee c, ctx_BaseFee = ctx_BaseFee c, ctx_Code = code, ctx_Input = input,
       ctx_OriginalCode = None, ctx_EVMCompatible = isEVMTranslatedCode code, ctx_Gas = callGas,
       ctx_Depth = ctx_Depth c + 1, ctx_ReadOnly = readOnly, ctx_ParentEnv = Some (parentView e)\<rparr>)"

definition copyReturn :: "callArgs \<Rightarrow> byte list \<Rightarrow> ('s Environment, unit) op" where
  "copyReturn a data =
     (if ca_outSize a > 0 \<and> length data > 0 then
        let copySize = (if ulen data < ca_outSize a then ulen data else ca_outSize a)
        in on_memory (Memory_Set (ca_outOffset a) (take (unat copySize) data))
      else ret ())"

definition setReturnData :: "byte list \<Rightarrow> ('s Environment, unit) op" where
  "setReturnData data = modify (\<lambda>e. e\<lparr>env_returnData := data\<rparr>)"

definition returnGas :: "u64 \<Rightarrow> u64 \<Rightarrow> ('s Environment, unit) op" where
  "returnGas callGas used =
     (if used < callGas then modify (\<lambda>e. e\<lparr>env_gas := Return (callGas - used) (env_gas e)\<rparr>) else ret ())"

text \<open>An error that is returned as a value.\<close>

definition attempt :: "('e, 'a) op \<Rightarrow> ('e, 'a res) op" where
  "attempt m = (\<lambda>e. case m e of (r, e') \<Rightarrow> (Inr r, e'))"

text \<open>What a precompiled contract's output does to the caller: the success flag, and the error of
  the last write or push as a value.\<close>

definition precompiledOutcome :: "callArgs \<Rightarrow> byte list option \<Rightarrow> ('s Environment, bool \<times> unit res) op" where
  "precompiledOutcome a outcome =
     (case outcome of
        None \<Rightarrow> bind (setReturnData []) (\<lambda>_. bind (attempt (pushUint64 0)) (\<lambda>r. ret (False, r)))
      | Some out \<Rightarrow>
          bind (setReturnData out) (\<lambda>_. bind (attempt (copyReturn a out)) (\<lambda>w.
          case w of Inl x \<Rightarrow> ret (False, Inl x)
          | Inr _ \<Rightarrow> bind (attempt (pushUint64 1)) (\<lambda>r. ret (True, r)))))"

text \<open>\<open>executePrecompiled\<close>: \<open>None\<close> when the address is not precompiled.\<close>

definition executePrecompiled :: "'s Interpreter \<Rightarrow> callArgs \<Rightarrow> byte list \<Rightarrow> u64 \<Rightarrow> bool \<Rightarrow> ('s Environment, (bool \<times> unit res) option) op" where
  "executePrecompiled i a input callGas static =
     (if \<not> i_IsPrecompiled i (ca_addr a) then ret None
      else if static \<and> i_IsStateful i (ca_addr a) then
        bind (modify (\<lambda>e. e\<lparr>env_gas := Return callGas (env_gas e)\<rparr>)) (\<lambda>_.
        bind (precompiledOutcome a None) (\<lambda>r. ret (Some r)))
      else
        bind (gets env_ctx) (\<lambda>c.
        bind (db_run (i_RunPrecompiled i (ca_addr a)
          \<lparr>pre_caller = ctx_Caller c, pre_origin = ctx_Origin c, pre_value = ctx_Value c, pre_time = ctx_Timestamp c,
           pre_chainID = ctx_ChainID c, pre_static = static, pre_input = input, pre_gas = callGas\<rparr>)) (\<lambda>(outcome, gasUsed).
        bind (returnGas callGas gasUsed) (\<lambda>_.
        bind (precompiledOutcome a outcome) (\<lambda>r. ret (Some r))))))"

definition revertTo :: "'s Interpreter \<Rightarrow> int \<Rightarrow> ('s Environment, unit) op" where
  "revertTo i snapshot = db_set (RevertToSnapshot (i_db i) snapshot)"

definition release :: "'s Interpreter \<Rightarrow> int \<Rightarrow> ('s Environment, unit) op" where
  "release i snapshot = db_set (releaseFrame (i_db i) snapshot)"

definition restoreAnd :: "nat \<Rightarrow> ('s Environment, 'a) op \<Rightarrow> ('s Environment, 'a) op" where
  "restoreAnd savedActiveLen m = bind (modify (restoreActive savedActiveLen)) (\<lambda>_. m)"

text \<open>What follows \<open>Execute\<close> in \<open>CALL\<close>, \<open>DELEGATECALL\<close>, \<open>CALLCODE\<close> and \<open>AUTHCALL\<close>.\<close>

definition finishCall :: "'s Interpreter \<Rightarrow> callArgs \<Rightarrow> u64 \<Rightarrow> nat \<Rightarrow> int \<Rightarrow> ExecutionResult \<Rightarrow> ('s Environment, unit) op" where
  "finishCall i a callGas savedActiveLen snapshot result =
     bind (returnGas callGas (res_GasUsed result)) (\<lambda>_.
     if res_Err result \<noteq> None \<and> \<not> res_Reverted result then
       restoreAnd savedActiveLen (bind (revertTo i snapshot) (\<lambda>_. bind (setReturnData []) (\<lambda>_. pushUint64 0)))
     else
       bind (if res_Reverted result then restoreAnd savedActiveLen (revertTo i snapshot) else ret ()) (\<lambda>_.
       bind (if \<not> res_Reverted result then release i snapshot else ret ()) (\<lambda>_.
       bind (setReturnData (res_ReturnData result)) (\<lambda>_.
       catch (copyReturn a (res_ReturnData result)) (\<lambda>x. restoreAnd savedActiveLen (fail x)) (\<lambda>_.
       bind (if \<not> res_Reverted result then modify (\<lambda>e. e\<lparr>env_logs := env_logs e @ res_Logs result\<rparr>) else ret ()) (\<lambda>_.
       restoreAnd savedActiveLen (if res_Err result \<noteq> None then pushUint64 0 else pushUint64 1)))))))"

text \<open>The counting of depths: \<open>env.callDepth++\<close> with its deferred decrement.\<close>

definition deeper :: "(u64 \<Rightarrow> ('s Environment, unit) op) \<Rightarrow> ('s Environment, unit) op" where
  "deeper k =
     bind (modify (\<lambda>e. e\<lparr>env_callDepth := env_callDepth e + 1\<rparr>)) (\<lambda>_.
     deferring (\<lambda>e. e\<lparr>env_callDepth := env_callDepth e - 1\<rparr>) (bind (gets env_callDepth) k))"

definition atNextDepth :: "(u64 \<Rightarrow> ('s Environment, unit) op) \<Rightarrow> ('s Environment, unit) op" where
  "atNextDepth k = deeper (\<lambda>depth. if depth \<ge> MaxCallDepth then pushUint64 0 else k depth)"

definition activeLen :: "'s Environment \<Rightarrow> nat" where
  "activeLen e = length (env_activeAddresses e)"

definition refuse :: "nat \<Rightarrow> ('s Environment, unit) op" where
  "refuse savedActiveLen = restoreAnd savedActiveLen (pushUint64 0)"


definition withActive :: "Address \<Rightarrow> (nat \<Rightarrow> ('s Environment, unit) op) \<Rightarrow> ('s Environment, unit) op" where
  "withActive addr k = bind (gets activeLen) (\<lambda>savedActiveLen.
     bind (PushActiveAddress addr) (\<lambda>pushed. if \<not> pushed then refuse savedActiveLen else k savedActiveLen))"

text \<open>The gas of a call before the sub-frame: memory expansion, reentrancy guard, call cost. Only
  \<open>DELEGATECALL\<close> lacks the explicit comparison of the call cost with the gas left.\<close>

definition chargeCall :: "'s Interpreter \<Rightarrow> callArgs \<Rightarrow> Address \<Rightarrow> bool \<Rightarrow> bool \<Rightarrow> bool \<Rightarrow> (u64 \<Rightarrow> u64 \<Rightarrow> ('s Environment, unit) op) \<Rightarrow> ('s Environment, unit) op" where
  "chargeCall i a tracked hasValue isNewAccount compares k =
     bind (db_get (AddressInAccessList (i_db i) (ca_addr a))) (\<lambda>warm.
     bind (callMemCost a) (\<lambda>memExpansionCost.
     bind (gets remainingGas) (\<lambda>available.
     if available < memExpansionCost then fail ErrOutOfGas
     else bind (db_get (GetCode (i_db i) (ca_addr a))) (\<lambda>code.
       reentryGuard tracked (length code > 0) (available - memExpansionCost) (\<lambda>guardGas available.
         let (callCost, callGas) =
           CalculateCallGas (Some (i_gasTable i)) available (ca_gas a) hasValue isNewAccount (\<not> warm) in
         if compares \<and> callCost > available then pushUint64 0
         else bind (consume callCost) (\<lambda>_.
           bind (db_set (AddAddressToAccessList (i_db i) (ca_addr a))) (\<lambda>_.
           bind (if memExpansionCost > 0 then consume memExpansionCost else ret ()) (\<lambda>_.
             k guardGas callGas))))))))"

definition payGuard :: "u64 \<Rightarrow> ('s Environment, unit) op \<Rightarrow> ('s Environment, unit) op" where
  "payGuard guardGas m = catch (if guardGas > 0 then consume guardGas else ret ()) (\<lambda>_. pushUint64 0) (\<lambda>_. m)"

definition callInput :: "callArgs \<Rightarrow> ('s Environment, byte list) op" where
  "callInput a = (if ca_inSize a > 0 then on_memory (Memory_Get (ca_inOffset a) (ca_inSize a)) else ret [])"

text \<open>\<open>SetBalance(from, balance - value)\<close>, then the recipient is read and credited.\<close>

definition transferValue :: "'s Interpreter \<Rightarrow> Address \<Rightarrow> int \<Rightarrow> Address \<Rightarrow> int \<Rightarrow> ('s Environment, unit) op" where
  "transferValue i from fromBalance to value =
     bind (db_set (SetBalance (i_db i) from (fromBalance - value))) (\<lambda>_.
     bind (db_run (GetBalance (i_db i) to)) (\<lambda>toBalance.
     db_set (SetBalance (i_db i) to (toBalance + value))))"

definition selfAddr :: "'s Environment \<Rightarrow> Address" where
  "selfAddr e = ctx_Address (env_ctx e)"

definition isReadOnly :: "'s Environment \<Rightarrow> bool" where
  "isReadOnly e = ctx_ReadOnly (env_ctx e)"

section \<open>CALL\<close>

definition enterCall :: "'s Interpreter \<Rightarrow> 's runner \<Rightarrow> callArgs \<Rightarrow> ExecutionContext \<Rightarrow> u64 \<Rightarrow> u64 \<Rightarrow> ('s Environment, unit) op" where
  "enterCall i rn a callCtx guardGas callGas = atNextDepth (\<lambda>depth. payGuard guardGas (
     withActive (ca_addr a) (\<lambda>saved.
       bind (db_run (Snapshot (i_db i))) (\<lambda>snapshot.
       if snapshot < 0 then refuse saved
       else bind (if ca_value a > 0 then
                    bind (gets selfAddr) (\<lambda>self. bind (db_run (GetBalance (i_db i) self)) (\<lambda>callerBalance.
                      transferValue i self callerBalance (ca_addr a) (ca_value a)))
                  else ret ()) (\<lambda>_.
         catch (consume callGas) (\<lambda>_. restoreAnd saved (bind (revertTo i snapshot) (\<lambda>_. pushUint64 0))) (\<lambda>_.
         bind (gets isReadOnly) (\<lambda>static.
         bind (executePrecompiled i a (ctx_Input callCtx) callGas static) (\<lambda>precompiled.
         case precompiled of
           Some (success, err) \<Rightarrow>
             bind (if \<not> success then revertTo i snapshot else ret ()) (\<lambda>_. restoreAnd saved (lift_res err))
         | None \<Rightarrow>
             bind (executeChild rn (callCtx\<lparr>ctx_Depth := sint depth\<rparr>)) (\<lambda>result.
             finishCall i a callGas saved snapshot result)))))))))"

definition opCall :: "'s Interpreter \<Rightarrow> 's runner \<Rightarrow> ('s Environment, unit) op" where
  "opCall i rn = bind popCallArgs (\<lambda>a. bind (gets isReadOnly) (\<lambda>static.
     if static \<and> ca_value a > 0 then fail ErrWriteProtection
     else if ca_addr a = 0 then rejectZeroAddrCall i a
     else let hasValue = ca_value a > 0 in
       bind (db_get (Exist (i_db i) (ca_addr a))) (\<lambda>exists.
       chargeCall i a (ca_addr a) hasValue (\<not> exists) True (\<lambda>guardGas callGas.
         bind (callInput a) (\<lambda>input. bind (gets selfAddr) (\<lambda>self.
         bind (if hasValue then bind (db_run (GetBalance (i_db i) self)) (\<lambda>balance. ret (balance < ca_value a)) else ret False) (\<lambda>poor.
           if poor then pushUint64 0
           else bind (gets (\<lambda>e. subContext i e (ca_addr a) self (ca_addr a) (Some (ca_value a)) input callGas static)) (\<lambda>callCtx.
             enterCall i rn a callCtx guardGas callGas))))))))"

section \<open>STATICCALL\<close>

definition enterStaticCall :: "'s Interpreter \<Rightarrow> 's runner \<Rightarrow> callArgs \<Rightarrow> ExecutionContext \<Rightarrow> u64 \<Rightarrow> ('s Environment, unit) op" where
  "enterStaticCall i rn a callCtx callGas = atNextDepth (\<lambda>depth.
     withActive (ca_addr a) (\<lambda>saved. deferring (restoreActive saved) (
       catch (consume callGas) (\<lambda>_. pushUint64 0) (\<lambda>_.
       bind (db_run (Snapshot (i_db i))) (\<lambda>snapshot.
       if snapshot < 0 then pushUint64 0
       else bind (executePrecompiled i a (ctx_Input callCtx) callGas True) (\<lambda>precompiled.
         case precompiled of
           Some (success, err) \<Rightarrow>
             bind (if \<not> success then revertTo i snapshot else release i snapshot) (\<lambda>_. lift_res err)
         | None \<Rightarrow>
             bind (executeChild rn (callCtx\<lparr>ctx_Depth := sint depth\<rparr>)) (\<lambda>result.
             bind (returnGas callGas (res_GasUsed result)) (\<lambda>_.
             bind (release i snapshot) (\<lambda>_.
             bind (setReturnData (res_ReturnData result)) (\<lambda>_.
             bind (copyReturn a (res_ReturnData result)) (\<lambda>_.
             if res_Err result \<noteq> None then pushUint64 0 else pushUint64 1)))))))))))"

definition opStaticCall :: "'s Interpreter \<Rightarrow> 's runner \<Rightarrow> ('s Environment, unit) op" where
  "opStaticCall i rn = bind popCallArgs6 (\<lambda>a.
     if ca_addr a = 0 then rejectZeroAddrCall i a
     else chargeCall i a (ca_addr a) False False True (\<lambda>guardGas callGas.
       payGuard guardGas (bind (callInput a) (\<lambda>input. bind (gets selfAddr) (\<lambda>self.
         bind (gets (\<lambda>e. subContext i e (ca_addr a) self (ca_addr a) (Some 0) input callGas True)) (\<lambda>callCtx.
           enterStaticCall i rn a callCtx callGas))))))"

section \<open>DELEGATECALL\<close>

definition enterDelegateCall :: "'s Interpreter \<Rightarrow> 's runner \<Rightarrow> callArgs \<Rightarrow> ExecutionContext \<Rightarrow> u64 \<Rightarrow> ('s Environment, unit) op" where
  "enterDelegateCall i rn a callCtx callGas = atNextDepth (\<lambda>depth. bind (gets selfAddr) (\<lambda>self.
     withActive self (\<lambda>saved.
       catch (consume callGas) (\<lambda>_. refuse saved) (\<lambda>_.
       bind (db_run (Snapshot (i_db i))) (\<lambda>snapshot.
       if snapshot < 0 then refuse saved
       else bind (gets isReadOnly) (\<lambda>static.
         bind (executePrecompiled i a (ctx_Input callCtx) callGas static) (\<lambda>precompiled.
         case precompiled of
           Some (success, err) \<Rightarrow>
             bind (if \<not> success \<or> err \<noteq> Inr () then revertTo i snapshot else release i snapshot) (\<lambda>_.
             restoreAnd saved (lift_res err))
         | None \<Rightarrow>
             bind (executeChild rn (callCtx\<lparr>ctx_Depth := sint depth\<rparr>)) (\<lambda>result.
             finishCall i a callGas saved snapshot result)))))))) "

definition opDelegateCall :: "'s Interpreter \<Rightarrow> 's runner \<Rightarrow> ('s Environment, unit) op" where
  "opDelegateCall i rn = bind popCallArgs6 (\<lambda>a.
     if ca_addr a = 0 then rejectZeroAddrCall i a
     else bind (gets env_ctx) (\<lambda>c.
       chargeCall i a (ctx_Address c) False False False (\<lambda>guardGas callGas.
       payGuard guardGas (bind (callInput a) (\<lambda>input.
         bind (gets (\<lambda>e. subContext i e (ca_addr a) (ctx_Caller c) (ctx_Address c) (ctx_Value c) input callGas (ctx_ReadOnly c))) (\<lambda>callCtx.
           enterDelegateCall i rn a callCtx callGas))))))"

section \<open>CALLCODE\<close>

definition enterCallCode :: "'s Interpreter \<Rightarrow> 's runner \<Rightarrow> callArgs \<Rightarrow> byte list \<Rightarrow> u64 \<Rightarrow> ('s Environment, unit) op" where
  "enterCallCode i rn a input callGas = atNextDepth (\<lambda>_. bind (gets selfAddr) (\<lambda>self. bind (gets isReadOnly) (\<lambda>static.
     withActive self (\<lambda>saved.
       bind (db_run (Snapshot (i_db i))) (\<lambda>snapshot.
       if snapshot < 0 then refuse saved
       else bind (gets (\<lambda>e. subContext i e (ca_addr a) self self (Some (ca_value a)) input callGas static)) (\<lambda>callCtx.
         catch (consume callGas) (\<lambda>_. restoreAnd saved (bind (revertTo i snapshot) (\<lambda>_. pushUint64 0))) (\<lambda>_.
         bind (executePrecompiled i a input callGas static) (\<lambda>precompiled.
         case precompiled of
           Some (success, err) \<Rightarrow>
             bind (if \<not> success then revertTo i snapshot else release i snapshot) (\<lambda>_.
             restoreAnd saved (lift_res err))
         | None \<Rightarrow>
             bind (executeChild rn callCtx) (\<lambda>result.
             finishCall i a callGas saved snapshot result)))))))))"

definition opCallCode :: "'s Interpreter \<Rightarrow> 's runner \<Rightarrow> ('s Environment, unit) op" where
  "opCallCode i rn = bind popCallArgs (\<lambda>a.
     if ca_addr a = 0 then rejectZeroAddrCall i a
     else bind (gets isReadOnly) (\<lambda>static.
     if static \<and> ca_value a > 0 then fail ErrWriteProtection
     else let hasValue = ca_value a > 0 in
       bind (db_get (Exist (i_db i) (ca_addr a))) (\<lambda>exists. bind (gets selfAddr) (\<lambda>self.
       chargeCall i a self hasValue (\<not> exists) True (\<lambda>guardGas callGas.
         payGuard guardGas (bind (on_memory (Memory_Get (ca_inOffset a) (ca_inSize a))) (\<lambda>input.
         bind (if hasValue then bind (db_run (GetBalance (i_db i) self)) (\<lambda>balance. ret (balance < ca_value a)) else ret False) (\<lambda>poor.
           if poor then pushUint64 0
           else enterCallCode i rn a input callGas)))))))) "

section \<open>AUTHCALL\<close>

definition enterAuthCall :: "'s Interpreter \<Rightarrow> 's runner \<Rightarrow> callArgs \<Rightarrow> ExecutionContext \<Rightarrow> int \<Rightarrow> u64 \<Rightarrow> ('s Environment, unit) op" where
  "enterAuthCall i rn a callCtx callerBalance callGas = atNextDepth (\<lambda>_.
     withActive (ca_addr a) (\<lambda>saved.
       bind (db_run (Snapshot (i_db i))) (\<lambda>snapshot.
       if snapshot < 0 then refuse saved
       else bind (if ca_value a > 0 then transferValue i (ctx_Caller callCtx) callerBalance (ca_addr a) (ca_value a) else ret ()) (\<lambda>_.
         catch (consume callGas) (\<lambda>_. restoreAnd saved (bind (revertTo i snapshot) (\<lambda>_. pushUint64 0))) (\<lambda>_.
         bind (gets isReadOnly) (\<lambda>static.
         bind (executePrecompiled i a (ctx_Input callCtx) callGas static) (\<lambda>precompiled.
         case precompiled of
           Some (success, err) \<Rightarrow>
             bind (if \<not> success then revertTo i snapshot else ret ()) (\<lambda>_. restoreAnd saved (lift_res err))
         | None \<Rightarrow>
             bind (executeChild rn callCtx) (\<lambda>result.
             finishCall i a callGas saved snapshot result))))))))"

text \<open>The balance that is checked is the one the transfer subtracts from.\<close>

definition payAuthCall :: "'s Interpreter \<Rightarrow> 's runner \<Rightarrow> callArgs \<Rightarrow> Address \<Rightarrow> bool \<Rightarrow> byte list \<Rightarrow> u64 \<Rightarrow> ('s Environment, unit) op" where
  "payAuthCall i rn a effectiveCaller static input callGas =
     bind (if ca_value a > 0 then db_run (GetBalance (i_db i) effectiveCaller) else ret 0) (\<lambda>callerBalance.
       if ca_value a > 0 \<and> callerBalance < ca_value a then pushUint64 0
       else bind (gets (\<lambda>e. subContext i e (ca_addr a) effectiveCaller (ca_addr a) (Some (ca_value a)) input callGas static)) (\<lambda>callCtx.
         enterAuthCall i rn a callCtx callerBalance callGas))"

definition opAuthCall :: "'s Interpreter \<Rightarrow> 's runner \<Rightarrow> ('s Environment, unit) op" where
  "opAuthCall i rn = bind popCallArgs (\<lambda>a.
     if ca_addr a = 0 then rejectZeroAddrCall i a
     else bind (gets (\<lambda>e. case env_authorizedAddress e of Some x \<Rightarrow> x | None \<Rightarrow> selfAddr e)) (\<lambda>effectiveCaller.
     bind (gets isReadOnly) (\<lambda>static.
     if static \<and> ca_value a > 0 then fail ErrWriteProtection
     else
       bind (db_get (Exist (i_db i) (ca_addr a))) (\<lambda>exists.
       chargeCall i a (ca_addr a) (ca_value a > 0) (\<not> exists) True (\<lambda>guardGas callGas.
         payGuard guardGas (bind (callInput a) (\<lambda>input.
           payAuthCall i rn a effectiveCaller static input callGas)))))))"

section \<open>CREATE and CREATE2\<close>

definition AddressToWord :: "Address \<Rightarrow> Word" where
  "AddressToWord addr = arr_of (go_copy (replicate WordSize 0) 0 (arr_bytes 20 addr))"

function nonceBytes :: "u64 \<Rightarrow> byte list \<Rightarrow> byte list" where
  "nonceBytes n buf = (if n > 0 then nonceBytes (drop_bit 8 n) (ucast (n AND 0xff) # buf) else buf)"
  by pat_completeness auto
termination
proof (relation "measure (\<lambda>(n, _). unat n)")
  fix n :: u64 and buf :: "byte list"
  assume "n > 0"
  then have "0 < unat n" by (simp add: word_less_nat_alt)
  then have "unat n div 256 < unat n" by simp
  then show "((drop_bit 8 n, ucast (n AND 0xff) # buf), n, buf) \<in> measure (\<lambda>(n, _). unat n)"
    by (simp add: unat_div64 drop_bit_eq_div)
qed simp

declare nonceBytes.simps [simp del]

definition rlpNonce :: "u64 \<Rightarrow> byte list" where
  "rlpNonce n =
     (if n = 0 then [0x80]
      else if n < 128 then [ucast n]
      else let buf = nonceBytes n [] in of_nat (0x80 + length buf) # buf)"

definition rlpListPrefix :: "nat \<Rightarrow> byte list" where
  "rlpListPrefix listLen =
     (if listLen < 56 then [of_nat (0xc0 + listLen)]
      else let encodedLen = nat_bytes listLen in of_nat (0xf7 + length encodedLen) # encodedLen)"

definition CreateAddress :: "(byte list \<Rightarrow> Hash) \<Rightarrow> Address \<Rightarrow> u64 \<Rightarrow> Address" where
  "CreateAddress keccak256 caller n =
     (let data = 0x94 # arr_bytes 20 caller @ rlpNonce n;
          encoded = (if length data < 56 then of_nat (0xc0 + length data) # data
                     else rlpListPrefix (length data) @ data)
      in arr_of (drop 12 (arr_bytes 32 (keccak256 encoded))))"

definition Create2Address :: "(byte list \<Rightarrow> Hash) \<Rightarrow> Address \<Rightarrow> Hash \<Rightarrow> byte list \<Rightarrow> Address" where
  "Create2Address keccak256 caller salt initCode =
     (let codeHash = keccak256 initCode;
          data = 0xff # arr_bytes 20 caller @ arr_bytes 32 salt @ arr_bytes 32 codeHash
      in arr_of (drop 12 (arr_bytes 32 (keccak256 data))))"

definition calculateMemoryGas :: "u64 \<Rightarrow> u64 \<Rightarrow> 's Environment \<Rightarrow> u64 res" where
  "calculateMemoryGas offset sz e =
     (if sz = 0 then Inr 0
      else if offset > MaxUint64 - sz then Inl (Errorf ''memory offset+size overflow'')
      else let requiredBytes = offset + sz; oldSize = memSize e in
        if requiredBytes \<le> oldSize then Inr 0 else Inr (MemoryExpansionCost oldSize requiredBytes))"

text \<open>The gas of a creation: base, memory, initcode beyond 32 bytes, hashing for \<open>CREATE2\<close>.\<close>

definition createGas :: "bool \<Rightarrow> u64 \<Rightarrow> u64 \<Rightarrow> u64 res" where
  "createGas isCreate2 sz gasMemory =
     (case SafeAddGas (if isCreate2 then GasCreate2 else GasCreate) gasMemory of
        Inl _ \<Rightarrow> Inl (Errorf ''create gas overflow: memory expansion'')
      | Inr gasCost \<Rightarrow>
       (case (if sz > 32 then
                (case SafeMulGas (sz - 32) 200 of
                   Inl _ \<Rightarrow> Inl (Errorf ''create gas overflow: EIP-3860 initcode cost'')
                 | Inr eip3860Cost \<Rightarrow>
                  (case SafeAddGas gasCost eip3860Cost of
                     Inl _ \<Rightarrow> Inl (Errorf ''create gas overflow: EIP-3860'') | Inr c \<Rightarrow> Inr c))
              else Inr gasCost) of
          Inl x \<Rightarrow> Inl x
        | Inr gasCost \<Rightarrow>
            if isCreate2 \<and> sz > 0 then
              if sz > MaxUint64 - 31 then Inl ErrMemoryOverflow
              else (case SafeMulGas ((sz + 31) div 32) 6 of
                      Inl _ \<Rightarrow> Inl (Errorf ''create gas overflow: CREATE2 hash cost'')
                    | Inr hashCost \<Rightarrow>
                     (case SafeAddGas gasCost hashCost of
                        Inl _ \<Rightarrow> Inl (Errorf ''create gas overflow: CREATE2 hash'') | Inr c \<Rightarrow> Inr c))
            else Inr gasCost))"

definition createRefused :: "'s Interpreter \<Rightarrow> int \<Rightarrow> ('s Environment, unit) op" where
  "createRefused i snapshot = bind (revertTo i snapshot) (\<lambda>_. push (AddressToWord 0))"

text \<open>After the constructor ran: the state is reverted and the environment refers to the copy of
  its transient storage that was taken before.\<close>

definition createUndone :: "'s Interpreter \<Rightarrow> int \<Rightarrow> TransientStorage \<Rightarrow> ('s Environment, unit) op" where
  "createUndone i snapshot transientSnapshot =
     bind (revertTo i snapshot) (\<lambda>_.
     bind (modify (\<lambda>e. e\<lparr>env_shared := (env_shared e)\<lparr>sh_transient := sh_transient (env_shared e) @ [transientSnapshot]\<rparr>,
                        env_transientStorage := length (sh_transient (env_shared e))\<rparr>)) (\<lambda>_.
     push (AddressToWord 0)))"

text \<open>The collision check: is the address free? A contract that was created and destructed in
  this transaction frees its address.\<close>

definition claimAddress :: "'s Interpreter \<Rightarrow> Address \<Rightarrow> ('s Environment, bool) op" where
  "claimAddress i contractAddr =
     bind (gets (\<lambda>e. contractAddr \<in> sh_txCreatedContracts (env_shared e))) (\<lambda>created.
     bind (db_get (HasSelfDestructed (i_db i) contractAddr)) (\<lambda>dead.
     bind (db_get (GetCodeSize (i_db i) contractAddr)) (\<lambda>codeSize.
       if created \<and> dead then
         if codeSize > 0 then ret False
         else bind (modify (\<lambda>e. e\<lparr>env_shared := (env_shared e)\<lparr>
             sh_selfDestructCleared := insert contractAddr (sh_selfDestructCleared (env_shared e)),
             sh_txCreatedContracts := sh_txCreatedContracts (env_shared e) - {contractAddr}\<rparr>\<rparr>)) (\<lambda>_. ret True)
       else if codeSize > 0 then ret False
       else bind (db_run (GetNonce (i_db i) contractAddr)) (\<lambda>n. ret (\<not> n > 0)))))"

definition initContext :: "'s Environment \<Rightarrow> Address \<Rightarrow> int \<Rightarrow> byte list \<Rightarrow> ExecutionContext" where
  "initContext e contractAddr value initCode =
     (let c = env_ctx e;
          translated = (if length initCode > 0 \<and> IsEVMBytecode initCode then TranslateEVMBytecode initCode else Inl ErrInvalidBytecode);
          execInitCode = (case translated of Inr t \<Rightarrow> t | Inl _ \<Rightarrow> initCode);
          evmCompatible = (case translated of Inr _ \<Rightarrow> True | Inl _ \<Rightarrow> False) in
      \<lparr>ctx_Origin = ctx_Origin c, ctx_GasPrice = ctx_GasPrice c, ctx_Caller = ctx_Address c, ctx_Address = contractAddr,
       ctx_Value = Some value, ctx_BlockNumber = ctx_BlockNumber c, ctx_Timestamp = ctx_Timestamp c,
       ctx_Coinbase = ctx_Coinbase c, ctx_GasLimit = ctx_GasLimit c, ctx_ChainID = ctx_ChainID c,
       ctx_BlockHashes = Map.empty, ctx_PrevRandao = ctx_PrevRandao c, ctx_BlobHashes = [],
       ctx_BlobBaseFee = ctx_BlobBaseFee c, ctx_BaseFee = ctx_BaseFee c, ctx_Code = execInitCode, ctx_Input = initCode,
       ctx_OriginalCode = Some initCode, ctx_EVMCompatible = evmCompatible,
       ctx_Gas = Remaining (env_gas e) - Remaining (env_gas e) div 64,
       ctx_Depth = ctx_Depth c + 1, ctx_ReadOnly = False, ctx_ParentEnv = Some (parentView e)\<rparr>)"

definition initEnvironment :: "'s Environment \<Rightarrow> ExecutionContext \<Rightarrow> 's Environment" where
  "initEnvironment e c =
     \<lparr>env_ctx = c, env_shared = env_shared e, env_stack = NewStack, env_memory = NewMemory,
      env_gas = NewGasMeter (ctx_Gas c), env_pc = 0, env_jumpDests = jumpDestsOf (ctx_Code c),
      env_logs = [], env_returnData = [], env_stopped = False, env_reverted = False, env_err = None,
      env_callDepth = of_int (ctx_Depth c), env_activeAddresses = env_activeAddresses e,
      env_parentEnv = env_activeAddresses e # env_parentEnv e,
      env_selfDestructed = False, env_selfDestructBeneficiary = 0, env_blockHashes = env_blockHashes e,
      env_transientStorage = env_transientStorage e, env_authorizedAddress = None, env_pqcKeyRegions = []\<rparr>"

text \<open>\<open>i.run(initEnv)\<close>: the frame shares the state with its creator; \<open>initEnv.err\<close> and
  \<open>initEnv.reverted\<close> are merged with the result.\<close>

definition runInit :: "'s runner \<Rightarrow> 's Environment \<Rightarrow> ('s Environment, ExecutionResult \<times> 's Environment) op" where
  "runInit rn initEnv = (\<lambda>e.
     case rn (initEnv\<lparr>env_shared := env_shared e\<rparr>) of
       (result, initEnv') \<Rightarrow> (Inr (result, initEnv'), e\<lparr>env_shared := env_shared initEnv'\<rparr>))"

definition deployCode :: "'s Interpreter \<Rightarrow> int \<Rightarrow> TransientStorage \<Rightarrow> Address \<Rightarrow> byte list \<Rightarrow> Log list \<Rightarrow> ('s Environment, unit) op" where
  "deployCode i snapshot ts contractAddr deployedCode logs =
     (if length deployedCode > MaxCodeSize then createUndone i snapshot ts
      else catch (if length deployedCode > 0
                  then bind (lift_res (SafeMulGas (ulen deployedCode) GasCodeDeposit)) consume
                  else ret ()) (\<lambda>_. createUndone i snapshot ts) (\<lambda>_.
        case (if length deployedCode > 0 \<and> IsEVMBytecode deployedCode then TranslateEVMBytecode deployedCode else Inr deployedCode) of
          Inl _ \<Rightarrow> createUndone i snapshot ts
        | Inr deployedCode \<Rightarrow>
            if length deployedCode > 0 \<and> hd deployedCode = 0xEF then createUndone i snapshot ts
            else
              bind (db_set (SetCode (i_db i) contractAddr deployedCode)) (\<lambda>_.
              bind (modify (\<lambda>e. e\<lparr>env_shared := (env_shared e)\<lparr>sh_txCreatedContracts := insert contractAddr (sh_txCreatedContracts (env_shared e))\<rparr>\<rparr>)) (\<lambda>_.
              bind (modify (\<lambda>e. e\<lparr>env_logs := env_logs e @ logs\<rparr>)) (\<lambda>_.
              bind (release i snapshot) (\<lambda>_. push (AddressToWord contractAddr)))))))"

definition createRun :: "'s Interpreter \<Rightarrow> 's runner \<Rightarrow> int \<Rightarrow> Address \<Rightarrow> int \<Rightarrow> byte list \<Rightarrow> ('s Environment, unit) op" where
  "createRun i rn snapshot contractAddr value initCode =
     bind (gets (\<lambda>e. initContext e contractAddr value initCode)) (\<lambda>initCtx.
     bind (gets (\<lambda>e. initEnvironment e initCtx)) (\<lambda>initEnv.
     deeper (\<lambda>depth.
       if depth \<ge> MaxCallDepth then createRefused i snapshot
       else let (pushed, initEnv) = PushActiveAddress contractAddr initEnv in
         if pushed \<noteq> Inr True then createRefused i snapshot
         else
           catch (consume (ctx_Gas initCtx)) (\<lambda>_. createRefused i snapshot) (\<lambda>_.
           bind (gets getTransient) (\<lambda>transientSnapshot.
           bind (runInit rn initEnv) (\<lambda>(createResult, initEnv).
           bind (returnGas (ctx_Gas initCtx) (Used (env_gas initEnv))) (\<lambda>_.
             if (res_Err createResult \<noteq> None \<or> env_err initEnv \<noteq> None) \<or> (env_reverted initEnv \<or> res_Reverted createResult)
             then createUndone i snapshot transientSnapshot
             else deployCode i snapshot transientSnapshot contractAddr (env_returnData initEnv) (res_Logs createResult))))))))"

definition createAt :: "'s Interpreter \<Rightarrow> 's runner \<Rightarrow> int \<Rightarrow> Address \<Rightarrow> int \<Rightarrow> byte list \<Rightarrow> ('s Environment, unit) op" where
  "createAt i rn snapshot contractAddr value initCode =
     bind (gets selfAddr) (\<lambda>creator.
     bind (claimAddress i contractAddr) (\<lambda>free.
     if \<not> free then createRefused i snapshot
     else bind (db_run (GetNonce (i_db i) creator)) (\<lambda>creatorNonce.
       if creatorNonce = MaxUint64 then createRefused i snapshot
       else
         bind (db_set (SetNonce (i_db i) creator (creatorNonce + 1))) (\<lambda>_.
         bind (db_set (SetNonce (i_db i) contractAddr 1)) (\<lambda>_.
         if value > 0 then
           bind (db_run (GetBalance (i_db i) creator)) (\<lambda>creatorBalance.
             if creatorBalance < value then createRefused i snapshot
             else bind (transferValue i creator creatorBalance contractAddr value) (\<lambda>_.
               createRun i rn snapshot contractAddr value initCode))
         else createRun i rn snapshot contractAddr value initCode)))))"

definition opCreateGeneric :: "'s Interpreter \<Rightarrow> 's runner \<Rightarrow> bool \<Rightarrow> ('s Environment, unit) op" where
  "opCreateGeneric i rn isCreate2 = bind (gets isReadOnly) (\<lambda>ro.
     if ro then fail ErrWriteProtection
     else bind popBigInt (\<lambda>value. bind popUint64 (\<lambda>offset. bind popUint64 (\<lambda>sz.
       bind (if isCreate2 then pop else ret 0) (\<lambda>salt.
       if unat sz > MaxInitCodeSize then fail ErrInitCodeSizeExceeded
       else
         bind (gets (calculateMemoryGas offset sz)) (\<lambda>r. bind (lift_res r) (\<lambda>gasMemory.
         bind (lift_res (createGas isCreate2 sz gasMemory)) (\<lambda>gasCost.
         bind (consume gasCost) (\<lambda>_.
         bind (on_memory (Memory_Get offset sz)) (\<lambda>initCode.
         bind (db_run (Snapshot (i_db i))) (\<lambda>snapshot.
         if snapshot < 0 then push (AddressToWord 0)
         else bind (gets selfAddr) (\<lambda>creator.
           bind (if isCreate2 then ret (Create2Address (i_keccak256 i) creator salt initCode)
                 else bind (db_run (GetNonce (i_db i) creator)) (\<lambda>n. ret (CreateAddress (i_keccak256 i) creator n))) (\<lambda>contractAddr.
           createAt i rn snapshot contractAddr value initCode)))))))))))))"

definition opCreate :: "'s Interpreter \<Rightarrow> 's runner \<Rightarrow> ('s Environment, unit) op" where
  "opCreate i rn = opCreateGeneric i rn False"

definition opCreate2 :: "'s Interpreter \<Rightarrow> 's runner \<Rightarrow> ('s Environment, unit) op" where
  "opCreate2 i rn = opCreateGeneric i rn True"

end
