(* ===== verification/QVM_Exec.thy ===== *)
theory QVM_Exec
  imports QVM_Calls
begin

text \<open>
  The opcode dispatch and one turn of the interpreter loop, \<open>executeOp\<close> and \<open>run\<close> of
  \<open>src/qvm/environment.go\<close>. The switch is four definitions, one after the other.
\<close>

section \<open>Dispatch\<close>

definition jumpTo :: "u64 \<Rightarrow> ('s Environment, unit) op" where
  "jumpTo dest = bind (gets (\<lambda>e. dest \<in> set (env_jumpDests e))) (\<lambda>ok.
     if \<not> ok then fail ErrInvalidJumpDest else modify (\<lambda>e. e\<lparr>env_pc := dest\<rparr>))"

definition opJump :: "('s Environment, unit) op" where
  "opJump = bind popUint64 jumpTo"

definition opJumpI :: "('s Environment, unit) op" where
  "opJumpI = bind popUint64 (\<lambda>dest. bind pop (\<lambda>cond. if \<not> Word_IsZero cond then jumpTo dest else ret ()))"

definition pushOps :: "OpCode list" where
  "pushOps = [op_PUSH1, op_PUSH2, op_PUSH3, op_PUSH4, op_PUSH5, op_PUSH6, op_PUSH7, op_PUSH8,
     op_PUSH9, op_PUSH10, op_PUSH11, op_PUSH12, op_PUSH13, op_PUSH14, op_PUSH15, op_PUSH16,
     op_PUSH17, op_PUSH18, op_PUSH19, op_PUSH20, op_PUSH21, op_PUSH22, op_PUSH23, op_PUSH24,
     op_PUSH25, op_PUSH26, op_PUSH27, op_PUSH28, op_PUSH29, op_PUSH30, op_PUSH31, op_PUSH32]"

text \<open>The last cases of the switch: calls, creation, self-destruction, logs.\<close>

definition executeFrameOp :: "'s Interpreter \<Rightarrow> 's runner \<Rightarrow> OpCode \<Rightarrow> ('s Environment, unit) op" where
  "executeFrameOp i rn op =
    (if op = op_CALL then opCall i rn
     else if op = op_STATICCALL then opStaticCall i rn
     else if op = op_DELEGATECALL then opDelegateCall i rn
     else if op = op_CALLCODE then opCallCode i rn
     else if op = op_CREATE then opCreate i rn
     else if op = op_CREATE2 then opCreate2 i rn
     else if op = op_AUTH then opAuth i
     else if op = op_AUTHCALL then opAuthCall i rn
     else if op = op_SELFDESTRUCT then opSelfDestruct i
     else if op = op_LOG0 then opLog 0
     else if op = op_LOG1 then opLog 1
     else if op = op_LOG2 then opLog 2
     else if op = op_LOG3 then opLog 3
     else if op = op_LOG4 then opLog 4
     else fail ErrInvalidOpcode)"

text \<open>The cases that read the context, the accounts and the code, hash, and handle key material.\<close>

definition executeContextOp :: "'s Interpreter \<Rightarrow> 's runner \<Rightarrow> OpCode \<Rightarrow> ('s Environment, unit) op" where
  "executeContextOp i rn op =
    (if op = op_ADDRESS then opAddress
     else if op = op_BALANCE then opBalance i
     else if op = op_ORIGIN then opOrigin
     else if op = op_CALLER then opCaller
     else if op = op_CALLVALUE then opCallValue
     else if op = op_CALLDATALOAD then opCallDataLoad
     else if op = op_CALLDATASIZE then bind (gets (\<lambda>e. ulen (ctx_Input (env_ctx e)))) pushUint64
     else if op = op_RETURNDATASIZE then bind (gets (\<lambda>e. ulen (env_returnData e))) pushUint64
     else if op = op_CALLDATACOPY then opCallDataCopy
     else if op = op_RETURNDATACOPY then opReturnDataCopy
     else if op = op_CODESIZE then opCodeSize
     else if op = op_CODECOPY then opCodeCopy
     else if op = op_GASPRICE then opGasPrice
     else if op = op_GASLIMIT then opGasLimit
     else if op = op_GAS then bind (gets remainingGas) pushUint64
     else if op = op_BLOCKHASH then opBlockHash
     else if op = op_COINBASE then opCoinbase
     else if op = op_TIMESTAMP then bind (gets (\<lambda>e. ctx_Timestamp (env_ctx e))) pushUint64
     else if op = op_NUMBER then bind (gets (\<lambda>e. ctx_BlockNumber (env_ctx e))) pushUint64
     else if op = op_CHAINID then bind (gets (\<lambda>e. ctx_ChainID (env_ctx e))) pushUint64
     else if op = op_SELFBALANCE then opSelfBalance i
     else if op = op_EXTCODESIZE then opExtCodeSize i
     else if op = op_EXTCODECOPY then opExtCodeCopy i
     else if op = op_EXTCODEHASH then opExtCodeHash i
     else if op = op_PREVRANDAO then opPrevRandao
     else if op = op_BLOBHASH then opBlobHash
     else if op = op_BASEFEE then opBaseFee
     else if op = op_BLOBBASEFEE then opBlobBaseFee
     else if op = op_SHA3 \<or> op = op_KECCAK256 then opSHA3 i
     else if op = op_KYBER_KEYGEN then opKyberKeyGen
     else if op = op_KYBER_ENCAPS then opKyberEncaps
     else if op = op_KYBER_DECAPS then opKyberDecaps i
     else if op = op_KYBER_ZERO_KEY then opKyberZeroKey
     else executeFrameOp i rn op)"

text \<open>Arithmetic, comparison, bits, memory and storage.\<close>

definition executeComputeOp :: "'s Interpreter \<Rightarrow> 's runner \<Rightarrow> OpCode \<Rightarrow> ('s Environment, unit) op" where
  "executeComputeOp i rn op =
    (if op = op_ADD then opAdd
     else if op = op_SUB then opSub
     else if op = op_MUL then opMul
     else if op = op_DIV then opDiv
     else if op = op_SDIV then opSDiv
     else if op = op_MOD then opMod
     else if op = op_SMOD then opSMod
     else if op = op_ADDMOD then opAddMod
     else if op = op_MULMOD then opMulMod
     else if op = op_EXP then opExp
     else if op = op_LT then opLt
     else if op = op_GT then opGt
     else if op = op_SLT then opSlt
     else if op = op_SGT then opSgt
     else if op = op_EQ then opEq
     else if op = op_ISZERO then opIsZero
     else if op = op_AND then opAnd
     else if op = op_OR then opOr
     else if op = op_XOR then opXor
     else if op = op_NOT then opNot
     else if op = op_SHL then opShl
     else if op = op_SHR then opShr
     else if op = op_SAR then opSar
     else if op = op_BYTE then opByte
     else if op = op_MLOAD then opMLoad
     else if op = op_MSTORE then opMStore
     else if op = op_MSTORE8 then opMStore8
     else if op = op_MSIZE then bind (gets memSize) pushUint64
     else if op = op_MCOPY then opMCopy
     else if op = op_SLOAD then opSLoad i
     else if op = op_SSTORE then opSStore i
     else if op = op_TLOAD then opTLoad
     else if op = op_TSTORE then opTStore
     else executeContextOp i rn op)"

text \<open>The first cases: control flow, constants, stack.\<close>

definition executeOp :: "'s Interpreter \<Rightarrow> 's runner \<Rightarrow> OpCode \<Rightarrow> ('s Environment, unit) op" where
  "executeOp i rn op =
    (if op = op_STOP then stopFrame
     else if op = op_JUMP then opJump
     else if op = op_JUMPI then opJumpI
     else if op = op_JUMPDEST then ret ()
     else if op = op_PC then bind (gets env_pc) (\<lambda>p. pushUint64 (p - 1))
     else if op = op_NOP then ret ()
     else if op = op_RETURN then opReturn
     else if op = op_REVERT then opRevert
     else if op = op_INVALID then fail ErrInvalidOpcode
     else if op = op_SIGNEXTEND then opSignExtend
     else if op = op_PUSH0 then push 0
     else if op \<in> set pushOps then opPush op
     else if op = op_POP then bind pop (\<lambda>_. ret ())
     else if op = op_DUP1 then on_stack (Stack_Dup 1)
     else if op = op_DUP2 then on_stack (Stack_Dup 2)
     else if op = op_DUP3 then on_stack (Stack_Dup 3)
     else if op = op_DUP4 then on_stack (Stack_Dup 4)
     else if op = op_DUP5 then on_stack (Stack_Dup 5)
     else if op = op_DUP6 then on_stack (Stack_Dup 6)
     else if op = op_DUP7 then on_stack (Stack_Dup 7)
     else if op = op_DUP8 then on_stack (Stack_Dup 8)
     else if op = op_DUP9 then on_stack (Stack_Dup 9)
     else if op = op_DUP10 then on_stack (Stack_Dup 10)
     else if op = op_DUP11 then on_stack (Stack_Dup 11)
     else if op = op_DUP12 then on_stack (Stack_Dup 12)
     else if op = op_DUP13 then on_stack (Stack_Dup 13)
     else if op = op_DUP14 then on_stack (Stack_Dup 14)
     else if op = op_DUP15 then on_stack (Stack_Dup 15)
     else if op = op_DUP16 then on_stack (Stack_Dup 16)
     else if op = op_SWAP1 then on_stack (Stack_Swap 1)
     else if op = op_SWAP2 then on_stack (Stack_Swap 2)
     else if op = op_SWAP3 then on_stack (Stack_Swap 3)
     else if op = op_SWAP4 then on_stack (Stack_Swap 4)
     else if op = op_SWAP5 then on_stack (Stack_Swap 5)
     else if op = op_SWAP6 then on_stack (Stack_Swap 6)
     else if op = op_SWAP7 then on_stack (Stack_Swap 7)
     else if op = op_SWAP8 then on_stack (Stack_Swap 8)
     else if op = op_SWAP9 then on_stack (Stack_Swap 9)
     else if op = op_SWAP10 then on_stack (Stack_Swap 10)
     else if op = op_SWAP11 then on_stack (Stack_Swap 11)
     else if op = op_SWAP12 then on_stack (Stack_Swap 12)
     else if op = op_SWAP13 then on_stack (Stack_Swap 13)
     else if op = op_SWAP14 then on_stack (Stack_Swap 14)
     else if op = op_SWAP15 then on_stack (Stack_Swap 15)
     else if op = op_SWAP16 then on_stack (Stack_Swap 16)
     else executeComputeOp i rn op)"

section \<open>One turn of the loop\<close>

definition fault :: "qerr \<Rightarrow> 's Environment \<Rightarrow> 's Environment" where
  "fault x e = e\<lparr>env_err := Some x, env_stopped := True\<rparr>"

definition stepOp :: "'s Interpreter \<Rightarrow> 's runner \<Rightarrow> 's Environment \<Rightarrow> 's Environment" where
  "stepOp i rn e =
     (let op = ctx_Code (env_ctx e) ! unat (env_pc e); (info, valid) = GetInfo op in
      if \<not> valid then fault ErrInvalidOpcode e
      else if Stack_Len (env_stack e) < StackPop info then fault ErrStackUnderflow e
      else let itemsRemoved = (if isDupOrSwap op then 0 else StackPop info) in
      if Stack_Len (env_stack e) - itemsRemoved + StackPush info > MaxStackSize then fault ErrStackOverflow e
      else case consume (GasCost info) e of
        (Inl x, e) \<Rightarrow> fault x e
      | (Inr _, e) \<Rightarrow>
         (case executeOp i rn op (e\<lparr>env_pc := env_pc e + 1\<rparr>) of
            (Inl x, e) \<Rightarrow> fault x e
          | (Inr _, e) \<Rightarrow> e))"

end
