(* ===== verification/QVM_Rel.thy ===== *)
theory QVM_Rel
  imports QVM_Exec
begin

text \<open>
  The locales \<open>reader_rel\<close> and \<open>handler_rel\<close>: a relation between the environment before and after is
  proved of every opcode handler once, from what it asks of the primitives the handlers are built
  from; \<open>reader_rel\<close> needs nothing of the primitives that write to the state. The
  handlers that move the program counter and those that start a frame stay parameters; the
  theories that follow supply them per relation.
\<close>

section \<open>Handlers from primitives\<close>

lemma snd_popUint64: "snd (popUint64 e) = snd (pop e)"
  by (simp add: Stack_PopUint64_def op_simps split: prod.split sum.split)

lemma snd_popBigInt: "snd (popBigInt e) = snd (pop e)"
  by (simp add: Stack_PopBigInt_def op_simps split: prod.split sum.split)

abbreviation writable :: "ExecutionContext \<Rightarrow> bool" where
  "writable c \<equiv> \<not> ctx_ReadOnly c"

locale reader_rel = step_rel R env_ctx
  for R :: "'s Environment \<Rightarrow> 's Environment \<Rightarrow> bool" +
  fixes i :: "'s Interpreter"
  assumes R_pop: "R e (snd (pop e))"
    and R_push: "R e (snd (push w e))"
    and R_dup: "R e (snd (on_stack (Stack_Dup n) e))"
    and R_swap: "R e (snd (on_stack (Stack_Swap n) e))"
    and R_mem_get: "R e (snd (on_memory (Memory_Get off sz) e))"
    and R_mem_getptr: "R e (snd (on_memory (Memory_GetPtr off sz) e))"
    and R_mem_set: "R e (snd (on_memory (Memory_Set off bs) e))"
    and R_mem_set32: "R e (snd (on_memory (Memory_Set32 off w) e))"
    and R_mem_setbyte: "R e (snd (on_memory (Memory_SetByte off b) e))"
    and R_mem_zero: "R e (snd (on_memory (Memory_ZeroRange off sz) e))"
    and R_consume: "R e (snd (consume c e))"
    and R_returnData: "R e (e\<lparr>env_returnData := bs\<rparr>)"
    and R_stop: "R e (e\<lparr>env_stopped := True\<rparr>)"
    and R_revert: "R e (e\<lparr>env_stopped := True, env_reverted := True, env_err := Some ErrExecutionReverted\<rparr>)"
    and R_auth: "R e (e\<lparr>env_authorizedAddress := x\<rparr>)"
    and R_reentry: "R e (e\<lparr>env_shared := (env_shared e)\<lparr>sh_reentryCounts := counts\<rparr>\<rparr>)"
    and R_AddAddress: "R e (snd (db_set (AddAddressToAccessList (i_db i) addr) e))"
    and R_AddSlot: "R e (snd (db_set (AddSlotToAccessList (i_db i) addr key) e))"
    and R_GetBalance: "R e (snd (db_run (GetBalance (i_db i) addr) e))"
    and R_GetNonce: "R e (snd (db_run (GetNonce (i_db i) addr) e))"
begin

lemma keeps_popUint64: "keeps P popUint64"
  by (rule keepsI) (simp only: snd_popUint64 R_pop)

lemma keeps_popBigInt: "keeps P popBigInt"
  by (rule keepsI) (simp only: snd_popBigInt R_pop)

lemma keeps_pushUint64: "keeps P (pushUint64 v)"
  by (rule keepsI) (simp only: pushUint64_push R_push)

lemma keeps_pushBigInt: "keeps P (pushBigInt v)"
  by (rule keepsI) (simp only: pushBigInt_push R_push)

lemma keeps_db_get: "keeps P (db_get f)"
  unfolding db_get_def by (rule keeps_gets)

lemma keeps_modify: "(\<And>e. P (env_ctx e) \<Longrightarrow> R e (f e)) \<Longrightarrow> keeps P (modify f)"
  by (simp add: keeps_def modify_def)

lemmas keeps_prims = keeps_popUint64 keeps_popBigInt keeps_pushUint64 keeps_pushBigInt keeps_db_get
  keepsI [OF R_pop] keepsI [OF R_push] keepsI [OF R_dup] keepsI [OF R_swap]
  keepsI [OF R_mem_get] keepsI [OF R_mem_getptr] keepsI [OF R_mem_set] keepsI [OF R_mem_set32]
  keepsI [OF R_mem_setbyte] keepsI [OF R_mem_zero] keepsI [OF R_consume]
  keepsI [OF R_AddAddress] keepsI [OF R_AddSlot] keepsI [OF R_GetBalance] keepsI [OF R_GetNonce]
  keeps_modify [OF R_returnData] keeps_modify [OF R_stop] keeps_modify [OF R_revert] keeps_modify [OF R_auth]

lemma keeps_pops: "keeps P (pop_topics n)"
  by (induction n) (auto intro!: keeps_rules keeps_prims)

lemma keeps_arith:
  "keeps P opAdd" "keeps P opSub" "keeps P opMul" "keeps P opDiv" "keeps P opMod" "keeps P opSDiv" "keeps P opSMod"
  "keeps P opAddMod" "keeps P opMulMod" "keeps P opExp" "keeps P opSignExtend"
  "keeps P opLt" "keeps P opGt" "keeps P opSlt" "keeps P opSgt" "keeps P opEq" "keeps P opIsZero"
  "keeps P opAnd" "keeps P opOr" "keeps P opXor" "keeps P opNot" "keeps P opShl" "keeps P opShr" "keeps P opSar" "keeps P opByte"
  unfolding opAdd_def opSub_def opMul_def opDiv_def opMod_def opSDiv_def opSMod_def opAddMod_def opMulMod_def
    opExp_def opSignExtend_def opLt_def opGt_def opSlt_def opSgt_def opEq_def opIsZero_def
    opAnd_def opOr_def opXor_def opNot_def opShl_def opShr_def opSar_def opByte_def
  by (intro keeps_rules keeps_prims)+

lemma keeps_context:
  "keeps P opAddress" "keeps P opCaller" "keeps P opOrigin" "keeps P opCoinbase" "keeps P opCallValue" "keeps P opGasPrice"
  "keeps P opGasLimit" "keeps P opPrevRandao" "keeps P opBlobBaseFee" "keeps P opBaseFee" "keeps P opBlobHash"
  "keeps P opBlockHash" "keeps P opCodeSize" "keeps P opCallDataLoad"
  unfolding opAddress_def opCaller_def opOrigin_def opCoinbase_def opCallValue_def opGasPrice_def
    opGasLimit_def opPrevRandao_def opBlobBaseFee_def opBaseFee_def opBlobHash_def opBlockHash_def
    opCodeSize_def opCallDataLoad_def
  by (intro keeps_rules keeps_prims)+

lemma keeps_memory:
  "keeps P opMLoad" "keeps P opMStore" "keeps P opMStore8" "keeps P opMCopy" "keeps P opCallDataCopy"
  "keeps P opReturnDataCopy" "keeps P opCodeCopy" "keeps P (opSHA3 i)" "keeps P opReturn" "keeps P opRevert"
  "keeps P opKyberKeyGen" "keeps P opKyberEncaps" "keeps P (opKyberDecaps i)" "keeps P opKyberZeroKey"
  unfolding opMLoad_def opMStore_def opMStore8_def opMCopy_def opCallDataCopy_def opReturnDataCopy_def
    opCodeCopy_def opSHA3_def opReturn_def opRevert_def takeReturnData_def opKyberKeyGen_def
    opKyberEncaps_def opKyberDecaps_def opKyberZeroKey_def
  by (intro keeps_rules keeps_prims)+

lemma keeps_touch: "keeps P (touchSlot i key)" "keeps P (touchAccount i addr)"
  unfolding touchSlot_def touchAccount_def by (intro keeps_rules keeps_prims)+

lemma keeps_accounts:
  "keeps P (opSLoad i)" "keeps P opTLoad" "keeps P (opBalance i)" "keeps P (opSelfBalance i)"
  "keeps P (opExtCodeSize i)" "keeps P (opExtCodeCopy i)" "keeps P (opExtCodeHash i)"
  unfolding opSLoad_def opTLoad_def opBalance_def opSelfBalance_def opExtCodeSize_def opExtCodeCopy_def
    opExtCodeHash_def
  by (intro keeps_rules keeps_prims keeps_touch)+

text \<open>The parts of the call handlers in front of the sub-frame.\<close>

lemma keeps_reentryCounts: "keeps P (IncrementReentryCount addr)" "R e (DecrementReentryCount addr e)"
  using R_reentry by (simp_all add: keeps_def IncrementReentryCount_def DecrementReentryCount_def Let_def R_refl)

lemma keeps_callArgs: "keeps P popCallArgs" "keeps P popCallArgs6" "keeps P (callMemCost a)" "keeps P (callInput a)"
  unfolding popCallArgs_def popCallArgs6_def callMemCost_def callInput_def by (intro keeps_rules keeps_prims)+

lemma keeps_rejectZeroAddrCall: "keeps P (rejectZeroAddrCall i a)"
  unfolding rejectZeroAddrCall_def by (intro keeps_rules keeps_prims keeps_callArgs)

lemma keeps_payGuard: "keeps P m \<Longrightarrow> keeps P (payGuard g m)"
  unfolding payGuard_def by (intro keeps_rules keeps_prims)

lemma keeps_chargeCall: "(\<And>g c. keeps P (k g c)) \<Longrightarrow> keeps P (chargeCall i a tracked hasValue isNew compares k)"
  unfolding chargeCall_def reentryGuard_def
  by (intro keeps_rules keeps_prims keeps_callArgs keeps_reentryCounts keeps_deferring)

lemma keeps_setReturnData: "keeps P (setReturnData bs)"
  unfolding setReturnData_def by (intro keeps_prims)

lemma keeps_copyReturn: "keeps P (copyReturn a bs)"
  unfolding copyReturn_def by (intro keeps_rules keeps_prims)

end

text \<open>With the writes, which a handler makes in frames that are not read-only.\<close>

locale handler_rel = reader_rel +
  assumes R_refund: "writable (env_ctx e) \<Longrightarrow> R e (e\<lparr>env_gas := Refund r (env_gas e)\<rparr>)"
    and R_SetState: "writable (env_ctx e) \<Longrightarrow> R e (snd (db_set (SetState (i_db i) addr key v) e))"
    and R_SetNonce: "writable (env_ctx e) \<Longrightarrow> R e (snd (db_set (SetNonce (i_db i) addr nn) e))"
    and R_transient: "writable (env_ctx e) \<Longrightarrow> R e (setTransient ts e)"
    and R_log: "writable (env_ctx e) \<Longrightarrow> R e (e\<lparr>env_logs := env_logs e @ logs\<rparr>)"
    and R_SelfDestruct: "R e (snd (opSelfDestruct i e))"
begin

lemma keeps_write:
  assumes "\<And>c. P c \<Longrightarrow> writable c"
  shows "keeps P (db_set (SetState (i_db i) addr key v))" "keeps P (db_set (SetNonce (i_db i) addr n))"
    "keeps P (modify (\<lambda>e. e\<lparr>env_gas := Refund r (env_gas e)\<rparr>))"
    "keeps P (modify (\<lambda>e. e\<lparr>env_logs := env_logs e @ f e\<rparr>))"
    "keeps P (modify (\<lambda>e. setTransient (g e) e))"
  using assms by (auto intro!: keepsI keeps_modify R_SetState R_SetNonce R_refund R_log R_transient)

lemma keeps_writers:
  "keeps P (opSStore i)" "keeps P opTStore" "keeps P (opLog k)"
  unfolding opSStore_def opTStore_def opLog_def Let_def
  by (rule keeps_bind_context, intro keeps_rules keeps_prims keeps_touch keeps_pops keeps_write, simp_all)+

lemma keeps_authRefused: "keeps P authRefused"
  unfolding authRefused_def by (intro keeps_rules keeps_prims)

lemma keeps_authMessage: "(\<And>c. P c \<Longrightarrow> writable c) \<Longrightarrow> keeps P (authMessage i addr msg)"
  unfolding authMessage_def by (intro keeps_rules keeps_prims keeps_authRefused keeps_write) simp_all

lemma keeps_opAuth: "keeps P (opAuth i)"
  unfolding opAuth_def
  by (intro keeps_bind_context keeps_rules keeps_prims keeps_authRefused keeps_authMessage; simp)

text \<open>The dispatch, up to the handlers left open.\<close>

lemma keeps_executeOp:
  assumes "keeps P (opCall i rn)" "keeps P (opStaticCall i rn)" "keeps P (opDelegateCall i rn)"
    "keeps P (opCallCode i rn)" "keeps P (opAuthCall i rn)" "keeps P (opCreateGeneric i rn False)" "keeps P (opCreateGeneric i rn True)"
    and "op \<in> set pushOps \<Longrightarrow> keeps P (opPush op)"
    and "op = op_JUMP \<Longrightarrow> keeps P opJump" "op = op_JUMPI \<Longrightarrow> keeps P opJumpI"
  shows "keeps P (executeOp i rn op)"
proof -
  have frame: "keeps P (executeFrameOp i rn op)"
    unfolding executeFrameOp_def opCreate_def opCreate2_def
    by (intro keeps_if keeps_fail keeps_writers keeps_opAuth assms(1-7) keepsI [OF R_SelfDestruct])
  have reading: "keeps P (executeContextOp i rn op)"
    unfolding executeContextOp_def
    by (intro keeps_if keeps_accounts keeps_context keeps_memory frame keeps_bind keeps_prims keeps_gets)
  have compute: "keeps P (executeComputeOp i rn op)"
    unfolding executeComputeOp_def
    by (intro keeps_if keeps_accounts keeps_arith keeps_memory keeps_writers reading keeps_bind keeps_prims keeps_gets)
  show ?thesis
    unfolding executeOp_def stopFrame_def
    by (intro keeps_if compute keeps_arith keeps_memory keeps_rules keeps_prims assms(8-10); assumption)
qed

end

section \<open>Relations that do not look at the state or the bookkeeping\<close>

text \<open>Such a relation survives every step of the handlers that start a frame, except that gas is
  returned to it at the end.\<close>

lemma keeps_deeperI:
  assumes rel: "step_rel R env_ctx" and depth: "\<And>e d. R e (e\<lparr>env_callDepth := d\<rparr>)"
    and m: "\<And>d. step_rel.keeps R env_ctx P (m d)"
  shows "step_rel.keeps R env_ctx P (deeper m)"
proof -
  have "step_rel.keeps R env_ctx P (modify (\<lambda>e. e\<lparr>env_callDepth := env_callDepth e + 1\<rparr>))"
    by (rule step_rel.keepsI [OF rel]) (simp add: modify_def depth)
  then show ?thesis
    unfolding deeper_def
    by (intro step_rel.keeps_bind [OF rel] step_rel.keeps_deferring [OF rel] step_rel.keeps_gets [OF rel] depth m)
qed

locale call_rel = step_rel R env_ctx
  for R :: "'s Environment \<Rightarrow> 's Environment \<Rightarrow> bool" +
  assumes L_pop: "R e (snd (pop e))"
    and L_push: "R e (snd (push w e))"
    and L_dup: "R e (snd (on_stack (Stack_Dup n) e))"
    and L_swap: "R e (snd (on_stack (Stack_Swap n) e))"
    and L_mem_get: "R e (snd (on_memory (Memory_Get off sz) e))"
    and L_mem_getptr: "R e (snd (on_memory (Memory_GetPtr off sz) e))"
    and L_mem_set: "R e (snd (on_memory (Memory_Set off bs) e))"
    and L_mem_set32: "R e (snd (on_memory (Memory_Set32 off w) e))"
    and L_mem_setbyte: "R e (snd (on_memory (Memory_SetByte off b) e))"
    and L_mem_zero: "R e (snd (on_memory (Memory_ZeroRange off sz) e))"
    and L_returnData: "R e (e\<lparr>env_returnData := bs\<rparr>)"
    and L_stop: "R e (e\<lparr>env_stopped := True\<rparr>)"
    and L_revert: "R e (e\<lparr>env_stopped := True, env_reverted := True, env_err := Some ErrExecutionReverted\<rparr>)"
    and L_destructed: "R e (e\<lparr>env_selfDestructed := True, env_selfDestructBeneficiary := addr, env_stopped := True\<rparr>)"
    and L_auth: "R e (e\<lparr>env_authorizedAddress := x\<rparr>)"
    and L_consume: "R e (snd (consume c e))"
    and L_refund: "R e (e\<lparr>env_gas := Refund r (env_gas e)\<rparr>)"
    and L_shared: "R e (e\<lparr>env_shared := sh\<rparr>)"
    and L_logs: "R e (e\<lparr>env_logs := logs\<rparr>)"
    and L_deeper: "(\<And>d. keeps P (m d)) \<Longrightarrow> keeps P (deeper m)"
    and L_active: "R e (e\<lparr>env_activeAddresses := l\<rparr>)"
    and L_transient: "R e (e\<lparr>env_transientStorage := ref\<rparr>)"
begin

lemma L_db_set: "R e (snd (db_set f e))"
  by (simp add: op_simps L_shared)

lemma L_db_run: "R e (snd (db_run f e))"
  by (simp add: op_simps L_shared split: prod.split)

lemma L_PushActiveAddress: "R e (snd (PushActiveAddress addr e))"
  by (simp add: PushActiveAddress_def L_active R_refl)

lemma L_PopActiveAddress: "R e (PopActiveAddress e)"
  by (simp add: PopActiveAddress_def L_active R_refl)

lemma L_modify: "(\<And>e. R e (f e)) \<Longrightarrow> keeps P (modify f)"
  by (simp add: keeps_def modify_def)

lemmas local_prims = keepsI [OF L_pop] keepsI [OF L_push] keepsI [OF L_consume] keepsI [OF L_db_set] keepsI [OF L_db_run]
  keepsI [OF L_PushActiveAddress] keepsI [OF L_mem_get] L_modify [OF L_shared] L_modify [OF L_stop] L_modify [OF L_destructed]
  L_modify [OF L_logs] L_modify [OF L_active] L_modify [OF L_transient]

lemma L_SelfDestruct: "R e (snd (opSelfDestruct i e))"
proof -
  have "keeps (\<lambda>_. True) (opSelfDestruct i)"
    unfolding opSelfDestruct_def destructAccount_def stopFrame_def db_get_def
    by (intro keeps_rules local_prims keeps_deferring L_PopActiveAddress)
  from keepsD [OF this] show ?thesis by simp
qed

end

sublocale call_rel \<subseteq> handler_rel R i for i
  by unfold_locales
    (simp_all add: L_pop L_push L_dup L_swap L_mem_get L_mem_getptr L_mem_set L_mem_set32 L_mem_setbyte L_mem_zero
      L_returnData L_stop L_revert L_auth L_shared L_refund L_logs L_db_set L_db_run L_consume L_SelfDestruct setTransient_def)

context call_rel
begin

lemma L_pieces:
  "keeps P (revertTo i snap)" "keeps P (release i snap)" "keeps P (restoreAnd k (ret ()))"
  "keeps P (executeChild rn ctx)" "keeps P (runInit rn ie)" "R e (restoreActive k e)"
  by (auto intro!: keepsI L_shared L_active keeps_rules local_prims
      simp: op_simps revertTo_def release_def restoreAnd_def executeChild_def runInit_def restoreActive_def
      R_refl split: prod.split)

lemma L_attempt: "keeps P m \<Longrightarrow> keeps P (attempt m)"
  by (simp add: keeps_def attempt_def case_prod_beta)

lemma L_restoreAnd: "keeps P m \<Longrightarrow> keeps P (restoreAnd k m)"
  unfolding restoreAnd_def by (intro keeps_bind L_modify L_pieces)

lemma L_refuse: "keeps P (refuse k)"
  unfolding refuse_def by (intro L_restoreAnd keeps_prims)

lemma L_withActive: "(\<And>k. keeps P (m k)) \<Longrightarrow> keeps P (withActive addr m)"
  unfolding withActive_def by (intro keeps_rules local_prims L_refuse)

lemma L_atNextDepth: "(\<And>d. keeps P (m d)) \<Longrightarrow> keeps P (atNextDepth m)"
  unfolding atNextDepth_def by (intro L_deeper keeps_if keeps_prims)

lemma L_precompiledOutcome: "keeps P (precompiledOutcome a x)"
  unfolding precompiledOutcome_def by (intro keeps_rules keeps_prims L_attempt keeps_copyReturn keeps_setReturnData)

lemma L_transferValue: "keeps P (transferValue i f b t v)"
  unfolding transferValue_def by (intro keeps_rules local_prims)

lemma L_moved: "keeps P (modify (\<lambda>e. e\<lparr>env_shared := f e, env_transientStorage := g e\<rparr>))"
proof (rule L_modify)
  fix e
  show "R e (e\<lparr>env_shared := f e, env_transientStorage := g e\<rparr>)"
    using R_trans [OF L_shared [of e "f e"] L_transient [of "e\<lparr>env_shared := f e\<rparr>" "g e"]] by simp
qed

lemma L_createPieces:
  "keeps P (createRefused i snap)" "keeps P (createUndone i snap ts)" "keeps P (claimAddress i addr)"
  unfolding createRefused_def createUndone_def claimAddress_def db_get_def
  by (intro keeps_rules local_prims L_pieces L_moved)+

lemma L_deployCode: "keeps P (deployCode i snap ts addr code logs)"
  unfolding deployCode_def by (intro keeps_rules local_prims L_pieces L_createPieces)

end

text \<open>Without a view of the gas the whole handlers keep the relation.\<close>

locale local_rel = call_rel +
  assumes L_gas: "R e (e\<lparr>env_gas := g\<rparr>)"
begin

lemma L_returnGas: "keeps P (returnGas c u)" "keeps P (modify (\<lambda>e. e\<lparr>env_gas := f e\<rparr>))"
  unfolding returnGas_def by (intro keeps_rules L_modify L_gas)+

lemma L_executePrecompiled: "keeps P (executePrecompiled i a input c static)"
  unfolding executePrecompiled_def
  by (intro keeps_rules local_prims keeps_prims L_precompiledOutcome L_returnGas)

lemma L_finishCall: "keeps P (finishCall i a c k snap r)"
  unfolding finishCall_def
  by (intro keeps_rules local_prims keeps_prims L_pieces L_returnGas L_restoreAnd keeps_copyReturn keeps_setReturnData)

lemmas L_call_rules = keeps_rules local_prims keeps_prims L_pieces L_restoreAnd L_refuse L_withActive L_atNextDepth
  L_executePrecompiled L_transferValue L_finishCall L_returnGas L_createPieces L_deployCode keeps_deferring keeps_setReturnData keeps_copyReturn keeps_payGuard

lemma L_enter:
  "keeps P (enterCall i rn a cc g c)" "keeps P (enterStaticCall i rn a cc c)" "keeps P (enterDelegateCall i rn a cc c)"
  "keeps P (enterCallCode i rn a input c)" "keeps P (enterAuthCall i rn a cc b c)"
  unfolding enterCall_def enterStaticCall_def enterDelegateCall_def enterCallCode_def enterAuthCall_def
  by (intro L_call_rules)+

lemma L_create: "keeps P (opCreateGeneric i rn is2)"
  unfolding opCreateGeneric_def createAt_def createRun_def
  by (intro L_call_rules L_moved L_deeper)

lemma L_calls:
  "keeps P (opCall i rn)" "keeps P (opStaticCall i rn)" "keeps P (opDelegateCall i rn)" "keeps P (opCallCode i rn)"
  "keeps P (opAuthCall i rn)"
  unfolding opCall_def opStaticCall_def opDelegateCall_def opCallCode_def opAuthCall_def payAuthCall_def
  by (intro L_call_rules keeps_callArgs keeps_rejectZeroAddrCall keeps_chargeCall L_enter)+

end

end
