(* ===== verification/Rollup_State.thy ===== *)
theory Rollup_State
  imports QVM_State "HOL-Library.AList"
begin

text \<open>
  \<open>src/rollup/state_db.go\<close>: the state of the rollup as the \<open>StateDB\<close> of the virtual machine.
  The account map is a partial function and the storage map of an account an association
  list, so that its emptiness is decidable. Balances are never nil: \<open>getOrCreate\<close>,
  \<open>SetBalance\<close> and \<open>deepCopyAccounts\<close> always store one. The hash of \<open>SetCode\<close>, SHA-256, is a
  parameter. The interpretation shows that this implementation satisfies the contract
  \<open>state_db\<close>.
\<close>

section \<open>Operations\<close>

record RollupAccount =
  ra_Nonce :: u64
  ra_Balance :: int
  ra_CodeHash :: Hash
  ra_Storage :: "(Hash \<times> Hash) list"
  ra_Code :: "byte list"

record rollupStateDB =
  rs_states :: "Address \<Rightarrow> RollupAccount option"
  rs_snapshots :: "(Address \<Rightarrow> RollupAccount option) list"

definition newRollupStateDB :: "(Address \<Rightarrow> RollupAccount option) \<Rightarrow> rollupStateDB" where
  "newRollupStateDB states = \<lparr>rs_states = states, rs_snapshots = []\<rparr>"

definition emptyAccount :: RollupAccount where
  "emptyAccount = \<lparr>ra_Nonce = 0, ra_Balance = 0, ra_CodeHash = 0, ra_Storage = [], ra_Code = []\<rparr>"

definition getOrCreate :: "Address \<Rightarrow> rollupStateDB \<Rightarrow> RollupAccount \<times> rollupStateDB" where
  "getOrCreate addr s =
     (case rs_states s addr of
        Some acc \<Rightarrow> (acc, s)
      | None \<Rightarrow> (emptyAccount, s\<lparr>rs_states := (rs_states s)(addr \<mapsto> emptyAccount)\<rparr>))"

text \<open>A change to the account that \<open>getOrCreate\<close> returned, through the pointer.\<close>

definition put_account :: "Address \<Rightarrow> RollupAccount \<Rightarrow> rollupStateDB \<Rightarrow> rollupStateDB" where
  "put_account addr acc s = s\<lparr>rs_states := (rs_states s)(addr \<mapsto> acc)\<rparr>"

definition rollup_GetBalance :: "Address \<Rightarrow> rollupStateDB \<Rightarrow> int \<times> rollupStateDB" where
  "rollup_GetBalance addr s = (let (acc, s) = getOrCreate addr s in (ra_Balance acc, s))"

definition rollup_SetBalance :: "Address \<Rightarrow> int \<Rightarrow> rollupStateDB \<Rightarrow> rollupStateDB" where
  "rollup_SetBalance addr balance s =
     (let (acc, s) = getOrCreate addr s in put_account addr (acc\<lparr>ra_Balance := balance\<rparr>) s)"

definition rollup_GetNonce :: "Address \<Rightarrow> rollupStateDB \<Rightarrow> u64 \<times> rollupStateDB" where
  "rollup_GetNonce addr s = (let (acc, s) = getOrCreate addr s in (ra_Nonce acc, s))"

definition rollup_SetNonce :: "Address \<Rightarrow> u64 \<Rightarrow> rollupStateDB \<Rightarrow> rollupStateDB" where
  "rollup_SetNonce addr n s = (let (acc, s) = getOrCreate addr s in put_account addr (acc\<lparr>ra_Nonce := n\<rparr>) s)"

definition rollup_GetCode :: "Address \<Rightarrow> rollupStateDB \<Rightarrow> byte list" where
  "rollup_GetCode addr s = (case rs_states s addr of None \<Rightarrow> [] | Some acc \<Rightarrow> ra_Code acc)"

definition rollup_SetCode :: "(byte list \<Rightarrow> Hash) \<Rightarrow> Address \<Rightarrow> byte list \<Rightarrow> rollupStateDB \<Rightarrow> rollupStateDB" where
  "rollup_SetCode sha256 addr code s =
     (let (acc, s) = getOrCreate addr s;
          acc = acc\<lparr>ra_Code := code\<rparr>
      in if length code = 0 then put_account addr (acc\<lparr>ra_CodeHash := 0\<rparr>) s
         else put_account addr (acc\<lparr>ra_CodeHash := sha256 code\<rparr>) s)"

definition rollup_GetCodeHash :: "Address \<Rightarrow> rollupStateDB \<Rightarrow> Hash" where
  "rollup_GetCodeHash addr s = (case rs_states s addr of None \<Rightarrow> 0 | Some acc \<Rightarrow> ra_CodeHash acc)"

definition rollup_GetCodeSize :: "Address \<Rightarrow> rollupStateDB \<Rightarrow> nat" where
  "rollup_GetCodeSize addr s = (case rs_states s addr of None \<Rightarrow> 0 | Some acc \<Rightarrow> length (ra_Code acc))"

definition rollup_GetState :: "Address \<Rightarrow> Hash \<Rightarrow> rollupStateDB \<Rightarrow> Hash" where
  "rollup_GetState addr key s =
     (case rs_states s addr of
        None \<Rightarrow> 0
      | Some acc \<Rightarrow> (case map_of (ra_Storage acc) key of None \<Rightarrow> 0 | Some v \<Rightarrow> v))"

definition rollup_SetState :: "Address \<Rightarrow> Hash \<Rightarrow> Hash \<Rightarrow> rollupStateDB \<Rightarrow> rollupStateDB" where
  "rollup_SetState addr key value s =
     (let (acc, s) = getOrCreate addr s
      in put_account addr (acc\<lparr>ra_Storage := AList.update key value (ra_Storage acc)\<rparr>) s)"

definition rollup_Exist :: "Address \<Rightarrow> rollupStateDB \<Rightarrow> bool" where
  "rollup_Exist addr s =
     (case rs_states s addr of
        None \<Rightarrow> False
      | Some acc \<Rightarrow> ra_Nonce acc > 0 \<or> ra_Balance acc > 0 \<or> length (ra_Code acc) > 0)"

definition rollup_Empty :: "Address \<Rightarrow> rollupStateDB \<Rightarrow> bool" where
  "rollup_Empty addr s =
     (case rs_states s addr of
        None \<Rightarrow> True
      | Some acc \<Rightarrow> ra_Nonce acc = 0 \<and> ra_Balance acc = 0 \<and> length (ra_Code acc) = 0)"

text \<open>A deep copy has the same contents; the model has no sharing to break.\<close>

definition deepCopyAccounts :: "(Address \<Rightarrow> RollupAccount option) \<Rightarrow> Address \<Rightarrow> RollupAccount option" where
  "deepCopyAccounts src =
     (\<lambda>addr. case src addr of
        None \<Rightarrow> None
      | Some acc \<Rightarrow> Some \<lparr>ra_Nonce = ra_Nonce acc, ra_Balance = ra_Balance acc, ra_CodeHash = ra_CodeHash acc,
                         ra_Storage = ra_Storage acc, ra_Code = ra_Code acc\<rparr>)"

definition rollup_Snapshot :: "rollupStateDB \<Rightarrow> int \<times> rollupStateDB" where
  "rollup_Snapshot s =
     (let snapshots = rs_snapshots s @ [deepCopyAccounts (rs_states s)]
      in (int (length snapshots) - 1, s\<lparr>rs_snapshots := snapshots\<rparr>))"

definition rollup_RevertToSnapshot :: "int \<Rightarrow> rollupStateDB \<Rightarrow> rollupStateDB" where
  "rollup_RevertToSnapshot sid s =
     (if sid < 0 \<or> sid \<ge> int (length (rs_snapshots s)) then s
      else s\<lparr>rs_states := deepCopyAccounts (rs_snapshots s ! nat sid),
             rs_snapshots := take (nat sid) (rs_snapshots s)\<rparr>)"

definition rollup_SelfDestruct :: "Address \<Rightarrow> rollupStateDB \<Rightarrow> rollupStateDB" where
  "rollup_SelfDestruct addr s =
     (case rs_states s addr of
        None \<Rightarrow> s
      | Some acc \<Rightarrow> put_account addr (acc\<lparr>ra_Balance := 0, ra_Code := [], ra_CodeHash := 0, ra_Storage := []\<rparr>) s)"

definition rollup_HasSelfDestructed :: "Address \<Rightarrow> rollupStateDB \<Rightarrow> bool" where
  "rollup_HasSelfDestructed addr s =
     (case rs_states s addr of
        None \<Rightarrow> False
      | Some acc \<Rightarrow> length (ra_Code acc) = 0 \<and> ra_CodeHash acc = 0 \<and> ra_Balance acc = 0 \<and> length (ra_Storage acc) = 0)"

definition rollup_AddAddressToAccessList :: "Address \<Rightarrow> rollupStateDB \<Rightarrow> rollupStateDB" where
  "rollup_AddAddressToAccessList addr s = s"

definition rollup_AddSlotToAccessList :: "Address \<Rightarrow> Hash \<Rightarrow> rollupStateDB \<Rightarrow> rollupStateDB" where
  "rollup_AddSlotToAccessList addr k s = s"

definition rollup_AddressInAccessList :: "Address \<Rightarrow> rollupStateDB \<Rightarrow> bool" where
  "rollup_AddressInAccessList addr s = False"

definition rollup_SlotInAccessList :: "Address \<Rightarrow> Hash \<Rightarrow> rollupStateDB \<Rightarrow> bool \<times> bool" where
  "rollup_SlotInAccessList addr k s = (False, False)"

text \<open>The adapter as an implementation of the interface; it has neither of the optional methods.\<close>

definition rollupDB :: "(byte list \<Rightarrow> Hash) \<Rightarrow> rollupStateDB StateDB" where
  "rollupDB sha256 =
     \<lparr>GetBalance = rollup_GetBalance, SetBalance = rollup_SetBalance, GetNonce = rollup_GetNonce,
      SetNonce = rollup_SetNonce, GetCode = rollup_GetCode, SetCode = rollup_SetCode sha256,
      GetCodeHash = rollup_GetCodeHash, GetCodeSize = rollup_GetCodeSize, GetState = rollup_GetState,
      SetState = rollup_SetState, Exist = rollup_Exist, IsEmpty = rollup_Empty,
      Snapshot = rollup_Snapshot, RevertToSnapshot = rollup_RevertToSnapshot,
      SelfDestruct = rollup_SelfDestruct, HasSelfDestructed = rollup_HasSelfDestructed,
      AddAddressToAccessList = rollup_AddAddressToAccessList, AddSlotToAccessList = rollup_AddSlotToAccessList,
      AddressInAccessList = rollup_AddressInAccessList, SlotInAccessList = rollup_SlotInAccessList,
      GetCommittedState = None, ReleaseSnapshot = None\<rparr>"

section \<open>The contract holds\<close>

definition account :: "(Address \<Rightarrow> RollupAccount option) \<Rightarrow> Address \<Rightarrow> RollupAccount" where
  "account states a = (case states a of None \<Rightarrow> emptyAccount | Some acc \<Rightarrow> acc)"

definition states_view :: "(Address \<Rightarrow> RollupAccount option) \<Rightarrow> view" where
  "states_view states =
     \<lparr>v_bal = (\<lambda>a. ra_Balance (account states a)), v_nonce = (\<lambda>a. ra_Nonce (account states a)),
      v_code = (\<lambda>a. ra_Code (account states a)),
      v_slot = (\<lambda>a k. case map_of (ra_Storage (account states a)) k of None \<Rightarrow> 0 | Some v \<Rightarrow> v)\<rparr>"

lemma rollupDB_methods [simp]:
  "GetBalance (rollupDB sha256) = rollup_GetBalance"
  "SetBalance (rollupDB sha256) = rollup_SetBalance"
  "GetNonce (rollupDB sha256) = rollup_GetNonce"
  "SetNonce (rollupDB sha256) = rollup_SetNonce"
  "GetCode (rollupDB sha256) = rollup_GetCode"
  "SetCode (rollupDB sha256) = rollup_SetCode sha256"
  "GetCodeHash (rollupDB sha256) = rollup_GetCodeHash"
  "GetCodeSize (rollupDB sha256) = rollup_GetCodeSize"
  "GetState (rollupDB sha256) = rollup_GetState"
  "SetState (rollupDB sha256) = rollup_SetState"
  "Exist (rollupDB sha256) = rollup_Exist"
  "IsEmpty (rollupDB sha256) = rollup_Empty"
  "Snapshot (rollupDB sha256) = rollup_Snapshot"
  "RevertToSnapshot (rollupDB sha256) = rollup_RevertToSnapshot"
  "SelfDestruct (rollupDB sha256) = rollup_SelfDestruct"
  "HasSelfDestructed (rollupDB sha256) = rollup_HasSelfDestructed"
  "AddAddressToAccessList (rollupDB sha256) = rollup_AddAddressToAccessList"
  "AddSlotToAccessList (rollupDB sha256) = rollup_AddSlotToAccessList"
  "AddressInAccessList (rollupDB sha256) = rollup_AddressInAccessList"
  "SlotInAccessList (rollupDB sha256) = rollup_SlotInAccessList"
  "GetCommittedState (rollupDB sha256) = None"
  "ReleaseSnapshot (rollupDB sha256) = None"
  by (simp_all add: rollupDB_def)

lemma getOrCreate_eq:
  "getOrCreate a s = (account (rs_states s) a, s\<lparr>rs_states := (rs_states s)(a \<mapsto> account (rs_states s) a)\<rparr>)"
  by (auto simp: getOrCreate_def account_def fun_upd_idem split: option.split)

lemma account_upd: "account (states(a \<mapsto> acc)) b = (if b = a then acc else account states b)"
  by (simp add: account_def)

lemma deepCopyAccounts_id [simp]: "deepCopyAccounts states = states"
  by (auto simp: deepCopyAccounts_def fun_eq_iff split: option.split)

lemma rollup_view: "view_of (rollupDB sha256) s = states_view (rs_states s)"
  by (auto simp: view_of_def states_view_def bal_def nonce_def code_at_def slot_def rollup_GetBalance_def
      rollup_GetNonce_def rollup_GetCode_def rollup_GetState_def getOrCreate_eq fun_eq_iff account_def emptyAccount_def
      split: option.split)

lemma rollup_parts:
  "bal (rollupDB sha256) s = v_bal (states_view (rs_states s))" "nonce (rollupDB sha256) s = v_nonce (states_view (rs_states s))"
  "code_at (rollupDB sha256) s = v_code (states_view (rs_states s))" "slot (rollupDB sha256) s = v_slot (states_view (rs_states s))"
  by (simp_all add: rollup_view [of sha256 s, symmetric] view_of_def)

lemmas rollup_ops = rollup_GetBalance_def rollup_SetBalance_def rollup_GetNonce_def rollup_SetNonce_def rollup_SetCode_def
  rollup_SetState_def rollup_SelfDestruct_def rollup_Snapshot_def rollup_RevertToSnapshot_def
  rollup_AddAddressToAccessList_def rollup_AddSlotToAccessList_def put_account_def

interpretation rollup: state_db "rollupDB sha256" "\<lambda>s. map states_view (rs_snapshots s)" for sha256
proof unfold_locales
  show "bal (rollupDB sha256) (SelfDestruct (rollupDB sha256) a s) = (bal (rollupDB sha256) s)(a := 0)" for a s
    by (auto simp: rollup_parts states_view_def rollup_ops account_upd fun_eq_iff split: option.split)
      (simp add: account_def emptyAccount_def)
qed (auto simp: rollup_view rollup_parts states_view_def rollup_ops getOrCreate_eq account_upd fun_eq_iff
      AList.update_conv' Let_def take_map case_prod_beta split: option.split if_splits)

section \<open>Properties\<close>

text \<open>The calls of the interface an execution makes after a snapshot: any of the state-changing
  methods, further snapshots, and reverts to snapshots taken later.\<close>

datatype db_call =
    CGetBalance Address | CSetBalance Address int | CGetNonce Address | CSetNonce Address u64
  | CSetCode Address "byte list" | CSetState Address Hash Hash | CSelfDestruct Address
  | CSnapshot | CRevert int

fun db_step :: "(byte list \<Rightarrow> Hash) \<Rightarrow> db_call \<Rightarrow> rollupStateDB \<Rightarrow> rollupStateDB" where
  "db_step h (CGetBalance a) s = snd (rollup_GetBalance a s)"
| "db_step h (CSetBalance a v) s = rollup_SetBalance a v s"
| "db_step h (CGetNonce a) s = snd (rollup_GetNonce a s)"
| "db_step h (CSetNonce a n) s = rollup_SetNonce a n s"
| "db_step h (CSetCode a c) s = rollup_SetCode h a c s"
| "db_step h (CSetState a k w) s = rollup_SetState a k w s"
| "db_step h (CSelfDestruct a) s = rollup_SelfDestruct a s"
| "db_step h CSnapshot s = snd (rollup_Snapshot s)"
| "db_step h (CRevert sid) s = rollup_RevertToSnapshot sid s"

fun later_than :: "nat \<Rightarrow> db_call \<Rightarrow> bool" where
  "later_than n (CRevert sid) = (sid < 0 \<or> int n < sid)"
| "later_than n _ = True"

lemma db_step_prefix:
  assumes "later_than n c" and "n < length (rs_snapshots s)"
  shows "n < length (rs_snapshots (db_step h c s)) \<and> take (Suc n) (rs_snapshots (db_step h c s)) = take (Suc n) (rs_snapshots s)"
  using assms by (cases c) (auto simp: rollup_ops getOrCreate_eq Let_def min_def split: option.split)

lemma db_steps_prefix:
  assumes "list_all (later_than n) cs" and "n < length (rs_snapshots s)"
  shows "n < length (rs_snapshots (fold (db_step h) cs s)) \<and>
    take (Suc n) (rs_snapshots (fold (db_step h) cs s)) = take (Suc n) (rs_snapshots s)"
  using assms
proof (induction cs arbitrary: s)
  case (Cons c cs)
  then show ?case using db_step_prefix [of n c s h] by simp
qed simp

text \<open>C19: Snapshots of the rollup state are exact and nest: whatever state-changing calls, further
  snapshots and reverts to later snapshots follow, reverting to a snapshot restores the
  accounts and the snapshot stack exactly as they were when it was taken.\<close>

theorem rollup_snapshot_revert:
  assumes "list_all (later_than (length (rs_snapshots s))) calls"
  shows "rollup_RevertToSnapshot (fst (rollup_Snapshot s)) (fold (db_step h) calls (snd (rollup_Snapshot s))) = s"
proof -
  let ?n = "length (rs_snapshots s)" and ?t = "fold (db_step h) calls (snd (rollup_Snapshot s))"
  have s1: "rs_snapshots (snd (rollup_Snapshot s)) = rs_snapshots s @ [rs_states s]" "fst (rollup_Snapshot s) = int ?n"
    by (simp_all add: rollup_Snapshot_def)
  from db_steps_prefix [OF assms, of "snd (rollup_Snapshot s)" h] s1
  have t: "?n < length (rs_snapshots ?t)" "take (Suc ?n) (rs_snapshots ?t) = rs_snapshots s @ [rs_states s]" by simp_all
  have "rs_snapshots ?t ! ?n = rs_states s" using t by (metis lessI nth_append_length nth_take)
  moreover have "take ?n (rs_snapshots ?t) = rs_snapshots s"
  proof -
    have "take ?n (rs_snapshots ?t) = take ?n (take (Suc ?n) (rs_snapshots ?t))" by (simp add: min_def)
    then show ?thesis unfolding t(2) by simp
  qed
  ultimately show ?thesis using t(1) s1(2) by (simp add: rollup_RevertToSnapshot_def)
qed

theorem rollup_snapshot_revert_witness:
  "rollup_RevertToSnapshot (fst (rollup_Snapshot (newRollupStateDB Map.empty)))
     (fold (db_step (\<lambda>_. 0)) [CSetBalance 7 100, CSnapshot, CSetState 7 1 2, CRevert 1, CSelfDestruct 7]
        (snd (rollup_Snapshot (newRollupStateDB Map.empty)))) = newRollupStateDB Map.empty"
  by (rule rollup_snapshot_revert) (simp add: newRollupStateDB_def)

text \<open>The abstract ledger the adapter implements: the contents of the accounts and the stack of
  contents to return to, without any notion of accounts that exist or not.\<close>

fun ledger_step :: "db_call \<Rightarrow> view \<times> view list \<Rightarrow> view \<times> view list" where
  "ledger_step (CGetBalance a) l = l"
| "ledger_step (CSetBalance a v) (l, ls) = (l\<lparr>v_bal := (v_bal l)(a := v)\<rparr>, ls)"
| "ledger_step (CGetNonce a) l = l"
| "ledger_step (CSetNonce a n) (l, ls) = (l\<lparr>v_nonce := (v_nonce l)(a := n)\<rparr>, ls)"
| "ledger_step (CSetCode a c) (l, ls) = (l\<lparr>v_code := (v_code l)(a := c)\<rparr>, ls)"
| "ledger_step (CSetState a k w) (l, ls) = (l\<lparr>v_slot := (v_slot l)(a := (v_slot l a)(k := w))\<rparr>, ls)"
| "ledger_step (CSelfDestruct a) (l, ls) =
     (l\<lparr>v_bal := (v_bal l)(a := 0), v_code := (v_code l)(a := []), v_slot := (v_slot l)(a := (\<lambda>_. 0))\<rparr>, ls)"
| "ledger_step CSnapshot (l, ls) = (l, ls @ [l])"
| "ledger_step (CRevert sid) (l, ls) =
     (if sid < 0 \<or> sid \<ge> int (length ls) then (l, ls) else (ls ! nat sid, take (nat sid) ls))"

definition ledger_of :: "rollupStateDB \<Rightarrow> view \<times> view list" where
  "ledger_of s = (states_view (rs_states s), map states_view (rs_snapshots s))"

lemma ledger_step_abs: "ledger_of (db_step h c s) = ledger_step c (ledger_of s)"
proof (cases c)
  case (CSelfDestruct a)
  show ?thesis
  proof (cases "rs_states s a")
    case None
    then show ?thesis unfolding CSelfDestruct
      by (simp add: ledger_of_def rollup_ops states_view_def account_def emptyAccount_def fun_eq_iff)
  next
    case (Some acc)
    then show ?thesis unfolding CSelfDestruct
      by (simp add: ledger_of_def rollup_ops states_view_def account_upd fun_eq_iff) (simp add: account_def)
  qed
qed (auto simp: ledger_of_def rollup_ops states_view_def getOrCreate_eq account_upd fun_eq_iff AList.update_conv' Let_def
      take_map split: option.split)

text \<open>C18: The rollup adapter refines the ledger: after any sequence of calls of the interface its
  accounts and snapshots are those of the ledger after the same sequence, and the getters answer
  what the ledger holds, although reading may create accounts.\<close>

theorem rollup_refines_ledger:
  "ledger_of (fold (db_step h) calls s) = fold ledger_step calls (ledger_of s) \<and>
   fst (rollup_GetBalance a s) = v_bal (fst (ledger_of s)) a \<and> fst (rollup_GetNonce a s) = v_nonce (fst (ledger_of s)) a \<and>
   rollup_GetCode a s = v_code (fst (ledger_of s)) a \<and> rollup_GetCodeSize a s = length (v_code (fst (ledger_of s)) a) \<and>
   rollup_GetState a k s = v_slot (fst (ledger_of s)) a k \<and> fst (rollup_Snapshot s) = int (length (snd (ledger_of s)))"
proof -
  have "ledger_of (fold (db_step h) calls s) = fold ledger_step calls (ledger_of s)"
    by (induction calls arbitrary: s) (simp_all add: ledger_step_abs)
  moreover have "fst (rollup_GetBalance a s) = v_bal (fst (ledger_of s)) a" "fst (rollup_GetNonce a s) = v_nonce (fst (ledger_of s)) a"
      "rollup_GetCode a s = v_code (fst (ledger_of s)) a" "rollup_GetState a k s = v_slot (fst (ledger_of s)) a k"
    using rollup_parts [of h s]
    by (simp_all add: ledger_of_def bal_def nonce_def code_at_def slot_def fun_eq_iff)
  moreover have "rollup_GetCodeSize a s = length (v_code (fst (ledger_of s)) a)"
    by (simp add: ledger_of_def states_view_def rollup_GetCodeSize_def account_def emptyAccount_def split: option.split)
  ultimately show ?thesis by (simp add: ledger_of_def rollup_Snapshot_def)
qed

text \<open>C37: Reading the balance of an address that has no account creates an empty account, and from
  then on \<open>HasSelfDestructed\<close> reports the address as destructed.\<close>

theorem rollup_touched_looks_destructed:
  assumes "rs_states s a = None"
  shows "\<not> rollup_HasSelfDestructed a s \<and> rollup_HasSelfDestructed a (snd (rollup_GetBalance a s))"
  using assms by (simp add: rollup_HasSelfDestructed_def rollup_GetBalance_def getOrCreate_def emptyAccount_def)

theorem rollup_touched_looks_destructed_witness:
  "rollup_HasSelfDestructed 5 (snd (rollup_GetBalance 5 (newRollupStateDB Map.empty)))"
  using rollup_touched_looks_destructed [of "newRollupStateDB Map.empty" 5] by (simp add: newRollupStateDB_def)

end
