(* ===== verification/QVM_Run.thy ===== *)
theory QVM_Run
  imports QVM_Rel Rollup_State
begin

text \<open>
  \<open>Interpreter.run\<close> of \<open>src/qvm/environment.go\<close>: the loop over the opcodes of one frame, the
  clearing of key material and the result. The loop is total because every turn pays gas or
  moves on in the code, which is where the relations of \<open>QVM_Rel\<close> are used first: gas is only
  spent, and the opcodes without a base cost leave the program counter alone. The recovery from
  Go run-time panics, the abort channel and the tracer of \<open>run\<close> are not modelled.
\<close>

section \<open>What stays fixed in a frame\<close>

definition sameFrame :: "'s Environment \<Rightarrow> 's Environment \<Rightarrow> bool" where
  "sameFrame e e' \<longleftrightarrow> env_ctx e' = env_ctx e \<and> env_jumpDests e' = env_jumpDests e \<and>
     env_parentEnv e' = env_parentEnv e \<and> env_blockHashes e' = env_blockHashes e"

definition samePc :: "'s Environment \<Rightarrow> 's Environment \<Rightarrow> bool" where
  "samePc e e' \<longleftrightarrow> sameFrame e e' \<and> env_pc e' = env_pc e"

interpretation fixed: step_rel sameFrame env_ctx
  by unfold_locales (auto simp: sameFrame_def)

interpretation fixed: local_rel sameFrame
  by unfold_locales
    (rule keeps_deeperI [OF fixed.step_rel_axioms] | (auto simp: sameFrame_def op_simps split: prod.split)[1])+

interpretation counter: step_rel samePc env_ctx
  by unfold_locales (auto simp: samePc_def sameFrame_def)

interpretation counter: local_rel samePc
  by unfold_locales
    (rule keeps_deeperI [OF counter.step_rel_axioms] | (auto simp: samePc_def sameFrame_def op_simps split: prod.split)[1])+

lemma free_ops_cases: "op \<in> set free_ops \<Longrightarrow> op \<notin> set pushOps \<and> op \<noteq> op_JUMP \<and> op \<noteq> op_JUMPI"
  by (auto simp: free_ops_def pushOps_def)

lemma executeOp_samePc:
  assumes "op \<notin> set pushOps" and "op \<noteq> op_JUMP" and "op \<noteq> op_JUMPI"
  shows "samePc e (snd (executeOp i rn op e))"
proof -
  have "counter.keeps (\<lambda>_. True) (executeOp i rn op)"
    using assms by (intro counter.keeps_executeOp counter.L_calls counter.L_create) simp_all
  from counter.keepsD [OF this] show ?thesis by simp
qed

lemma keeps_pc_moves: "fixed.keeps P (opPush op)" "fixed.keeps P opJump" "fixed.keeps P opJumpI"
proof -
  have pc: "fixed.keeps P (modify (\<lambda>e. e\<lparr>env_pc := p\<rparr>))" for p and P :: "ExecutionContext \<Rightarrow> bool"
    by (rule fixed.L_modify) (simp add: sameFrame_def)
  show "fixed.keeps P (opPush op)" "fixed.keeps P opJump" "fixed.keeps P opJumpI"
    unfolding opPush_def opJump_def opJumpI_def jumpTo_def
    by (intro fixed.keeps_rules fixed.keeps_prims pc)+
qed

lemma executeOp_sameFrame: "sameFrame e (snd (executeOp i rn op e))"
proof -
  have "fixed.keeps (\<lambda>_. True) (executeOp i rn op)"
    by (intro fixed.keeps_executeOp fixed.L_calls fixed.L_create keeps_pc_moves)
  from fixed.keepsD [OF this] show ?thesis by simp
qed

section \<open>Gas is only spent\<close>

definition spends :: "'s Environment \<Rightarrow> 's Environment \<Rightarrow> bool" where
  "spends e e' \<longleftrightarrow> env_ctx e' = env_ctx e \<and> gm_limit (env_gas e') = gm_limit (env_gas e) \<and>
     (gas_ok (env_gas e) \<longrightarrow> gm_used (env_gas e) \<le> gm_used (env_gas e') \<and> gas_ok (env_gas e'))"

lemma spends_sameGas: "env_ctx e' = env_ctx e \<Longrightarrow> env_gas e' = env_gas e \<Longrightarrow> spends e e'"
  by (simp add: spends_def)

lemma spends_consume: "spends e (snd (consume c e))"
  using Consume_used_mono [of "env_gas e" c] gas_ok_Consume [of "env_gas e" c]
  by (simp add: spends_def op_simps Consume_keeps split: prod.split) (metis Consume_keeps(1) snd_conv)

interpretation gas: step_rel spends env_ctx
  by unfold_locales (auto simp: spends_def)

interpretation gas: call_rel spends
  by unfold_locales
    (rule spends_consume keeps_deeperI [OF gas.step_rel_axioms] | (auto simp: spends_def gas_ok_def Refund_keeps op_simps split: prod.split)[1])+

lemma Consume_paid:
  assumes "Consume c g = (Inr (), g')"
  shows "gm_limit g' = gm_limit g" "unat (gm_used g') = unat (gm_used g) + unat c" "gas_ok g'"
  using assms add_wraps_iff [of "gm_used g" c]
  by (auto simp: Consume_def Let_def gas_ok_def unat_add64_id split: if_splits)

text \<open>From a successful payment of \<open>c\<close> on, at most \<open>c\<close> comes back.\<close>

definition gasAt :: "ExecutionContext \<Rightarrow> u64 \<Rightarrow> nat \<Rightarrow> 's Environment \<Rightarrow> bool" where
  "gasAt c l b e \<longleftrightarrow> env_ctx e = c \<and> gm_limit (env_gas e) = l \<and> b \<le> unat (gm_used (env_gas e)) \<and> gas_ok (env_gas e)"

definition returnsAtMost :: "u64 \<Rightarrow> ('s Environment, 'a) op \<Rightarrow> bool" where
  "returnsAtMost c m \<longleftrightarrow> (\<forall>ctx l b. triple (gasAt ctx l (b + unat c)) m (\<lambda>_. gasAt ctx l b) (gasAt ctx l b))"

abbreviation "keepsGas m \<equiv> gas.keeps (\<lambda>_. True) m"

lemma gasAt_less: "gasAt c l (b + k) e \<Longrightarrow> gasAt c l b e"
  by (simp add: gasAt_def)

lemma gasAt_keeps: "keepsGas m \<Longrightarrow> triple (gasAt c l b) m (\<lambda>_. gasAt c l b) (gasAt c l b)"
proof -
  assume m: "keepsGas m"
  have "gasAt c l b (snd (m e))" if "gasAt c l b e" for e
    using gas.keepsD [OF m, of e] that by (auto simp: gasAt_def spends_def word_le_nat_alt)
  then show ?thesis by (auto simp: triple_def split: prod.split sum.split dest!: sndI)
qed

lemma returnsAtMost_keeps: "keepsGas m \<Longrightarrow> returnsAtMost c m"
  unfolding returnsAtMost_def by (blast intro: triple_pre [OF gasAt_keeps] gasAt_less)

lemma returnsAtMost_later:
  assumes "keepsGas m" and "\<And>a. returnsAtMost c (k a)"
  shows "returnsAtMost c (bind m k)"
  unfolding returnsAtMost_def
proof (intro allI)
  fix ctx l b
  show "triple (gasAt ctx l (b + unat c)) (bind m k) (\<lambda>_. gasAt ctx l b) (gasAt ctx l b)"
  proof (rule triple_bind)
    show "triple (gasAt ctx l (b + unat c)) m (\<lambda>_. gasAt ctx l (b + unat c)) (gasAt ctx l b)"
      by (rule triple_conseq [OF gasAt_keeps [OF assms(1), where b = "b + unat c"]]) (auto dest: gasAt_less)
  qed (use assms(2) in \<open>simp add: returnsAtMost_def\<close>)
qed

lemma returnsAtMost_now:
  assumes "returnsAtMost c m" and "\<And>a. keepsGas (k a)"
  shows "returnsAtMost c (bind m k)"
  unfolding returnsAtMost_def
proof (intro allI)
  fix ctx l b
  show "triple (gasAt ctx l (b + unat c)) (bind m k) (\<lambda>_. gasAt ctx l b) (gasAt ctx l b)"
    using assms(1) by (intro triple_bind [OF _ gasAt_keeps [OF assms(2)]]) (simp add: returnsAtMost_def)
qed

lemma returnsAtMost_if: "(b \<Longrightarrow> returnsAtMost c m) \<Longrightarrow> (\<not> b \<Longrightarrow> returnsAtMost c n) \<Longrightarrow> returnsAtMost c (if b then m else n)"
  by simp

lemma returnsAtMost_Return: "a \<le> c \<Longrightarrow> returnsAtMost c (modify (\<lambda>e. e\<lparr>env_gas := Return a (env_gas e)\<rparr>))"
  by (auto simp: returnsAtMost_def triple_def gasAt_def modify_def Return_keeps Return_spec gas_ok_Return word_le_nat_alt)

lemma returnsAtMost_returnGas: "returnsAtMost c (returnGas c u)"
  unfolding returnGas_def
  by (rule returnsAtMost_if, rule returnsAtMost_Return)
    (simp_all add: returnsAtMost_keeps gas.keeps_ret word_less_nat_alt word_le_nat_alt unat_sub64)

lemma keeps_spending:
  assumes "\<And>x. gas.keeps P (h x)" and "returnsAtMost c (k :: ('s Environment, 'a) op)"
  shows "gas.keeps P (catch (consume c) h (\<lambda>_. k))"
proof (rule gas.keepsI)
  fix e :: "'s Environment"
  assume P: "P (env_ctx e)"
  obtain r e1 where e1: "consume c e = (r, e1)" by (cases "consume c e")
  have s1: "spends e e1" using spends_consume [of e c] e1 by simp
  show "spends e (snd (catch (consume c) h (\<lambda>_. k) e))"
  proof (cases r)
    case (Inl x)
    have "spends e1 (snd (h x e1))" using s1 P by (intro gas.keepsD [OF assms(1)]) (simp add: spends_def)
    with s1 Inl e1 show ?thesis by (auto simp: op_simps intro: gas.R_trans)
  next
    case (Inr u)
    let ?b = "unat (gm_used (env_gas e))"
    have "Consume c (env_gas e) = (Inr (), env_gas e1)" "env_ctx e1 = env_ctx e"
      using Inr e1 by (auto simp: op_simps split: prod.splits)
    then have "gasAt (env_ctx e) (gm_limit (env_gas e)) (?b + unat c) e1"
      using Consume_paid [of c "env_gas e" "env_gas e1"] by (simp add: gasAt_def)
    then have "gasAt (env_ctx e) (gm_limit (env_gas e)) ?b (snd (k e1))"
      using assms(2) unfolding returnsAtMost_def
      by (cases "k e1") (auto dest!: triple_elim [rotated 2] split: sum.splits)
    with Inr e1 show ?thesis by (simp add: op_simps gasAt_def spends_def word_le_nat_alt)
  qed
qed

lemma returnsAtMost_prod: "(\<And>a b. returnsAtMost c (m a b)) \<Longrightarrow> returnsAtMost c (case x of (a, b) \<Rightarrow> m a b)"
  by (cases x) simp

lemma returnsAtMost_precompiled:
  assumes fin: "\<And>s err. keepsGas (f s err)" and child: "returnsAtMost c (k :: ('s Environment, 'b) op)"
  shows "returnsAtMost c (bind (executePrecompiled i a input c static)
    (\<lambda>p. case p of Some (s, err) \<Rightarrow> f s err | None \<Rightarrow> k))"
proof -
  have outcome: "returnsAtMost c (bind (bind g (\<lambda>_. bind (precompiledOutcome a x) (\<lambda>r. ret (Some r))))
      (\<lambda>p. case p of Some r \<Rightarrow> f (fst r) (snd r) | None \<Rightarrow> k))"
    if "returnsAtMost c g" for g :: "('s Environment, unit) op" and x
    unfolding bind_assoc bind_ret option.case
    by (intro returnsAtMost_now that gas.keeps_bind gas.L_precompiledOutcome fin)
  consider "\<not> i_IsPrecompiled i (ca_addr a)" | "i_IsPrecompiled i (ca_addr a)" "static \<and> i_IsStateful i (ca_addr a)"
    | "i_IsPrecompiled i (ca_addr a)" "\<not> (static \<and> i_IsStateful i (ca_addr a))" by blast
  then show ?thesis
  proof cases
    case 1
    then show ?thesis using child by (simp add: executePrecompiled_def)
  next
    case 2
    then show ?thesis unfolding executePrecompiled_def split_beta
      by (simp only: if_True if_False simp_thms) (intro outcome returnsAtMost_Return order_refl)
  next
    case 3
    then show ?thesis unfolding executePrecompiled_def split_beta
      by (simp only: if_True if_False simp_thms bind_assoc [of "gets _"] bind_assoc [of "db_run _"])
        (rule returnsAtMost_later, rule gas.keeps_gets, rule returnsAtMost_later, rule gas.keepsI [OF gas.L_db_run],
          rule outcome, rule returnsAtMost_returnGas)
  qed
qed

lemma returnsAtMost_finishCall: "returnsAtMost c (finishCall i a c saved snap r)"
  unfolding finishCall_def
  by (intro returnsAtMost_now returnsAtMost_returnGas gas.keeps_rules gas.local_prims gas.keeps_prims gas.L_pieces
      gas.L_restoreAnd gas.keeps_copyReturn gas.keeps_setReturnData)

lemmas gas_rules = gas.keeps_rules gas.local_prims gas.keeps_prims gas.L_pieces gas.L_restoreAnd gas.L_refuse
  gas.L_withActive gas.L_atNextDepth gas.L_transferValue gas.keeps_deferring gas.keeps_payGuard gas.keeps_setReturnData gas.keeps_copyReturn
  gas.L_createPieces gas.L_deployCode

lemmas returns_rules = returnsAtMost_precompiled returnsAtMost_finishCall returnsAtMost_if
  returnsAtMost_keeps [OF gas.keeps_pushUint64] returnsAtMost_keeps [OF gas.L_refuse]

lemma gas_enter:
  "keepsGas (enterCall i rn a cc g c)" "keepsGas (enterDelegateCall i rn a cc c)"
  "keepsGas (enterCallCode i rn a input c)" "keepsGas (enterAuthCall i rn a cc b c)"
  unfolding enterCall_def enterDelegateCall_def enterCallCode_def enterAuthCall_def
  by (intro keeps_spending returns_rules returnsAtMost_later gas.L_atNextDepth gas_rules)+

lemma gas_enterStatic: "keepsGas (enterStaticCall i rn a cc c)"
  unfolding enterStaticCall_def
  by (intro keeps_spending returns_rules gas.L_atNextDepth returnsAtMost_now returnsAtMost_returnGas returnsAtMost_later gas_rules)

lemma gas_createRun: "keepsGas (createRun i rn snap addr v code)"
  unfolding createRun_def
  by (intro keeps_spending returnsAtMost_later returnsAtMost_prod returnsAtMost_now returnsAtMost_returnGas gas.L_deeper gas_rules)

lemma gas_create: "keepsGas (opCreateGeneric i rn is2)"
  unfolding opCreateGeneric_def createAt_def by (intro gas_createRun gas_rules)

lemma gas_calls:
  "keepsGas (opCall i rn)" "keepsGas (opStaticCall i rn)" "keepsGas (opDelegateCall i rn)" "keepsGas (opCallCode i rn)"
  "keepsGas (opAuthCall i rn)"
  unfolding opCall_def opStaticCall_def opDelegateCall_def opCallCode_def opAuthCall_def payAuthCall_def
  by (intro gas_rules gas.keeps_callArgs gas.keeps_rejectZeroAddrCall gas.keeps_chargeCall gas_enter gas_enterStatic)+

lemma gas_pc_moves: "keepsGas (opPush op)" "keepsGas opJump" "keepsGas opJumpI"
proof -
  have pc: "keepsGas (modify (\<lambda>e. e\<lparr>env_pc := p\<rparr>))" for p
    by (rule gas.L_modify) (simp add: spends_def)
  show "keepsGas (opPush op)" "keepsGas opJump" "keepsGas opJumpI"
    unfolding opPush_def opJump_def opJumpI_def jumpTo_def
    by (intro gas.keeps_rules gas.keeps_prims pc)+
qed

lemma executeOp_spends: "spends e (snd (executeOp i rn op e))"
proof -
  have "keepsGas (executeOp i rn op)"
    by (intro gas.keeps_executeOp gas_calls gas_create gas_pc_moves)
  from gas.keepsD [OF this] show ?thesis by simp
qed

section \<open>The loop\<close>

text \<open>A turn of the loop, by what it leads to.\<close>

lemma stepOp_cases [case_names fault ran]:
  fixes e :: "'s Environment"
  obtains (fault) x e1 where "stepOp i rn e = fault x e1"
  | (ran) op e1 e2 where "op = ctx_Code (env_ctx e) ! unat (env_pc e)" and "IsValid op"
      and "consume (GasCost (opcodeInfoTable op)) e = (Inr (), e1)"
      and "executeOp i rn op (e1\<lparr>env_pc := env_pc e1 + 1\<rparr>) = (Inr (), e2)" and "stepOp i rn e = e2"
proof -
  let ?op = "ctx_Code (env_ctx e) ! unat (env_pc e)"
  let ?info = "opcodeInfoTable ?op"
  let ?run = "case consume (GasCost ?info) e of (Inl x, e) \<Rightarrow> fault x e
      | (Inr _, e) \<Rightarrow> (case executeOp i rn ?op (e\<lparr>env_pc := env_pc e + 1\<rparr>) of (Inl x, e) \<Rightarrow> fault x e | (Inr _, e) \<Rightarrow> e)"
  have three: "(\<exists>x e1. (if \<not> v then fault a e else if u then fault b e else if w then fault c e else r) = fault x e1) \<or>
      v \<and> (if \<not> v then fault a e else if u then fault b e else if w then fault c e else r) = r"
    for v u w a b c and r :: "'s Environment"
    by auto
  consider x e1 where "stepOp i rn e = fault x e1" | "IsValid ?op" "stepOp i rn e = ?run"
    using three unfolding stepOp_def GetInfo_eq Let_def prod.case by blast
  then show thesis
  proof cases
    case 1
    then show ?thesis by (rule fault)
  next
    case 2
    show ?thesis
    proof (cases "consume (GasCost ?info) e")
      case (Pair r e1)
      show ?thesis
      proof (cases r)
        case (Inl x)
        with Pair 2 show ?thesis by (intro fault [of x e1]) simp
      next
        case (Inr u)
        obtain r2 e2 where run: "executeOp i rn ?op (e1\<lparr>env_pc := env_pc e1 + 1\<rparr>) = (r2, e2)" by fastforce
        show ?thesis
        proof (cases r2)
          case (Inl x)
          with Pair Inr run 2 show ?thesis by (intro fault [of x e2]) simp
        next
          case (Inr v)
          with Pair \<open>r = Inr u\<close> run 2 show ?thesis by (intro ran [of ?op e1 e2]) simp_all
        qed
      qed
    qed
  qed
qed

definition running :: "'s Environment \<Rightarrow> bool" where
  "running e \<longleftrightarrow> \<not> env_stopped e \<and> env_pc e < ulen (ctx_Code (env_ctx e))"

text \<open>The turns the loop can still take: every turn pays gas or moves on in the code.\<close>

definition codeLen :: "'s Environment \<Rightarrow> nat" where
  "codeLen e = unat (ulen (ctx_Code (env_ctx e)))"

definition turnsLeft :: "'s Environment \<Rightarrow> nat" where
  "turnsLeft e = (if running e
     then Suc ((unat (gm_limit (env_gas e)) - unat (gm_used (env_gas e))) * Suc (codeLen e) + (codeLen e - unat (env_pc e)))
     else 0)"

lemma lex_bound:
  fixes r r' n p p' :: nat
  assumes "r' < r \<or> r' = r \<and> p < p'" and "p < n"
  shows "r' * Suc n + (n - p') < r * Suc n + (n - p)"
proof (cases "r' < r")
  case True
  then have "Suc r' * Suc n \<le> r * Suc n" by (intro mult_le_mono1) simp
  then show ?thesis by simp
next
  case False
  with assms show ?thesis by (auto intro: diff_less_mono2)
qed

lemma stepOp_turns:
  assumes run: "running e"
  shows "turnsLeft (stepOp i rn e) < turnsLeft e"
proof (cases rule: stepOp_cases [of i rn e])
  case (fault x e1)
  then show ?thesis using run by (simp add: turnsLeft_def running_def fault_def)
next
  case (ran op e1 e2)
  let ?used = "\<lambda>e. unat (gm_used (env_gas e))"
  let ?limit = "unat (gm_limit (env_gas e))"
  let ?cost = "GasCost (opcodeInfoTable op)"
  let ?e1 = "e1\<lparr>env_pc := env_pc e1 + 1\<rparr>"
  have paid: "Consume ?cost (env_gas e) = (Inr (), env_gas e1)" and e1: "e1 = e\<lparr>env_gas := env_gas e1\<rparr>"
    using ran(3) by (auto simp: op_simps split: prod.splits)
  have g1: "gm_limit (env_gas e1) = gm_limit (env_gas e)" "?used e1 = ?used e + unat ?cost" "gas_ok (env_gas e1)"
    using Consume_paid [OF paid] by blast+
  have pc: "unat (env_pc e) < codeLen e" using run by (simp add: running_def codeLen_def word_less_nat_alt)
  have spends: "spends ?e1 e2" using executeOp_spends [of ?e1 i rn op] ran(4) by simp
  then have g2: "gm_limit (env_gas e2) = gm_limit (env_gas e)" "?used e1 \<le> ?used e2" "?used e2 \<le> ?limit"
    using g1 by (auto simp: spends_def gas_ok_def word_le_nat_alt)
  have ctx: "env_ctx e2 = env_ctx e" using spends arg_cong [OF e1, of env_ctx] by (simp add: spends_def)
  have "?limit - ?used e2 < ?limit - ?used e \<or>
      ?limit - ?used e2 = ?limit - ?used e \<and> unat (env_pc e) < unat (env_pc e2)"
  proof (cases "?cost = 0")
    case True
    then have "samePc ?e1 e2"
      using executeOp_samePc [of op ?e1 i rn] free_ops_cases [OF GasCost_free [OF ran(2)]] ran(4) by simp
    then have "env_pc e2 = env_pc e + 1" using arg_cong [OF e1, of env_pc] by (simp add: samePc_def)
    moreover have "unat (env_pc e) + 1 < 18446744073709551616"
      using pc unat_u64_bound [of "ulen (ctx_Code (env_ctx e))"] unfolding codeLen_def by linarith
    ultimately have "unat (env_pc e2) = unat (env_pc e) + 1" by (simp add: unat_add64_id)
    with g1 g2 show ?thesis by linarith
  next
    case False
    then have "0 < unat ?cost" by (simp add: unat_gt_0)
    with g1 g2 show ?thesis by linarith
  qed
  from lex_bound [OF this pc] show ?thesis
    using run ran(5) ctx g2(1) by (simp add: turnsLeft_def codeLen_def)
qed

function loop :: "'s Interpreter \<Rightarrow> 's runner \<Rightarrow> 's Environment \<Rightarrow> 's Environment" where
  "loop i rn e = (if running e then loop i rn (stepOp i rn e) else e)"
  by pat_completeness auto
termination
  by (relation "measure (\<lambda>(i, rn, e). turnsLeft e)") (simp_all add: stepOp_turns)

declare loop.simps [simp del]

lemma loop_stops: "\<not> running (loop i rn e)"
  by (induction i rn e rule: loop.induct) (subst loop.simps, simp)

lemma loop_keeps:
  assumes "\<And>e. R e e" and "\<And>a b c. R a b \<Longrightarrow> R b c \<Longrightarrow> R a c" and "\<And>e. running e \<Longrightarrow> R e (stepOp i rn e)"
  shows "R e (loop i rn e)"
  using assms(3)
proof (induction i rn e rule: loop.induct)
  case (1 i rn e)
  show ?case
  proof (cases "running e")
    case True
    have "R (stepOp i rn e) (loop i rn (stepOp i rn e))" using True 1 by blast
    with 1(2) [OF True] assms(2) have "R e (loop i rn (stepOp i rn e))" by blast
    with True show ?thesis by (subst loop.simps) simp
  qed (subst loop.simps, simp add: assms(1))
qed

section \<open>The whole run\<close>

definition zeroKeys :: "'s Environment \<Rightarrow> 's Environment" where
  "zeroKeys e =
     (let msize = memSize e;
          zeroed = foldl (\<lambda>e (offset, sz).
            if sz = 0 then e
            else if offset + sz < offset \<or> offset + sz > msize then e
            else snd (on_memory (Memory_ZeroRange offset sz) e)) e (env_pqcKeyRegions e)
      in zeroed\<lparr>env_pqcKeyRegions := []\<rparr>)"

definition run :: "'s Interpreter \<Rightarrow> 's runner \<Rightarrow> 's runner" where
  "run i rn e =
     (let e = zeroKeys (loop i rn e) in
      (\<lparr>res_ReturnData = env_returnData e, res_GasUsed = FinalUsed (env_gas e), res_GasRefund = RefundAmount (env_gas e),
        res_Logs = env_logs e, res_Err = env_err e, res_Reverted = env_reverted e\<rparr>, e))"

lemma zeroKeys_fold:
  "\<exists>m. foldl (\<lambda>e (offset, sz).
      if sz = 0 then e
      else if offset + sz < offset \<or> offset + sz > msize then e
      else snd (on_memory (Memory_ZeroRange offset sz) e)) e regions = e\<lparr>env_memory := m\<rparr>"
proof (induction regions arbitrary: e)
  case Nil
  show ?case by (rule exI [of _ "env_memory e"]) simp
next
  case (Cons r regions)
  obtain off sz where r: "r = (off, sz)" by (cases r)
  have same: "\<exists>m. e = e\<lparr>env_memory := m\<rparr>" by (rule exI [of _ "env_memory e"]) simp
  have "\<exists>m. snd (on_memory (Memory_ZeroRange off sz) e) = e\<lparr>env_memory := m\<rparr>"
    by (auto simp: op_simps split: prod.split)
  with same obtain m where "(if sz = 0 then e else if off + sz < off \<or> off + sz > msize then e
      else snd (on_memory (Memory_ZeroRange off sz) e)) = e\<lparr>env_memory := m\<rparr>" by metis
  with Cons [of "e\<lparr>env_memory := m\<rparr>"] r show ?case by simp
qed

text \<open>Clearing key material only writes memory.\<close>

lemma zeroKeys_memory: "\<exists>m. zeroKeys e = e\<lparr>env_memory := m, env_pqcKeyRegions := []\<rparr>"
  using zeroKeys_fold [of "memSize e" e "env_pqcKeyRegions e"] by (auto simp: zeroKeys_def Let_def)

lemma zeroKeys_keeps [simp]:
  "env_gas (zeroKeys e) = env_gas e" "env_ctx (zeroKeys e) = env_ctx e" "env_shared (zeroKeys e) = env_shared e"
  "env_logs (zeroKeys e) = env_logs e" "env_err (zeroKeys e) = env_err e" "env_reverted (zeroKeys e) = env_reverted e"
  "env_returnData (zeroKeys e) = env_returnData e" "env_stack (zeroKeys e) = env_stack e"
  using zeroKeys_memory [of e] by auto

lemma fault_keeps [simp]:
  "env_gas (fault x e) = env_gas e" "env_ctx (fault x e) = env_ctx e" "env_shared (fault x e) = env_shared e"
  "env_stack (fault x e) = env_stack e" "env_memory (fault x e) = env_memory e" "env_logs (fault x e) = env_logs e"
  "env_stopped (fault x e)"
  by (simp_all add: fault_def)

text \<open>A relation that \<open>executeOp\<close>, paying, faulting and moving the counter keep is kept by a turn
  and by the loop.\<close>

lemma stepOp_keeps:
  assumes trans: "\<And>a b c. R a b \<Longrightarrow> R b c \<Longrightarrow> R a c" and fault: "\<And>x e. R e (fault x e)"
    and pay: "\<And>c e. R e (snd (consume c e))" and pc: "\<And>p e. R e (e\<lparr>env_pc := p\<rparr>)"
    and exec: "\<And>op e. R e (snd (executeOp i rn op e))"
  shows "R e (stepOp i rn e)"
proof -
  have after: "R a (fault x b)" if "R a b" for a b x using trans [OF that fault] .
  have ran: "R e (case executeOp i rn op (e1\<lparr>env_pc := p\<rparr>) of (Inl x, e) \<Rightarrow> fault x e | (Inr _, e) \<Rightarrow> e)"
    if "R e e1" for e1 op p
    using trans [OF trans [OF that pc] exec [of "e1\<lparr>env_pc := p\<rparr>" op]] after
    by (cases "executeOp i rn op (e1\<lparr>env_pc := p\<rparr>)") (auto split: sum.split)
  have paid: "R e (case consume c e of (Inl x, e) \<Rightarrow> fault x e
      | (Inr _, e) \<Rightarrow> (case executeOp i rn op (e\<lparr>env_pc := env_pc e + 1\<rparr>) of (Inl x, e) \<Rightarrow> fault x e | (Inr _, e) \<Rightarrow> e))" for c op
    using pay [of e c] after ran by (cases "consume c e") (simp split: sum.split)
  show ?thesis
    unfolding stepOp_def GetInfo_eq Let_def prod.case using fault paid by presburger
qed

lemma stepOp_spends: "spends e (stepOp i rn e)"
  by (rule stepOp_keeps) (erule (1) gas.R_trans | rule spends_consume executeOp_spends | simp add: spends_def)+

lemma loop_spends: "spends e (loop i rn e)"
  by (rule loop_keeps) (auto intro: gas.R_trans gas.R_refl stepOp_spends)

section \<open>A concrete frame\<close>

text \<open>The roll-up state without accounts, no precompiled contracts and constant hashes, for the
  instances below.\<close>

definition bareInterpreter :: "rollupStateDB Interpreter" where
  "bareInterpreter = \<lparr>i_db = rollupDB (\<lambda>_. 0), i_gasTable = DefaultGasTable, i_ecdsaAuthEnabled = False,
     i_keccak256 = (\<lambda>_. 0), i_recoverSigner = (\<lambda>_ _ _ _. None), i_decapsulate = (\<lambda>_ _. Inl ErrInvalidBytecode),
     i_IsPrecompiled = (\<lambda>_. False), i_IsStateful = (\<lambda>_. False), i_RunPrecompiled = (\<lambda>_ _ s. ((None, 0), s))\<rparr>"

definition bareContext :: "byte list \<Rightarrow> u64 \<Rightarrow> bool \<Rightarrow> ExecutionContext" where
  "bareContext code gas readOnly = \<lparr>ctx_Origin = 1, ctx_GasPrice = None, ctx_Caller = 1, ctx_Address = 2, ctx_Value = None,
     ctx_BlockNumber = 0, ctx_Timestamp = 0, ctx_Coinbase = 0, ctx_GasLimit = 0, ctx_ChainID = 0,
     ctx_BlockHashes = Map.empty, ctx_PrevRandao = 0, ctx_BlobHashes = [], ctx_BlobBaseFee = 0, ctx_BaseFee = 0,
     ctx_Code = code, ctx_Input = [], ctx_OriginalCode = None, ctx_EVMCompatible = False, ctx_Gas = gas,
     ctx_Depth = 0, ctx_ReadOnly = readOnly, ctx_ParentEnv = None\<rparr>"

definition bareShared :: "rollupStateDB Shared" where
  "bareShared = \<lparr>sh_stateDB = newRollupStateDB Map.empty, sh_txCreatedContracts = {}, sh_selfDestructCleared = {},
     sh_reentryCounts = (\<lambda>_. 0), sh_transient = []\<rparr>"

definition bareFrame :: "byte list \<Rightarrow> u64 \<Rightarrow> bool \<Rightarrow> rollupStateDB Environment" where
  "bareFrame code gas readOnly = newFrame (bareContext code gas readOnly) bareShared"

definition stuck :: "'s runner" where
  "stuck e = (\<lparr>res_ReturnData = [], res_GasUsed = 0, res_GasRefund = 0, res_Logs = [], res_Err = Some ErrDepthExceeded,
     res_Reverted = False\<rparr>, e)"

lemma newFrame_fields [simp]:
  "env_ctx (newFrame c sh) = c" "env_gas (newFrame c sh) = NewGasMeter (ctx_Gas c)" "env_stack (newFrame c sh) = NewStack"
  "env_memory (newFrame c sh) = NewMemory" "env_pc (newFrame c sh) = 0" "env_jumpDests (newFrame c sh) = jumpDestsOf (ctx_Code c)"
  "env_callDepth (newFrame c sh) = of_int (ctx_Depth c)" "env_logs (newFrame c sh) = []"
  "\<not> env_stopped (newFrame c sh)" "env_blockHashes (newFrame c sh) = ctx_BlockHashes c" "env_err (newFrame c sh) = None"
  "\<not> env_reverted (newFrame c sh)" "env_returnData (newFrame c sh) = []"
  by (simp_all add: newFrame_def PushActiveAddress_def Let_def split: option.split)

section \<open>Termination and gas of a frame\<close>

lemma loop_turns: "\<exists>n. n \<le> turnsLeft e \<and> loop i rn e = (stepOp i rn ^^ n) e"
proof (induction i rn e rule: loop.induct)
  case (1 i rn e)
  show ?case
  proof (cases "running e")
    case True
    then obtain n where n: "n \<le> turnsLeft (stepOp i rn e)" "loop i rn (stepOp i rn e) = (stepOp i rn ^^ n) (stepOp i rn e)"
      using 1 by blast
    have "Suc n \<le> turnsLeft e" using n(1) stepOp_turns [OF True, of i rn] by linarith
    moreover have "loop i rn e = (stepOp i rn ^^ Suc n) e"
      using True n(2) by (subst loop.simps) (simp add: funpow_Suc_right del: funpow.simps)
    ultimately show ?thesis by blast
  next
    case False
    then show ?thesis by (intro exI [of _ 0]) (subst loop.simps, simp)
  qed
qed

text \<open>C8: The loop of a frame ends for every code, stack, gas and every behaviour of the frames it
  starts, after at most (gas + 1) * (code length + 1) turns: each turn pays gas or moves on.\<close>

theorem loop_terminates:
  "\<exists>n. n \<le> Suc (unat (gm_limit (env_gas e))) * Suc (codeLen e) \<and>
     loop i rn e = (stepOp i rn ^^ n) e \<and> \<not> running (loop i rn e)"
proof -
  obtain n where n: "n \<le> turnsLeft e" "loop i rn e = (stepOp i rn ^^ n) e" using loop_turns by blast
  have "(unat (gm_limit (env_gas e)) - unat (gm_used (env_gas e))) * Suc (codeLen e)
      \<le> unat (gm_limit (env_gas e)) * Suc (codeLen e)" by (intro mult_le_mono1) simp
  then have "turnsLeft e \<le> Suc (unat (gm_limit (env_gas e))) * Suc (codeLen e)"
    unfolding turnsLeft_def mult_Suc by auto
  with n loop_stops show ?thesis by (blast intro: le_trans)
qed

text \<open>C5: A frame never uses more gas than it was given, whatever the frames it starts report: the
  meter only rises, stays within the limit, and the reported gas is within the limit and at least
  four fifths of the metered gas.\<close>

theorem run_within_gas:
  assumes "gas_ok (env_gas e)" and "run i rn e = (result, e')"
  shows "gm_limit (env_gas e') = gm_limit (env_gas e) \<and> gm_used (env_gas e) \<le> gm_used (env_gas e') \<and>
    gm_used (env_gas e') \<le> gm_limit (env_gas e) \<and> res_GasUsed result \<le> gm_limit (env_gas e) \<and>
    4 * unat (gm_used (env_gas e')) \<le> 5 * unat (res_GasUsed result)"
proof -
  have e': "env_gas e' = env_gas (loop i rn e)" and r: "res_GasUsed result = FinalUsed (env_gas e')"
    using assms(2) by (auto simp: run_def Let_def)
  have s: "gm_limit (env_gas e') = gm_limit (env_gas e)" "gm_used (env_gas e) \<le> gm_used (env_gas e')"
      "gm_used (env_gas e') \<le> gm_limit (env_gas e)"
    using loop_spends [of e i rn] assms(1) e' by (auto simp: spends_def gas_ok_def)
  have "unat (res_GasUsed result) \<le> unat (gm_used (env_gas e'))"
      "4 * unat (gm_used (env_gas e')) \<le> 5 * unat (res_GasUsed result)"
    unfolding r FinalUsed_spec by linarith+
  with s show ?thesis by (simp add: word_le_nat_alt)
qed

theorem run_within_gas_witness:
  "res_GasUsed (fst (run bareInterpreter stuck (bareFrame [0x10, 7, 0x10, 9] 100 False))) \<le> 100"
proof -
  have "gas_ok (env_gas (bareFrame [0x10, 7, 0x10, 9] 100 False))" "gm_limit (env_gas (bareFrame [0x10, 7, 0x10, 9] 100 False)) = 100"
    by (simp_all add: bareFrame_def bareContext_def NewGasMeter_def gas_ok_def)
  with run_within_gas [of "bareFrame [0x10, 7, 0x10, 9] 100 False" bareInterpreter stuck] show ?thesis
    by (metis prod.collapse)
qed

end
