(* ===== verification/QVM_Frames.thy ===== *)
theory QVM_Frames
  imports QVM_Run
begin

text \<open>
  Nested frames: \<open>Execute\<close> calls \<open>run\<close>, whose call opcodes call \<open>Execute\<close> again. The recursion is
  by fuel, one unit per level; every call opcode refuses at depth 1024, so 1024 units are enough
  and the unfolding equation of the Go recursion holds of the result.
\<close>

section \<open>The call depth\<close>

definition sameDepth :: "'s Environment \<Rightarrow> 's Environment \<Rightarrow> bool" where
  "sameDepth e e' \<longleftrightarrow> env_ctx e' = env_ctx e \<and> env_callDepth e' = env_callDepth e"

interpretation depth: step_rel sameDepth env_ctx
  by unfold_locales (auto simp: sameDepth_def)

lemma depth_deeper:
  fixes m :: "u64 \<Rightarrow> ('s Environment, unit) op"
  assumes "\<And>d. depth.keeps P (m d)"
  shows "depth.keeps P (deeper m)"
proof (rule depth.keepsI)
  fix e :: "'s Environment"
  assume P: "P (env_ctx e)"
  let ?e = "e\<lparr>env_callDepth := env_callDepth e + 1\<rparr>"
  have "sameDepth ?e (snd (m (env_callDepth ?e) ?e))" using P by (intro depth.keepsD [OF assms]) simp
  then show "sameDepth e (snd (deeper m e))"
    by (simp add: deeper_def op_simps sameDepth_def case_prod_beta)
qed

interpretation depth: local_rel sameDepth
  by unfold_locales (rule depth_deeper | (auto simp: sameDepth_def op_simps split: prod.split)[1])+

abbreviation "keepsDepth m \<equiv> depth.keeps (\<lambda>_. True) m"

lemma depth_pc_moves: "keepsDepth (opPush op)" "keepsDepth opJump" "keepsDepth opJumpI"
proof -
  have pc: "keepsDepth (modify (\<lambda>e. e\<lparr>env_pc := p\<rparr>))" for p
    by (rule depth.L_modify) (simp add: sameDepth_def)
  show "keepsDepth (opPush op)" "keepsDepth opJump" "keepsDepth opJumpI"
    unfolding opPush_def opJump_def opJumpI_def jumpTo_def
    by (intro depth.keeps_rules depth.keeps_prims pc)+
qed

lemma executeOp_sameDepth: "sameDepth e (snd (executeOp i rn op e))"
proof -
  have "keepsDepth (executeOp i rn op)"
    by (intro depth.keeps_executeOp depth.L_calls depth.L_create depth_pc_moves)
  from depth.keepsD [OF this] show ?thesis by simp
qed

lemma stepOp_sameDepth: "sameDepth e (stepOp i rn e)"
  by (rule stepOp_keeps [of sameDepth])
    (erule (1) depth.R_trans | rule executeOp_sameDepth depth.L_consume | simp add: sameDepth_def fault_def)+

section \<open>Two runners that agree one level down\<close>

definition depthAt :: "ExecutionContext \<Rightarrow> u64 \<Rightarrow> 's Environment \<Rightarrow> bool" where
  "depthAt c d e \<longleftrightarrow> env_ctx e = c \<and> env_callDepth e = d"

definition agree :: "('e \<Rightarrow> bool) \<Rightarrow> ('e, 'a) op \<Rightarrow> ('e, 'a) op \<Rightarrow> bool" where
  "agree P m m' \<longleftrightarrow> (\<forall>e. P e \<longrightarrow> m e = m' e)"

lemma agree_refl: "agree P m m"
  by (simp add: agree_def)

lemma depthAt_keeps: "keepsDepth m \<Longrightarrow> depthAt c d e \<Longrightarrow> depthAt c d (snd (m e))"
  using depth.keepsD [of "\<lambda>_. True" m e] by (simp add: depthAt_def sameDepth_def)

lemma agree_bind:
  fixes m :: "('s Environment, 'a) op"
  assumes "agree (depthAt c d) m m'" and "keepsDepth m" and "\<And>a. agree (depthAt c d) (k a) (k' a)"
  shows "agree (depthAt c d) (bind m k) (bind m' k')"
  unfolding agree_def
proof (intro allI impI)
  fix e :: "'s Environment"
  assume e: "depthAt c d e"
  then have "m' e = m e" using assms(1) by (simp add: agree_def)
  moreover have "k a (snd (m e)) = k' a (snd (m e))" for a
    using assms(3) depthAt_keeps [OF assms(2) e] by (simp add: agree_def)
  ultimately show "bind m k e = bind m' k' e" by (auto simp: bind_def split: prod.split sum.split)
qed

lemmas agree_then = agree_bind [OF agree_refl]

lemma agree_gets:
  assumes "\<And>e. depthAt c d e \<Longrightarrow> agree (depthAt c d) (k (f e)) (k' (f e))"
  shows "agree (depthAt c d) (bind (gets f) k) (bind (gets f) k')"
  using assms by (simp add: agree_def op_simps)

lemma agree_catch:
  fixes m :: "('s Environment, 'a) op"
  assumes "keepsDepth m" and "\<And>x. agree (depthAt c d) (h x) (h' x)" and "\<And>a. agree (depthAt c d) (k a) (k' a)"
  shows "agree (depthAt c d) (catch m h k) (catch m h' k')"
  unfolding agree_def
proof (intro allI impI)
  fix e :: "'s Environment"
  assume "depthAt c d e"
  from depthAt_keeps [OF assms(1) this] show "catch m h k e = catch m h' k' e"
    using assms(2,3) by (auto simp: agree_def catch_def split: prod.split sum.split)
qed

lemma agree_deferring: "agree P m m' \<Longrightarrow> agree P (deferring f m) (deferring f m')"
  by (simp add: agree_def deferring_def)

lemma agree_if: "(b \<Longrightarrow> agree P m m') \<Longrightarrow> (\<not> b \<Longrightarrow> agree P n n') \<Longrightarrow> agree P (if b then m else n) (if b then m' else n')"
  by simp

lemma agree_option: "agree P m m' \<Longrightarrow> (\<And>a. agree P (k a) (k' a)) \<Longrightarrow>
    agree P (case x of None \<Rightarrow> m | Some a \<Rightarrow> k a) (case x of None \<Rightarrow> m' | Some a \<Rightarrow> k' a)"
  by (cases x) simp_all

lemma agree_prod: "(\<And>a b. agree P (k a b) (k' a b)) \<Longrightarrow> agree P (case x of (a, b) \<Rightarrow> k a b) (case x of (a, b) \<Rightarrow> k' a b)"
  by (cases x) simp

lemma agree_let: "agree P (f x) (f' x) \<Longrightarrow> agree P (let y = x in f y) (let y = x in f' y)"
  by simp

lemma agree_deeper:
  assumes "agree (depthAt c (d + 1)) (k (d + 1)) (k' (d + 1))"
  shows "agree (depthAt c d) (deeper k) (deeper k')"
  using assms by (simp add: agree_def deeper_def op_simps depthAt_def)

lemmas depth_rules = depth.keeps_rules depth.local_prims depth.keeps_prims depth.L_pieces depth.L_restoreAnd depth.L_refuse
  depth.L_withActive depth.L_atNextDepth depth.L_transferValue depth.L_executePrecompiled depth.keeps_deferring depth.keeps_payGuard
  depth.keeps_setReturnData depth.keeps_copyReturn depth.L_createPieces depth.keeps_callArgs depth.keeps_reentryCounts

lemmas agree_rules = agree_if agree_option agree_prod agree_let agree_deferring

lemma agree_payGuard: "agree (depthAt c d) m m' \<Longrightarrow> agree (depthAt c d) (payGuard g m) (payGuard g m')"
  unfolding payGuard_def by (intro agree_catch agree_refl depth_rules)

lemma agree_withActive:
  "(\<And>k. agree (depthAt c d) (m k) (m' k)) \<Longrightarrow> agree (depthAt c d) (withActive addr m) (withActive addr m')"
  unfolding withActive_def by (intro agree_then agree_if agree_refl depth_rules)

lemma agree_chargeCall:
  "(\<And>g u. agree (depthAt c d) (k g u) (k' g u)) \<Longrightarrow>
   agree (depthAt c d) (chargeCall i a tracked v n x k) (chargeCall i a tracked v n x k')"
  unfolding chargeCall_def reentryGuard_def
  by (intro agree_refl agree_then agree_rules depth_rules)

text \<open>A frame at depth \<open>D\<close>, and two runners that agree on the frames one below the context \<open>c\<close>.\<close>

definition frameAt :: "int \<Rightarrow> 's Environment \<Rightarrow> bool" where
  "frameAt D e \<longleftrightarrow> 0 \<le> D \<and> D < 1024 \<and> ctx_Depth (env_ctx e) = D \<and> env_callDepth e = of_int D"

definition agreeBelow :: "ExecutionContext \<Rightarrow> 's runner \<Rightarrow> 's runner \<Rightarrow> bool" where
  "agreeBelow c rn rn' \<longleftrightarrow> 0 \<le> ctx_Depth c \<and> ctx_Depth c < 1024 \<and>
     (\<forall>e. frameAt (ctx_Depth c + 1) e \<longrightarrow> rn e = rn' e)"

abbreviation atDepth :: "ExecutionContext \<Rightarrow> 's Environment \<Rightarrow> bool" where
  "atDepth c \<equiv> depthAt c (of_int (ctx_Depth c))"

abbreviation below :: "ExecutionContext \<Rightarrow> 's Environment \<Rightarrow> bool" where
  "below c \<equiv> depthAt c (of_int (ctx_Depth c) + 1)"

lemma next_depth:
  assumes "0 \<le> D" and "D < 1024" and "\<not> (of_int D + 1 :: u64) \<ge> MaxCallDepth"
  shows "D + 1 < 1024" "sint (of_int D + 1 :: u64) = D + 1"
proof -
  define n where "n = Suc (nat D)"
  have D: "D + 1 = int n" and n: "n \<le> 1024" using assms(1,2) by (simp_all add: n_def)
  have w: "(of_int D + 1 :: u64) = of_nat n"
    using assms(1) by (simp add: n_def)
  have "n < 2 ^ 64" by (rule le_less_trans [OF n]) simp
  then have "unat (of_nat n :: u64) = n"
    by (simp only: unat_of_nat) simp
  then show "D + 1 < 1024" using assms(3) D unfolding w MaxCallDepth_def word_le_nat_alt by simp
  have "int n < 2 ^ 63" by (rule le_less_trans [of _ 1024]) (use n in simp_all)
  then have "signed_take_bit 63 (int n) = int n" by (intro signed_take_bit_int_eq_self) simp_all
  then show "sint (of_int D + 1 :: u64) = D + 1" unfolding w D by (simp add: signed_of_nat)
qed

lemma agree_atNextDepth:
  assumes "agreeBelow c rn rn'"
    and "ctx_Depth c + 1 < 1024 \<Longrightarrow> sint (of_int (ctx_Depth c) + 1 :: u64) = ctx_Depth c + 1 \<Longrightarrow>
      agree (below c) (k (of_int (ctx_Depth c) + 1)) (k' (of_int (ctx_Depth c) + 1))"
  shows "agree (atDepth c) (atNextDepth k) (atNextDepth k')"
  unfolding atNextDepth_def
  using assms next_depth [of "ctx_Depth c"]
  by (intro agree_deeper agree_if agree_refl) (simp add: agreeBelow_def)

lemma agree_executeChild:
  assumes "agreeBelow c rn rn'" and "ctx_Depth c + 1 < 1024" and "ctx_Depth cc = ctx_Depth c + 1"
  shows "agree P (executeChild rn cc) (executeChild rn' cc)"
  using assms by (simp add: agree_def executeChild_def Execute_def agreeBelow_def frameAt_def)

lemma agree_runInit:
  assumes "agreeBelow c rn rn'" and "ctx_Depth c + 1 < 1024" and "ctx_Depth (env_ctx ie) = ctx_Depth c + 1"
    and "env_callDepth ie = of_int (ctx_Depth c + 1)"
  shows "agree P (runInit rn ie) (runInit rn' ie)"
  using assms by (simp add: agree_def runInit_def agreeBelow_def frameAt_def)

lemma agree_enter:
  assumes "agreeBelow c rn rn'"
  shows "agree (atDepth c) (enterCall i rn a cc g u) (enterCall i rn' a cc g u)"
    "agree (atDepth c) (enterStaticCall i rn a cc u) (enterStaticCall i rn' a cc u)"
    "agree (atDepth c) (enterDelegateCall i rn a cc u) (enterDelegateCall i rn' a cc u)"
  unfolding enterCall_def enterStaticCall_def enterDelegateCall_def
  by (intro agree_atNextDepth [OF assms] agree_payGuard agree_withActive agree_refl agree_bind
      agree_executeChild [OF assms] agree_rules agree_catch depth_rules; simp)+

lemma subContext_depth [simp]: "ctx_Depth (subContext i e ca cl ad v inp g ro) = ctx_Depth (env_ctx e) + 1"
  by (simp add: subContext_def Let_def)

lemma agree_enterCallCode:
  assumes "agreeBelow c rn rn'"
  shows "agree (atDepth c) (enterCallCode i rn a input u) (enterCallCode i rn' a input u)"
  unfolding enterCallCode_def
  by (intro agree_atNextDepth [OF assms] agree_withActive agree_refl agree_gets agree_bind
      agree_executeChild [OF assms] agree_rules agree_catch depth_rules; simp add: depthAt_def)

lemma agree_enterAuthCall:
  assumes "agreeBelow c rn rn'" and "ctx_Depth cc = ctx_Depth c + 1"
  shows "agree (atDepth c) (enterAuthCall i rn a cc b u) (enterAuthCall i rn' a cc b u)"
  unfolding enterAuthCall_def
  by (intro agree_atNextDepth [OF assms(1)] agree_withActive agree_refl agree_bind
      agree_executeChild [OF assms(1) _ assms(2)] agree_rules agree_catch depth_rules; simp)

lemma agree_calls:
  assumes "agreeBelow c rn rn'"
  shows "agree (atDepth c) (opCall i rn) (opCall i rn')" "agree (atDepth c) (opStaticCall i rn) (opStaticCall i rn')"
    "agree (atDepth c) (opDelegateCall i rn) (opDelegateCall i rn')" "agree (atDepth c) (opCallCode i rn) (opCallCode i rn')"
  unfolding opCall_def opStaticCall_def opDelegateCall_def opCallCode_def
  by (intro agree_refl agree_enter [OF assms] agree_enterCallCode [OF assms] agree_chargeCall agree_payGuard agree_then
      agree_rules depth_rules)+

lemma agree_authCall:
  assumes "agreeBelow c rn rn'"
  shows "agree (atDepth c) (opAuthCall i rn) (opAuthCall i rn')"
proof -
  have "agree (atDepth c) (payAuthCall i rn a x s inp u) (payAuthCall i rn' a x s inp u)" for a x s inp u
    unfolding payAuthCall_def
    by (rule agree_then, intro depth_rules, rule agree_if, rule agree_refl, rule agree_gets, rule agree_enterAuthCall [OF assms])
      (simp add: depthAt_def)
  then show ?thesis
    unfolding opAuthCall_def
    by (intro agree_refl agree_chargeCall agree_payGuard agree_then agree_rules depth_rules)
qed

lemma initEnvironment_fields [simp]:
  "env_ctx (initEnvironment e cc) = cc" "env_callDepth (initEnvironment e cc) = of_int (ctx_Depth cc)"
  "ctx_Depth (initContext e addr v code) = ctx_Depth (env_ctx e) + 1"
  by (simp_all add: initEnvironment_def initContext_def Let_def)

lemma PushActiveAddress_fields [simp]:
  "env_ctx (snd (PushActiveAddress a e)) = env_ctx e" "env_callDepth (snd (PushActiveAddress a e)) = env_callDepth e"
  by (simp_all add: PushActiveAddress_def)

lemma agree_createRun:
  fixes rn :: "'s runner"
  assumes "agreeBelow c rn rn'"
  shows "agree (atDepth c) (createRun i rn snap addr v code) (createRun i rn' snap addr v code)"
proof -
  let ?D = "ctx_Depth c + 1"
  have ran: "agree (below c)
      (bind (runInit rn ie) k) (bind (runInit rn' ie) k)"
    if "?D < 1024" "ctx_Depth (env_ctx ie) = ?D" "env_callDepth ie = of_int ?D" for ie and k :: "_ \<Rightarrow> ('s Environment, unit) op"
    using that by (intro agree_bind agree_refl agree_runInit [OF assms] depth_rules)
  have less: "?D < 1024" if "\<not> (of_int (ctx_Depth c) + 1 :: u64) \<ge> MaxCallDepth"
    using next_depth [OF _ _ that] assms by (simp add: agreeBelow_def)
  show ?thesis
    unfolding createRun_def split_beta Let_def
    using less
    by (intro agree_gets agree_deeper agree_if agree_refl agree_catch ran depth_rules) (simp_all add: depthAt_def)
qed

lemma agree_create:
  assumes "agreeBelow c rn rn'"
  shows "agree (atDepth c) (opCreateGeneric i rn is2) (opCreateGeneric i rn' is2)"
  unfolding opCreateGeneric_def createAt_def
  by (intro agree_refl agree_createRun [OF assms] agree_then agree_rules depth_rules)

lemma agree_executeOp:
  assumes "agreeBelow c rn rn'"
  shows "agree (atDepth c) (executeOp i rn op) (executeOp i rn' op)"
proof -
  have 1: "agree (atDepth c) (executeFrameOp i rn op) (executeFrameOp i rn' op)"
    unfolding executeFrameOp_def opCreate_def opCreate2_def
    by (intro agree_calls [OF assms] agree_authCall [OF assms] agree_create [OF assms] agree_if agree_refl)
  have 2: "agree (atDepth c) (executeContextOp i rn op) (executeContextOp i rn' op)"
    unfolding executeContextOp_def by (intro 1 agree_if agree_refl)
  have 3: "agree (atDepth c) (executeComputeOp i rn op) (executeComputeOp i rn' op)"
    unfolding executeComputeOp_def by (intro 2 agree_if agree_refl)
  show ?thesis
    unfolding executeOp_def by (intro 3 agree_if agree_refl)
qed

lemma stepOp_agree:
  assumes "agreeBelow (env_ctx e) rn rn'" and "atDepth (env_ctx e) e"
  shows "stepOp i rn e = stepOp i rn' e"
proof -
  let ?run = "\<lambda>rn op c. case consume c e of (Inl x, e) \<Rightarrow> fault x e
      | (Inr _, e) \<Rightarrow> (case executeOp i rn op (e\<lparr>env_pc := env_pc e + 1\<rparr>) of (Inl x, e) \<Rightarrow> fault x e | (Inr _, e) \<Rightarrow> e)"
  have run: "?run rn op c = ?run rn' op c" for op c
  proof (cases "consume c e")
    case (Pair r e1)
    have "executeOp i rn op (e1\<lparr>env_pc := p\<rparr>) = executeOp i rn' op (e1\<lparr>env_pc := p\<rparr>)" for p
      using agree_executeOp [OF assms(1), of i op] assms(2) Pair depth.L_consume [of e c]
      by (simp add: agree_def depthAt_def sameDepth_def)
    then show ?thesis unfolding Pair by (simp split: sum.split)
  qed
  show ?thesis unfolding stepOp_def GetInfo_eq Let_def prod.case run ..
qed

lemma loop_agree:
  assumes "agreeBelow (env_ctx e) rn rn'" and "atDepth (env_ctx e) e"
  shows "loop i rn e = loop i rn' e"
  using assms
proof (induction i rn e rule: loop.induct)
  case (1 i rn e)
  have same: "env_ctx (stepOp i rn e) = env_ctx e" "atDepth (env_ctx e) (stepOp i rn e)"
    using stepOp_sameDepth [of e i rn] 1(3) by (simp_all add: sameDepth_def depthAt_def)
  have "loop i rn (stepOp i rn e) = loop i rn' (stepOp i rn e)" if "running e"
    using 1(1) [OF that] 1(2) same by simp
  then show ?case
    using stepOp_agree [OF 1(2,3), of i] loop.simps [of i rn e] loop.simps [of i rn' e] by simp
qed

section \<open>The interpreter\<close>

fun runFuel :: "'s runner \<Rightarrow> nat \<Rightarrow> 's Interpreter \<Rightarrow> 's runner" where
  "runFuel base 0 i = base"
| "runFuel base (Suc n) i = run i (runFuel base n i)"

definition runAll :: "'s Interpreter \<Rightarrow> 's runner" where
  "runAll i = runFuel stuck 1024 i"

lemma runFuel_irrelevant:
  assumes "frameAt D e" and "nat (1024 - D) \<le> n" and "nat (1024 - D) \<le> n'"
  shows "runFuel base n i e = runFuel base' n' i e"
  using assms
proof (induction "nat (1024 - D)" arbitrary: D e n n' rule: less_induct)
  case less
  have D: "0 \<le> D" "D < 1024" "ctx_Depth (env_ctx e) = D" "env_callDepth e = of_int D"
    using less.prems(1) by (simp_all add: frameAt_def)
  obtain m m' where n: "n = Suc m" "n' = Suc m'"
    using less.prems(2,3) D by (cases n; cases n') auto
  have "runFuel base m i f = runFuel base' m' i f" if "frameAt (D + 1) f" for f
    using less.prems(2,3) D n that by (intro less.hyps [of "D + 1"]) auto
  then have "agreeBelow (env_ctx e) (runFuel base m i) (runFuel base' m' i)"
    using D by (simp add: agreeBelow_def)
  from loop_agree [OF this, of i] show ?case
    using D n by (simp add: run_def depthAt_def)
qed

text \<open>C7: The recursion of frames is well founded. At every depth below 1024, with fuel for the
  levels that are left, the run does not depend on the fuel or on what happens when it is used
  up, and the interpreter satisfies the equation of the Go recursion: the sub-frames of a run are
  themselves runs.\<close>

theorem runAll_unfold:
  assumes "frameAt D e" and "nat (1024 - D) \<le> n"
  shows "runAll i e = run i (runAll i) e \<and> runFuel base n i e = runAll i e"
proof -
  have "nat (1024 - D) \<le> 1024" using assms(1) by (auto simp: frameAt_def)
  then have "runFuel stuck 1024 i e = runFuel stuck (Suc 1024) i e" "runFuel base n i e = runFuel stuck 1024 i e"
    using assms by (intro runFuel_irrelevant [of D]; simp del: runFuel.simps)+
  then show ?thesis unfolding runAll_def runFuel.simps(2) by simp
qed

lemma bareFrame_at: "frameAt 0 (bareFrame code gas ro)"
  by (simp add: frameAt_def bareFrame_def bareContext_def)

theorem runAll_unfold_witness:
  "runAll bareInterpreter (bareFrame [0x10, 7] 100 False) = run bareInterpreter (runAll bareInterpreter) (bareFrame [0x10, 7] 100 False)
   \<and> runFuel stuck 2000 bareInterpreter (bareFrame [0x10, 7] 100 False) = runAll bareInterpreter (bareFrame [0x10, 7] 100 False)"
  by (rule runAll_unfold [OF bareFrame_at]) simp


end
