(* ===== verification/QVM_Valid.thy ===== *)
theory QVM_Valid
  imports QVM_Frames
begin

text \<open>
  Invariants of a running frame: the stack holds at most 1024 words and memory is a whole number
  of pages within 32 MB, and the program counter is always at the start of an instruction, never
  inside the immediate data of a push.
\<close>

section \<open>Turns of a frame\<close>

inductive turn :: "'s Interpreter \<Rightarrow> 's runner \<Rightarrow> 's Environment \<Rightarrow> 's Environment \<Rightarrow> bool" for i rn where
  turn: "running e \<Longrightarrow> turn i rn e (stepOp i rn e)"

inductive_simps turn_iff: "turn i rn e e'"

abbreviation reaches :: "'s Interpreter \<Rightarrow> 's runner \<Rightarrow> 's Environment \<Rightarrow> 's Environment \<Rightarrow> bool" where
  "reaches i rn \<equiv> (turn i rn)\<^sup>*\<^sup>*"

lemma reaches_loop: "reaches i rn e (loop i rn e)"
  by (rule loop_keeps) (auto intro: turn.turn rtranclp_trans)

lemma reaches_keeps:
  assumes "reaches i rn e e'" and "I e" and "\<And>e. running e \<Longrightarrow> I e \<Longrightarrow> I (stepOp i rn e)"
  shows "I e'"
  using assms(1,2) by (induction rule: rtranclp_induct) (auto simp: turn_iff intro: assms(3))

section \<open>Stack and memory\<close>

lemma Memory_ok_expand: "Memory_ok m \<Longrightarrow> Memory_ok (snd (Memory_expand off sz m))"
  by (cases rule: expand_cases [of m off sz]) simp_all

lemma Memory_ok_Get: "Memory_ok m \<Longrightarrow> Memory_ok (snd (Memory_Get off sz m))"
  using Memory_ok_expand [of m off sz]
  by (cases "Memory_expand off sz m") (auto simp: Memory_Get_def op_simps split: sum.split)

lemma length_go_copy_any: "length (go_copy m off bs) = length m"
  by (auto simp: go_copy_def Let_def min_def)

lemma Memory_ok_Set: "Memory_ok m \<Longrightarrow> Memory_ok (snd (Memory_Set off bs m))"
  using Memory_ok_expand [of m off "ulen bs"]
  by (cases "Memory_expand off (ulen bs) m")
    (auto simp: Memory_Set_def op_simps Memory_ok_def length_go_copy_any split: sum.split)

lemma Memory_ok_SetByte: "Memory_ok m \<Longrightarrow> Memory_ok (snd (Memory_SetByte off b m))"
  by (simp add: Memory_SetByte_Set Memory_ok_Set)

lemma Memory_ok_ZeroRange: "Memory_ok m \<Longrightarrow> Memory_ok (snd (Memory_ZeroRange off sz m))"
  using Memory_ok_expand [of m off sz]
  by (cases "Memory_expand off sz m") (auto simp: Memory_ZeroRange_def Let_def op_simps Memory_ok_def split: sum.split)

definition validEnv :: "'s Environment \<Rightarrow> bool" where
  "validEnv e \<longleftrightarrow> Stack_ok (env_stack e) \<and> Memory_ok (env_memory e)"

definition staysValid :: "'s Environment \<Rightarrow> 's Environment \<Rightarrow> bool" where
  "staysValid e e' \<longleftrightarrow> env_ctx e' = env_ctx e \<and> (validEnv e \<longrightarrow> validEnv e')"

lemma staysValid_stack:
  "(\<And>s. Stack_ok s \<Longrightarrow> Stack_ok (snd (m s))) \<Longrightarrow> staysValid e (snd (on_stack m e))"
  by (cases "m (env_stack e)") (auto simp: staysValid_def validEnv_def op_simps dest: meta_spec [of _ "env_stack e"])

lemma staysValid_memory:
  "(\<And>s. Memory_ok s \<Longrightarrow> Memory_ok (snd (m s))) \<Longrightarrow> staysValid e (snd (on_memory m e))"
  by (cases "m (env_memory e)") (auto simp: staysValid_def validEnv_def op_simps dest: meta_spec [of _ "env_memory e"])

interpretation valid: step_rel staysValid env_ctx
  by unfold_locales (auto simp: staysValid_def)

interpretation valid: local_rel staysValid
  by unfold_locales
    ((rule staysValid_stack staysValid_memory keeps_deeperI [OF valid.step_rel_axioms];
        simp add: Stack_ok_Push Stack_ok_Pop Stack_ok_Dup Stack_ok_Swap Memory_ok_Get Memory_ok_Set Memory_ok_SetByte
          Memory_ok_ZeroRange Memory_Set32_def Memory_Get_variants staysValid_def validEnv_def; fail)
     | (auto simp: staysValid_def validEnv_def op_simps split: prod.split)[1])+

lemma valid_pc_moves: "valid.keeps P (opPush op)" "valid.keeps P opJump" "valid.keeps P opJumpI"
proof -
  have pc: "valid.keeps P (modify (\<lambda>e. e\<lparr>env_pc := p\<rparr>))" for p
    by (rule valid.L_modify) (simp add: staysValid_def validEnv_def)
  show "valid.keeps P (opPush op)" "valid.keeps P opJump" "valid.keeps P opJumpI"
    unfolding opPush_def opJump_def opJumpI_def jumpTo_def
    by (intro valid.keeps_rules valid.keeps_prims pc)+
qed

lemma executeOp_valid: "staysValid e (snd (executeOp i rn op e))"
proof -
  have "valid.keeps (\<lambda>_. True) (executeOp i rn op)"
    by (intro valid.keeps_executeOp valid.L_calls valid.L_create valid_pc_moves)
  from valid.keepsD [OF this] show ?thesis by simp
qed

lemma stepOp_valid: "staysValid e (stepOp i rn e)"
  by (rule stepOp_keeps [of staysValid])
    (erule (1) valid.R_trans | rule executeOp_valid valid.L_consume | simp add: staysValid_def validEnv_def)+

lemma loop_valid: "staysValid e (loop i rn e)"
  by (rule loop_keeps [of staysValid]) (erule (1) valid.R_trans | rule valid.R_refl stepOp_valid)+

lemma zeroKeys_valid: "validEnv e \<Longrightarrow> validEnv (zeroKeys e)"
proof -
  let ?f = "\<lambda>n e (offset, sz). if sz = 0 then e else if offset + sz < offset \<or> offset + sz > n then e
      else snd (on_memory (Memory_ZeroRange offset sz) e)"
  have zero: "validEnv (snd (on_memory (Memory_ZeroRange off sz) e))" if "validEnv e" for off sz and e :: "'a Environment"
    using valid.L_mem_zero [of e off sz] that by (simp add: staysValid_def)
  have "validEnv e \<Longrightarrow> validEnv (foldl (?f n) e rs)" for n rs and e :: "'a Environment"
    by (induction rs arbitrary: e) (auto simp: zero)
  moreover have "validEnv (e\<lparr>env_pqcKeyRegions := rs\<rparr>) = validEnv e" for rs and e :: "'a Environment"
    by (simp add: validEnv_def)
  ultimately show "validEnv e \<Longrightarrow> validEnv (zeroKeys e)" for e :: "'a Environment"
    by (simp add: zeroKeys_def Let_def)
qed

section \<open>The program counter\<close>

lemma pushOps_IsPush: "op \<notin> set pushOps \<Longrightarrow> PushSize op = 0"
proof -
  assume "op \<notin> set pushOps"
  moreover have "set (map of_nat ([16..<22] @ [176..<202])) \<subseteq> set pushOps"
    by (simp add: upt_rec pushOps_def)
  ultimately have "\<not> IsPush op" using IsPush_set by blast
  then show ?thesis by (rule PushSize_not_push)
qed

text \<open>The length of a Go slice is a non-negative \<open>int\<close>.\<close>

definition codeOk :: "byte list \<Rightarrow> bool" where
  "codeOk code \<longleftrightarrow> length code < 9223372036854775808"

definition goodPc :: "'s Environment \<Rightarrow> bool" where
  "goodPc e \<longleftrightarrow> codeOk (ctx_Code (env_ctx e)) \<and> env_jumpDests e = jumpDestsOf (ctx_Code (env_ctx e)) \<and>
     (running e \<longrightarrow> instr_start (ctx_Code (env_ctx e)) (unat (env_pc e)))"

lemma opPush_pc:
  assumes run: "opPush op e = (Inr (), e')" and sz: "PushSize op \<le> 32" and ok: "codeOk (ctx_Code (env_ctx e))"
    and pc: "unat (env_pc e) \<le> length (ctx_Code (env_ctx e))"
  shows "unat (env_pc e') = min (unat (env_pc e) + PushSize op) (length (ctx_Code (env_ctx e)))"
proof -
  let ?code = "ctx_Code (env_ctx e)"
  let ?stop = "env_pc e + of_nat (PushSize op) :: u64"
  have sz': "unat (of_nat (PushSize op) :: u64) = PushSize op" using sz by (simp add: unat_of_nat)
  have len: "unat (ulen ?code) = length ?code" using ok by (intro unat_ulen) (simp add: codeOk_def)
  have "unat (env_pc e) + PushSize op < 18446744073709551616" using ok pc sz unfolding codeOk_def by linarith
  then have e0: "unat ?stop = unat (env_pc e) + PushSize op" using sz' by (simp add: unat_add64_id)
  have "env_pc e' = (if ?stop > ulen ?code then ulen ?code else ?stop)"
    using run by (auto simp: opPush_def Let_def op_simps split: if_splits prod.splits sum.splits)
  then show ?thesis using e0 len by (simp add: word_less_nat_alt min_def)
qed

lemma jumpTo_pc: "jumpTo dest e = (Inr (), e') \<Longrightarrow> env_pc e' = dest \<and> dest \<in> set (env_jumpDests e)"
  by (auto simp: jumpTo_def op_simps split: if_splits)

lemma pop_pc: "env_pc (snd (pop e)) = env_pc e" "env_jumpDests (snd (pop e)) = env_jumpDests e"
  by (simp_all add: op_simps split: prod.split)

lemma jump_pc:
  assumes "opJump e = (Inr (), e') \<or> opJumpI e = (Inr (), e')"
  shows "env_pc e' \<in> set (env_jumpDests e) \<or> env_pc e' = env_pc e"
  using assms
  by (auto simp: opJump_def opJumpI_def popUint64_pop run_bind ret_def split: prod.splits sum.splits if_splits
      dest!: jumpTo_pc) (metis pop_pc snd_conv)+

lemma stepOp_sameFrame: "sameFrame e (stepOp i rn e)"
  by (rule stepOp_keeps [of sameFrame])
    (erule (1) fixed.R_trans | rule executeOp_sameFrame fixed.L_consume | simp add: sameFrame_def fault_def)+

lemma executeOp_push: "op \<in> set pushOps \<Longrightarrow> executeOp i rn op = opPush op"
proof -
  assume op: "op \<in> set pushOps"
  then have "op \<notin> set [op_STOP, op_JUMP, op_JUMPI, op_JUMPDEST, op_PC, op_NOP, op_RETURN, op_REVERT, op_INVALID,
      op_SIGNEXTEND, op_PUSH0]" by (auto simp: pushOps_def)
  with op show ?thesis by (simp add: executeOp_def)
qed

lemma executeOp_jump: "executeOp i rn op_JUMP = opJump" "executeOp i rn op_JUMPI = opJumpI"
  by (simp_all add: executeOp_def)

text \<open>Where an opcode leaves the counter: behind its immediate data, or on a jump destination.\<close>

lemma executeOp_pc:
  assumes run: "executeOp i rn op e = (Inr (), e')" and ok: "codeOk (ctx_Code (env_ctx e))"
    and pc: "unat (env_pc e) \<le> length (ctx_Code (env_ctx e))"
  shows "unat (env_pc e') = min (unat (env_pc e) + PushSize op) (length (ctx_Code (env_ctx e))) \<or>
    env_pc e' \<in> set (env_jumpDests e)"
proof (cases "op \<in> set pushOps")
  case True
  have "PushSize op \<le> 32" using row_ok_table [of op] by (simp add: row_ok_def PushSize_def)
  with opPush_pc [OF _ this ok pc] run True show ?thesis by (simp add: executeOp_push)
next
  case False
  then have 0: "PushSize op = 0" by (rule pushOps_IsPush)
  have "env_pc e' = env_pc e \<or> env_pc e' \<in> set (env_jumpDests e)"
  proof (cases "op = op_JUMP \<or> op = op_JUMPI")
    case True
    then show ?thesis using run jump_pc [of e e'] by (auto simp: executeOp_jump)
  next
    case False
    then show ?thesis using executeOp_samePc [of op e i rn] \<open>op \<notin> set pushOps\<close> run by (simp add: samePc_def)
  qed
  then show ?thesis using 0 pc by auto
qed

lemma stepOp_goodPc:
  assumes good: "goodPc e" and run: "running e"
  shows "goodPc (stepOp i rn e)"
proof -
  let ?code = "ctx_Code (env_ctx e)"
  have same: "env_ctx (stepOp i rn e) = env_ctx e" "env_jumpDests (stepOp i rn e) = env_jumpDests e"
    using stepOp_sameFrame [of e i rn] by (simp_all add: sameFrame_def)
  have ok: "codeOk ?code" and start: "instr_start ?code (unat (env_pc e))" and jd: "env_jumpDests e = jumpDestsOf ?code"
    using good run by (simp_all add: goodPc_def)
  have len: "unat (ulen ?code) = length ?code" using ok by (intro unat_ulen) (simp add: codeOk_def)
  have "instr_start ?code (unat (env_pc (stepOp i rn e)))" if running: "running (stepOp i rn e)"
  proof (cases rule: stepOp_cases [of i rn e])
    case (fault x e1)
    then show ?thesis using running by (simp add: running_def)
  next
    case (ran op e1 e2)
    let ?e1 = "e1\<lparr>env_pc := env_pc e1 + 1\<rparr>"
    have e1: "env_ctx e1 = env_ctx e" "env_pc e1 = env_pc e" "env_jumpDests e1 = env_jumpDests e"
      using ran(3) by (auto simp: op_simps split: prod.splits)
    have less: "unat (env_pc e) < length ?code" using run len by (simp add: running_def word_less_nat_alt)
    then have "unat (env_pc e) + 1 < 18446744073709551616" using ok unfolding codeOk_def by linarith
    then have pc1: "unat (env_pc ?e1) = unat (env_pc e) + 1" using e1 by (simp add: unat_add64_id)
    have less2: "unat (env_pc e2) < length ?code" using running ran(5) same len by (simp add: running_def word_less_nat_alt)
    from executeOp_pc [OF ran(4)] ok less pc1 e1
    consider "unat (env_pc e2) = min (unat (env_pc e) + 1 + PushSize op) (length ?code)" | "env_pc e2 \<in> set (jumpDestsOf ?code)"
      by (auto simp: jd)
    then show ?thesis
    proof cases
      case 1
      then have "unat (env_pc e2) = unat (env_pc e) + 1 + PushSize op" using less2 by (simp add: min_def split: if_splits)
      then show ?thesis using instr_start_next [OF start] less2 ran(1,5) by simp
    next
      case 2
      then show ?thesis using jumpDestsOf_iff [of ?code "env_pc e2"] ok ran(5) by (simp add: codeOk_def)
    qed
  qed
  with good same show ?thesis by (simp add: goodPc_def)
qed

section \<open>Properties\<close>

text \<open>C9: In every frame the stack never exceeds 1024 words and memory stays a whole number of
  32-byte pages of at most 32 MB, in every environment the loop reaches and in the final one.\<close>

theorem frame_stays_valid:
  assumes "reaches i rn (newFrame c sh) e"
  shows "validEnv e \<and> validEnv (snd (run i rn (newFrame c sh)))"
proof
  have start: "validEnv (newFrame c sh)"
    by (simp add: validEnv_def Stack_ok_def Memory_ok_def NewStack_def NewMemory_def)
  from assms start show "validEnv e"
    by (rule reaches_keeps) (use stepOp_valid in \<open>auto simp: staysValid_def\<close>)
  show "validEnv (snd (run i rn (newFrame c sh)))"
    using loop_valid [of "newFrame c sh" i rn] start by (simp add: run_def Let_def zeroKeys_valid staysValid_def)
qed

theorem frame_stays_valid_witness:
  "validEnv (loop bareInterpreter stuck (bareFrame [0x10, 7, 0x10, 9] 100 False))"
  using frame_stays_valid [OF reaches_loop, of bareInterpreter stuck "bareContext [0x10, 7, 0x10, 9] 100 False" bareShared]
  by (simp add: bareFrame_def)

text \<open>C6: A frame only ever executes bytes that start an instruction: whatever the code does, the
  program counter never runs into the immediate data of a push.\<close>

theorem pc_at_instruction:
  assumes "codeOk (ctx_Code c)" and "reaches i rn (newFrame c sh) e" and "running e"
  shows "instr_start (ctx_Code c) (unat (env_pc e))"
proof -
  have "ctx_Code c \<noteq> []" if "running (newFrame c sh)" using that by (auto simp: running_def ulen_def)
  then have "goodPc (newFrame c sh)" using assms(1) instr_start_0 [of "ctx_Code c"] by (auto simp: goodPc_def)
  with assms(2) have good: "goodPc e" by (rule reaches_keeps) (rule stepOp_goodPc)
  have "env_ctx e = c"
    using assms(2) by (rule reaches_keeps [where I = "\<lambda>e. env_ctx e = c"]) (use stepOp_sameFrame in \<open>auto simp: sameFrame_def\<close>)
  with good assms(3) show ?thesis by (simp add: goodPc_def)
qed

theorem pc_at_instruction_witness:
  "instr_start [0x10, 0x0B, 0x0B] (unat (env_pc (bareFrame [0x10, 0x0B, 0x0B] 100 False)))"
  using pc_at_instruction [of "bareContext [0x10, 0x0B, 0x0B] 100 False" bareInterpreter stuck bareShared
      "bareFrame [0x10, 0x0B, 0x0B] 100 False"]
  by (simp add: bareFrame_def codeOk_def bareContext_def running_def ulen_def)

end
