(* ===== verification/QVM_Safety.thy ===== *)
theory QVM_Safety
  imports QVM_Valid "HOL-Library.Sublist"
begin

text \<open>
  What a frame, with all the frames it starts, may do to the state: the snapshots of its callers
  stay on the stack of snapshots, no balance becomes negative and the sum of the balances does
  not grow, and a read-only frame changes no balance, nonce, code or storage, no transient
  storage, and emits no log. The locale \<open>vm_state\<close> is what the interpreter relies on: the
  contract of the state and that of the precompiled contracts.
\<close>

section \<open>The relation between the state before and after\<close>

definition safeShared :: "'s StateDB \<Rightarrow> ('s \<Rightarrow> view list) \<Rightarrow> bool \<Rightarrow> 's Shared \<Rightarrow> 's Shared \<Rightarrow> bool" where
  "safeShared db snaps ro sh sh' \<longleftrightarrow>
     prefix (snaps (sh_stateDB sh)) (snaps (sh_stateDB sh')) \<and>
     (solvent db (sh_stateDB sh) \<longrightarrow>
        solvent db (sh_stateDB sh') \<and> totalSupply db (sh_stateDB sh') \<le> totalSupply db (sh_stateDB sh)) \<and>
     (ro \<longrightarrow> view_of db (sh_stateDB sh') = view_of db (sh_stateDB sh) \<and> sh_transient sh' = sh_transient sh \<and>
        sh_txCreatedContracts sh' = sh_txCreatedContracts sh \<and> sh_selfDestructCleared sh' = sh_selfDestructCleared sh)"

definition safe :: "'s StateDB \<Rightarrow> ('s \<Rightarrow> view list) \<Rightarrow> 's Environment \<Rightarrow> 's Environment \<Rightarrow> bool" where
  "safe db snaps e e' \<longleftrightarrow> env_ctx e' = env_ctx e \<and>
     safeShared db snaps (ctx_ReadOnly (env_ctx e)) (env_shared e) (env_shared e') \<and>
     (ctx_ReadOnly (env_ctx e) \<longrightarrow> env_logs e' = env_logs e \<and> env_transientStorage e' = env_transientStorage e)"

lemma safeShared_refl: "safeShared db snaps ro sh sh"
  by (simp add: safeShared_def)

lemma safeShared_trans:
  assumes "safeShared db snaps ro a b" and "safeShared db snaps ro b c"
  shows "safeShared db snaps ro a c"
  unfolding safeShared_def
proof (intro conjI)
  show "prefix (snaps (sh_stateDB a)) (snaps (sh_stateDB c))"
    using assms unfolding safeShared_def by (elim conjE) (rule prefix_order.trans)
  show "solvent db (sh_stateDB a) \<longrightarrow> solvent db (sh_stateDB c) \<and> totalSupply db (sh_stateDB c) \<le> totalSupply db (sh_stateDB a)"
    using assms unfolding safeShared_def by (elim conjE) (metis order_trans)
qed (use assms in \<open>simp_all add: safeShared_def\<close>)

lemma safe_refl: "safe db snaps e e"
  by (simp add: safe_def safeShared_refl)

lemma safe_trans: "safe db snaps a b \<Longrightarrow> safe db snaps b c \<Longrightarrow> safe db snaps a c"
  unfolding safe_def by (auto intro: safeShared_trans)

text \<open>Steps that leave the state, the logs and the transient storage alone.\<close>

lemma safe_local:
  "env_ctx e' = env_ctx e \<Longrightarrow> env_shared e' = env_shared e \<Longrightarrow> env_logs e' = env_logs e \<Longrightarrow>
   env_transientStorage e' = env_transientStorage e \<Longrightarrow> safe db snaps e e'"
  by (simp add: safe_def safeShared_refl)

locale vm_state = state_db "i_db i" snaps
  for i :: "'s Interpreter" and snaps :: "'s \<Rightarrow> view list" +
  assumes stateless: "\<not> i_IsStateful i a \<Longrightarrow>
      view_of (i_db i) (snd (i_RunPrecompiled i a p s)) = view_of (i_db i) s"
    and precompiled_snaps: "prefix (snaps s) (snaps (snd (i_RunPrecompiled i a p s)))"
    and precompiled_solvent: "solvent (i_db i) s \<Longrightarrow> solvent (i_db i) (snd (i_RunPrecompiled i a p s))"
    and precompiled_supply: "solvent (i_db i) s \<Longrightarrow> totalSupply (i_db i) (snd (i_RunPrecompiled i a p s)) \<le> totalSupply (i_db i) s"

sublocale vm_state \<subseteq> w: step_rel "safe (i_db i) snaps" env_ctx
  by unfold_locales (auto simp: safe_refl intro: safe_trans, simp add: safe_def)

context vm_state
begin

abbreviation seen :: "'s Environment \<Rightarrow> view" where
  "seen e \<equiv> view_of (i_db i) (env_db e)"

lemma solvent_view: "view_of (i_db i) s = view_of (i_db i) s' \<Longrightarrow> solvent (i_db i) s = solvent (i_db i) s'"
  by (simp add: solvent_def bal_view)

text \<open>A change of the state alone.\<close>

lemma safe_db:
  assumes "prefix (snaps (env_db e)) (snaps s')"
    and "solvent (i_db i) (env_db e) \<Longrightarrow> solvent (i_db i) s' \<and> totalSupply (i_db i) s' \<le> totalSupply (i_db i) (env_db e)"
    and "ctx_ReadOnly (env_ctx e) \<Longrightarrow> view_of (i_db i) s' = seen e"
  shows "safe (i_db i) snaps e (e\<lparr>env_shared := (env_shared e)\<lparr>sh_stateDB := s'\<rparr>\<rparr>)"
  using assms by (simp add: safe_def safeShared_def)

lemma safe_view:
  assumes "prefix (snaps (env_db e)) (snaps s')" and "view_of (i_db i) s' = seen e"
  shows "safe (i_db i) snaps e (e\<lparr>env_shared := (env_shared e)\<lparr>sh_stateDB := s'\<rparr>\<rparr>)"
  using assms solvent_view [OF assms(2)] supply_view [OF assms(2)] by (intro safe_db) simp_all

lemma safe_reads:
  "safe (i_db i) snaps e (snd (db_set (AddAddressToAccessList (i_db i) addr) e))"
  "safe (i_db i) snaps e (snd (db_set (AddSlotToAccessList (i_db i) addr key) e))"
  "safe (i_db i) snaps e (snd (db_run (GetBalance (i_db i) addr) e))"
  "safe (i_db i) snaps e (snd (db_run (GetNonce (i_db i) addr) e))"
  "safe (i_db i) snaps e (snd (db_run (Snapshot (i_db i)) e))"
  using Snapshot_push [of "env_db e"] Snapshot_full [of "env_db e"]
  by (auto simp: op_simps case_prod_beta view_simps snaps_simps intro!: safe_view)
     (metis linorder_not_less prefix_def prefix_order.refl)

lemma safe_kept:
  assumes "writable (env_ctx e)" and "snaps s' = snaps (env_db e)" and "v_bal (view_of (i_db i) s') = v_bal (seen e)"
  shows "safe (i_db i) snaps e (e\<lparr>env_shared := (env_shared e)\<lparr>sh_stateDB := s'\<rparr>\<rparr>)"
  using assms by (intro safe_db) (simp_all add: solvent_def totalSupply_def bal_view)

lemma safe_writes:
  assumes "writable (env_ctx e)"
  shows "safe (i_db i) snaps e (snd (db_set (SetState (i_db i) addr key v) e))"
    "safe (i_db i) snaps e (snd (db_set (SetNonce (i_db i) addr n) e))"
    "safe (i_db i) snaps e (snd (db_set (SetCode (i_db i) addr code) e))"
  using assms by (simp_all add: op_simps safe_kept snaps_simps view_simps)

lemma safe_destruct: "writable (env_ctx e) \<Longrightarrow> safe (i_db i) snaps e (snd (db_set (SelfDestruct (i_db i) addr) e))"
  using supply_SelfDestruct [of addr "env_db e"]
  by (auto simp: op_simps snaps_simps solvent_def view_SelfDestruct intro!: safe_db)

lemma safe_transfer:
  assumes "writable (env_ctx e)" and "b = bal (i_db i) (env_db e) from" and "0 \<le> v" and "v \<le> b"
  shows "safe (i_db i) snaps e (snd (transferValue i from b to v e))"
proof -
  let ?db = "i_db i"
  let ?s = "env_db e"
  define s1 where "s1 = SetBalance ?db from (b - v) ?s"
  define s2 where "s2 = snd (GetBalance ?db to s1)"
  define s3 where "s3 = SetBalance ?db to (bal ?db s1 to + v) s2"
  have run: "snd (transferValue i from b to v e) = e\<lparr>env_shared := (env_shared e)\<lparr>sh_stateDB := s3\<rparr>\<rparr>"
    by (simp add: transferValue_def op_simps s1_def s2_def s3_def bal_def case_prod_beta)
  have b1: "bal ?db s1 = (bal ?db ?s)(from := b - v)" by (simp add: s1_def bal_SetBalance)
  have b2: "bal ?db s2 = bal ?db s1" by (simp add: s2_def bal_view view_simps)
  have "totalSupply ?db s1 = totalSupply ?db ?s - v" by (simp add: s1_def supply_SetBalance assms(2))
  moreover have "totalSupply ?db s3 = totalSupply ?db s2 + v" by (simp add: s3_def supply_SetBalance b2)
  moreover have "totalSupply ?db s2 = totalSupply ?db s1" using b2 by (rule supply_cong)
  ultimately have "totalSupply ?db s3 = totalSupply ?db ?s" by simp
  moreover have "solvent ?db s3" if "solvent ?db ?s"
    using that assms by (auto simp: solvent_def s3_def bal_SetBalance b2 b1)
  moreover have "snaps s3 = snaps ?s" by (simp add: s1_def s2_def s3_def snaps_simps)
  ultimately show ?thesis using assms(1) unfolding run by (intro safe_db) simp_all
qed

text \<open>\<open>within Q m\<close>: \<open>m\<close> is safe from environments whose context and state contents satisfy \<open>Q\<close>. Steps
  that do not change the contents carry \<open>Q\<close> along, as from the check of a balance to the transfer.\<close>

definition within :: "(ExecutionContext \<Rightarrow> view \<Rightarrow> bool) \<Rightarrow> ('s Environment, 'a) op \<Rightarrow> bool" where
  "within Q m \<longleftrightarrow> (\<forall>e. Q (env_ctx e) (seen e) \<longrightarrow> safe (i_db i) snaps e (snd (m e)))"

definition quietly :: "('s Environment, 'a) op \<Rightarrow> bool" where
  "quietly m \<longleftrightarrow> (\<forall>e. safe (i_db i) snaps e (snd (m e)) \<and> seen (snd (m e)) = seen e)"

lemma within_keeps: "w.keeps P m \<Longrightarrow> (\<And>c x. Q c x \<Longrightarrow> P c) \<Longrightarrow> within Q m"
  by (simp add: within_def w.keeps_def)

lemma keeps_within: "within (\<lambda>c _. P c) m \<Longrightarrow> w.keeps P m"
  by (simp add: within_def w.keeps_def)

lemma within_if: "(b \<Longrightarrow> within Q m) \<Longrightarrow> (\<not> b \<Longrightarrow> within Q n) \<Longrightarrow> within Q (if b then m else n)"
  by simp

lemma within_bind:
  assumes "quietly m" and "\<And>a. within Q (k a)"
  shows "within Q (bind m k)"
  unfolding within_def
proof (intro allI impI)
  fix e :: "'s Environment"
  assume Q: "Q (env_ctx e) (seen e)"
  have 1: "safe (i_db i) snaps e (snd (m e))" "seen (snd (m e)) = seen e" using assms(1) by (auto simp: quietly_def)
  with Q have "safe (i_db i) snaps (snd (m e)) (snd (k a (snd (m e))))" for a
    using assms(2) [of a] w.R_context [OF 1(1)] by (simp add: within_def)
  with 1 show "safe (i_db i) snaps e (snd (bind m k e))"
    by (auto simp: run_bind split: prod.split sum.split intro: safe_trans)
qed

lemma within_catch:
  assumes "quietly m" and "\<And>x. within Q (h x)" and "\<And>a. within Q (k a)"
  shows "within Q (catch m h k)"
proof -
  have "catch m h k = bind (attempt m) (\<lambda>r. case r of Inl x \<Rightarrow> h x | Inr a \<Rightarrow> k a)"
    by (auto simp: fun_eq_iff op_simps attempt_def split: prod.split sum.split)
  moreover have "quietly (attempt m)" using assms(1) by (simp add: quietly_def attempt_def case_prod_beta)
  ultimately show ?thesis using assms(2,3) by (auto intro!: within_bind split: sum.split)
qed

lemma within_deferring: "within Q m \<Longrightarrow> (\<And>e. safe (i_db i) snaps e (d e)) \<Longrightarrow> within Q (deferring d m)"
  by (auto simp: within_def run_deferring split: prod.split intro: safe_trans)

lemma within_gets:
  assumes "\<And>e. within (\<lambda>c x. Q c x \<and> c = env_ctx e \<and> x = seen e) (k (f e))"
  shows "within Q (bind (gets f) k)"
  using assms by (simp add: within_def op_simps)

lemma within_GetBalance:
  assumes "\<And>b. within (\<lambda>c x. Q c x \<and> v_bal x addr = b) (k b)"
  shows "within Q (bind (db_run (GetBalance (i_db i) addr)) k)"
  unfolding within_def
proof (intro allI impI)
  fix e :: "'s Environment"
  assume Q: "Q (env_ctx e) (seen e)"
  let ?b = "bal (i_db i) (env_db e) addr"
  obtain e1 where e1: "db_run (GetBalance (i_db i) addr) e = (Inr ?b, e1)" "env_ctx e1 = env_ctx e" "seen e1 = seen e"
    by (simp add: op_simps case_prod_beta bal_def view_simps)
  have "safe (i_db i) snaps e e1" using safe_reads(3) [of e addr] e1 by simp
  moreover have "safe (i_db i) snaps e1 (snd (k ?b e1))"
    using assms [of ?b] Q e1 by (simp add: within_def bal_view)
  ultimately show "safe (i_db i) snaps e (snd (bind (db_run (GetBalance (i_db i) addr)) k e))"
    using e1 by (auto simp: run_bind intro: safe_trans)
qed

lemma within_transfer:
  assumes "\<And>c x. Q c x \<Longrightarrow> P c \<and> writable c \<and> b = v_bal x from \<and> 0 \<le> v \<and> v \<le> b" and "\<And>a. w.keeps P (k a)"
  shows "within Q (bind (transferValue i from b to v) k)"
  unfolding within_def
proof (intro allI impI)
  fix e :: "'s Environment"
  assume Q: "Q (env_ctx e) (seen e)"
  obtain e1 where e1: "transferValue i from b to v e = (Inr (), e1)"
    by (simp add: transferValue_def op_simps case_prod_beta)
  have s: "safe (i_db i) snaps e e1"
    using safe_transfer [of e b "from" v to] assms(1) [OF Q] e1 by (simp add: bal_view)
  moreover have "safe (i_db i) snaps e1 (snd (k a e1))" for a
    using w.keepsD [OF assms(2), of e1 a] assms(1) [OF Q] w.R_context [OF s] by simp
  ultimately show "safe (i_db i) snaps e (snd (bind (transferValue i from b to v) k e))"
    using e1 by (auto simp: run_bind intro: safe_trans)
qed

lemma keeps_active:
  "w.keeps P (PushActiveAddress addr)" "safe (i_db i) snaps e (PopActiveAddress e)" "safe (i_db i) snaps e (restoreActive n e)"
  by (auto intro!: w.keepsI safe_local simp: PushActiveAddress_def PopActiveAddress_def restoreActive_def)

lemma keeps_destructAccount:
  assumes "\<And>c. P c \<Longrightarrow> writable c"
  shows "w.keeps P (destructAccount i beneficiary)"
proof -
  let ?rest = "\<lambda>addr. bind (db_set (SelfDestruct (i_db i) addr)) (\<lambda>_.
       modify (\<lambda>e. e\<lparr>env_selfDestructed := True, env_selfDestructBeneficiary := beneficiary, env_stopped := True\<rparr>))"
  have rest: "w.keeps P (?rest addr)" for addr
    using assms by (intro w.keeps_bind w.keepsI) (auto simp: modify_def intro!: safe_destruct safe_local)
  have moved: "bind (if b > 0 then bind (db_set (SetBalance (i_db i) addr 0)) (\<lambda>_.
             bind (db_run (GetBalance (i_db i) beneficiary)) (\<lambda>c. db_set (SetBalance (i_db i) beneficiary (c + b)))) else ret ()) k
      = (if b > 0 then bind (transferValue i addr b beneficiary b) k else k ())" for b addr and k :: "unit \<Rightarrow> ('s Environment, unit) op"
    by (simp add: transferValue_def)
  have pay: "w.keeps P (bind (db_run (GetBalance (i_db i) addr)) (\<lambda>b. if b > 0 then bind (transferValue i addr b beneficiary b) (\<lambda>_. ?rest addr) else ?rest addr))" for addr
    by (rule keeps_within, rule within_GetBalance, rule within_if, rule within_transfer [where P = P], insert assms, simp, rule rest)
      (rule within_keeps [OF rest], simp)
  show ?thesis
    unfolding destructAccount_def moved
    by (intro w.keeps_rules pay rest)
      (auto intro!: w.keepsI safe_reads safe_local simp: db_get_def op_simps split: prod.split)
qed

lemma safe_SelfDestruct: "safe (i_db i) snaps e (snd (opSelfDestruct i e))"
proof -
  have "w.keeps (\<lambda>_. True) (opSelfDestruct i)"
    unfolding opSelfDestruct_def stopFrame_def db_get_def Let_def
    by (intro w.keeps_bind_context w.keeps_rules w.keeps_deferring keeps_active keeps_destructAccount)
      (auto intro!: w.keepsI simp: op_simps safe_def safeShared_def split: prod.split)
  from w.keepsD [OF this] show ?thesis by simp
qed

end

sublocale vm_state \<subseteq> w: handler_rel "safe (i_db i) snaps" i
proof unfold_locales
  show "writable (env_ctx e) \<Longrightarrow> safe (i_db i) snaps e (setTransient ts e)" for e ts
    by (simp add: setTransient_def safe_def safeShared_def)
  show "writable (env_ctx e) \<Longrightarrow> safe (i_db i) snaps e (e\<lparr>env_logs := env_logs e @ logs\<rparr>)" for e logs
    by (simp add: safe_def safeShared_def)
  show "safe (i_db i) snaps e (e\<lparr>env_shared := (env_shared e)\<lparr>sh_reentryCounts := counts\<rparr>\<rparr>)" for e counts
    by (simp add: safe_def safeShared_def)
qed (rule safe_reads safe_SelfDestruct | (rule safe_writes, assumption) | (simp add: safe_local op_simps split: prod.split)[1])+

section \<open>Snapshots around a sub-frame\<close>

context vm_state
begin

text \<open>Between taking a snapshot in \<open>e0\<close> and giving it up: the snapshot is still there.\<close>

definition inner :: "'s Environment \<Rightarrow> 's Environment \<Rightarrow> bool" where
  "inner e0 e \<longleftrightarrow> safe (i_db i) snaps e0 e \<and> prefix (snaps (env_db e0) @ [seen e0]) (snaps (env_db e))"

lemma inner_step: "inner e0 e \<Longrightarrow> safe (i_db i) snaps e e' \<Longrightarrow> inner e0 e'"
  unfolding inner_def by (auto simp: safe_def safeShared_def intro: safe_trans prefix_order.trans)

text \<open>\<open>settles P sid m\<close>: \<open>m\<close> may start inside the snapshot \<open>sid\<close> and ends in a safe environment.\<close>

definition settles :: "(ExecutionContext \<Rightarrow> bool) \<Rightarrow> int \<Rightarrow> ('s Environment, 'a) op \<Rightarrow> bool" where
  "settles P sid m \<longleftrightarrow> (\<forall>e0 e. P (env_ctx e0) \<and> sid = int (length (snaps (env_db e0))) \<and> inner e0 e \<longrightarrow> safe (i_db i) snaps e0 (snd (m e)))"

lemma inner_ctx: "inner e0 e \<Longrightarrow> env_ctx e = env_ctx e0"
  by (simp add: inner_def safe_def)

lemma settles_keeps: "w.keeps P m \<Longrightarrow> settles P sid m"
  unfolding settles_def by (metis inner_ctx inner_def safe_trans w.keepsD)

lemma settles_later:
  assumes "w.keeps P m" and "\<And>a. settles P sid (k a)"
  shows "settles P sid (bind m k)"
  unfolding settles_def
proof (intro allI impI, elim conjE)
  fix e0 e :: "'s Environment"
  assume P: "P (env_ctx e0)" and sid: "sid = int (length (snaps (env_db e0)))" and e: "inner e0 e"
  have "safe (i_db i) snaps e (snd (m e))" using w.keepsD [OF assms(1), of e] P inner_ctx [OF e] by simp
  then have "inner e0 (snd (m e))" by (rule inner_step [OF e])
  then have "safe (i_db i) snaps e0 (snd (m e))" "safe (i_db i) snaps e0 (snd (k a (snd (m e))))" for a
    using assms(2) [of a] P sid by (auto simp: settles_def inner_def)
  then show "safe (i_db i) snaps e0 (snd (bind m k e))" by (auto simp: run_bind split: prod.split sum.split)
qed

lemma settles_now:
  assumes "settles P sid m" and "\<And>a. w.keeps P (k a)"
  shows "settles P sid (bind m k)"
  unfolding settles_def
proof (intro allI impI, elim conjE)
  fix e0 e :: "'s Environment"
  assume P: "P (env_ctx e0)" and sid: "sid = int (length (snaps (env_db e0)))" and e: "inner e0 e"
  have 1: "safe (i_db i) snaps e0 (snd (m e))" using assms(1) P sid e by (simp add: settles_def)
  then have "safe (i_db i) snaps (snd (m e)) (snd (k a (snd (m e))))" for a
    using w.keepsD [OF assms(2), of "snd (m e)" a] P w.R_context [OF 1] by simp
  with 1 show "safe (i_db i) snaps e0 (snd (bind m k e))"
    by (auto simp: run_bind split: prod.split sum.split intro: safe_trans)
qed

lemma settles_catch:
  assumes "w.keeps P m" and "\<And>x. settles P sid (h x)" and "\<And>a. settles P sid (k a)"
  shows "settles P sid (catch m h k)"
proof -
  have "catch m h k = bind (attempt m) (\<lambda>r. case r of Inl x \<Rightarrow> h x | Inr a \<Rightarrow> k a)"
    by (auto simp: fun_eq_iff op_simps attempt_def split: prod.split sum.split)
  moreover have "w.keeps P (attempt m)" using assms(1) by (simp add: w.keeps_def attempt_def case_prod_beta)
  ultimately show ?thesis using assms(2,3) by (auto intro!: settles_later split: sum.split)
qed

lemma settles_mono: "settles P sid m \<Longrightarrow> (\<And>c. P' c \<Longrightarrow> P c) \<Longrightarrow> settles P' sid m"
  by (simp add: settles_def)

lemma settles_if: "(b \<Longrightarrow> settles P sid m) \<Longrightarrow> (\<not> b \<Longrightarrow> settles P sid n) \<Longrightarrow> settles P sid (if b then m else n)"
  by simp

lemma settles_revert: "settles P sid (revertTo i sid)"
  unfolding settles_def
proof (intro allI impI, elim conjE)
  fix e0 e :: "'s Environment"
  assume sid: "sid = int (length (snaps (env_db e0)))" and e: "inner e0 e"
  let ?s = "RevertToSnapshot (i_db i) sid (env_db e)"
  from e obtain tl where tl: "snaps (env_db e) = snaps (env_db e0) @ seen e0 # tl" by (auto simp: inner_def prefix_def)
  then have s: "view_of (i_db i) ?s = seen e0" "snaps ?s = snaps (env_db e0)"
    using Revert_view [of sid "env_db e"] sid by (simp_all add: nth_append)
  then have "solvent (i_db i) ?s = solvent (i_db i) (env_db e0)" "totalSupply (i_db i) ?s = totalSupply (i_db i) (env_db e0)"
    using solvent_view [OF s(1)] supply_view [OF s(1)] by simp_all
  with s e show "safe (i_db i) snaps e0 (snd (revertTo i sid e))"
    by (simp add: revertTo_def op_simps inner_def safe_def safeShared_def)
qed

lemma settles_release: "settles P sid (release i sid)"
  unfolding settles_def
proof (intro allI impI, elim conjE)
  fix e0 e :: "'s Environment"
  assume sid: "sid = int (length (snaps (env_db e0)))" and e: "inner e0 e"
  show "safe (i_db i) snaps e0 (snd (release i sid e))"
  proof (cases "ReleaseSnapshot (i_db i)")
    case None
    with e sid show ?thesis by (simp add: release_def releaseFrame_def op_simps inner_def)
  next
    case (Some rel)
    from e obtain tl where tl: "snaps (env_db e) = snaps (env_db e0) @ seen e0 # tl" by (auto simp: inner_def prefix_def)
    then have s: "view_of (i_db i) (rel sid (env_db e)) = seen e" "snaps (rel sid (env_db e)) = snaps (env_db e0)"
      using Release_snaps [OF Some, of sid "env_db e"] sid by simp_all
    then have "solvent (i_db i) (rel sid (env_db e)) = solvent (i_db i) (env_db e)"
        "totalSupply (i_db i) (rel sid (env_db e)) = totalSupply (i_db i) (env_db e)"
      using solvent_view [OF s(1)] supply_view [OF s(1)] by simp_all
    with s e sid Some show ?thesis
      by (simp add: release_def releaseFrame_def op_simps inner_def safe_def safeShared_def)
  qed
qed

text \<open>Taking a snapshot: what follows sees the same contents.\<close>

definition opens :: "(ExecutionContext \<Rightarrow> view \<Rightarrow> bool) \<Rightarrow> int \<Rightarrow> ('s Environment, 'a) op \<Rightarrow> bool" where
  "opens Q sid m \<longleftrightarrow> (\<forall>e0 e. Q (env_ctx e0) (seen e0) \<and> sid = int (length (snaps (env_db e0))) \<and> inner e0 e \<and> seen e = seen e0
     \<longrightarrow> safe (i_db i) snaps e0 (snd (m e)))"

lemma opens_settles: "settles P sid m \<Longrightarrow> (\<And>c x. Q c x \<Longrightarrow> P c) \<Longrightarrow> opens Q sid m"
  by (auto simp: opens_def settles_def)

lemma within_snapshot:
  assumes "within Q m" and "\<And>sid. opens Q sid (k sid)"
  shows "within Q (bind (db_run (Snapshot (i_db i))) (\<lambda>sid. if sid < 0 then m else k sid))"
  unfolding within_def
proof (intro allI impI)
  fix e :: "'s Environment"
  assume Q: "Q (env_ctx e) (seen e)"
  obtain sid e1 where e1: "db_run (Snapshot (i_db i)) e = (Inr sid, e1)" "sid = fst (Snapshot (i_db i) (env_db e))"
      "env_ctx e1 = env_ctx e" "seen e1 = seen e" "env_db e1 = snd (Snapshot (i_db i) (env_db e))"
    by (simp add: op_simps case_prod_beta view_simps)
  have s: "safe (i_db i) snaps e e1" using safe_reads(5) [of e] e1 by simp
  show "safe (i_db i) snaps e (snd (bind (db_run (Snapshot (i_db i))) (\<lambda>sid. if sid < 0 then m else k sid) e))"
  proof (cases "sid < 0")
    case True
    have "safe (i_db i) snaps e1 (snd (m e1))" using assms(1) Q e1 by (simp add: within_def)
    with s True e1(1) show ?thesis by (auto simp: run_bind intro: safe_trans)
  next
    case False
    then have "sid = int (length (snaps (env_db e)))" "snaps (env_db e1) = snaps (env_db e) @ [seen e]"
      using Snapshot_push [of "env_db e"] e1 by simp_all
    with s Q e1 have "safe (i_db i) snaps e (snd (k sid e1))"
      using assms(2) [of sid] unfolding opens_def by (elim allE [of _ e] allE [of _ e1]) (simp add: inner_def)
    with False e1(1) show ?thesis by (simp add: run_bind)
  qed
qed

lemma opens_bind:
  assumes "within Q m" and "\<And>a. settles P sid (k a)" and "\<And>c x. Q c x \<Longrightarrow> P c"
  shows "opens Q sid (bind m k)"
  unfolding opens_def
proof (intro allI impI, elim conjE)
  fix e0 e :: "'s Environment"
  assume Q: "Q (env_ctx e0) (seen e0)" and sid: "sid = int (length (snaps (env_db e0)))"
    and e: "inner e0 e" and same: "seen e = seen e0"
  have "safe (i_db i) snaps e (snd (m e))" using assms(1) Q same inner_ctx [OF e] by (simp add: within_def)
  then have "inner e0 (snd (m e))" by (rule inner_step [OF e])
  then have "safe (i_db i) snaps e0 (snd (m e))" "safe (i_db i) snaps e0 (snd (k a (snd (m e))))" for a
    using assms(2) [of a] assms(3) [OF Q] sid by (auto simp: settles_def inner_def)
  then show "safe (i_db i) snaps e0 (snd (bind m k e))" by (auto simp: run_bind split: prod.split sum.split)
qed

lemma keeps_snapshot:
  assumes "w.keeps P m" and "\<And>sid. settles P sid (k sid)"
  shows "w.keeps P (bind (db_run (Snapshot (i_db i))) (\<lambda>sid. if sid < 0 then m else k sid))"
  by (rule keeps_within, rule within_snapshot) (auto intro: within_keeps opens_settles assms)

lemma settles_gets: "(\<And>e. settles P sid (k (f e))) \<Longrightarrow> settles P sid (bind (gets f) k)"
  by (simp add: settles_def op_simps)

lemma settles_bind_context:
  assumes "\<And>v. settles (\<lambda>c. P c \<and> f c = v) sid (k v)"
  shows "settles P sid (bind (gets (\<lambda>e. f (env_ctx e))) k)"
  unfolding settles_def
proof (intro allI impI, elim conjE)
  fix e0 e :: "'s Environment"
  assume P: "P (env_ctx e0)" and sid: "sid = int (length (snaps (env_db e0)))" and e: "inner e0 e"
  with assms [of "f (env_ctx e0)"] have "safe (i_db i) snaps e0 (snd (k (f (env_ctx e0)) e))" by (simp add: settles_def)
  then show "safe (i_db i) snaps e0 (snd (bind (gets (\<lambda>e. f (env_ctx e))) k e))"
    using inner_ctx [OF e] by (simp add: op_simps)
qed

lemma settles_option: "settles P sid m \<Longrightarrow> (\<And>a. settles P sid (k a)) \<Longrightarrow> settles P sid (case x of None \<Rightarrow> m | Some a \<Rightarrow> k a)"
  by (cases x) simp_all

lemma settles_sum: "(\<And>a. settles P sid (m a)) \<Longrightarrow> (\<And>a. settles P sid (k a)) \<Longrightarrow> settles P sid (case x of Inl a \<Rightarrow> m a | Inr a \<Rightarrow> k a)"
  by (cases x) simp_all

lemma settles_prod: "(\<And>a b. settles P sid (m a b)) \<Longrightarrow> settles P sid (case x of (a, b) \<Rightarrow> m a b)"
  by (cases x) simp

lemma settles_let: "settles P sid (f x) \<Longrightarrow> settles P sid (let y = x in f y)"
  by simp

lemma settles_deferring: "settles P sid m \<Longrightarrow> (\<And>e. safe (i_db i) snaps e (d e)) \<Longrightarrow> settles P sid (deferring d m)"
  unfolding settles_def by (auto simp: run_deferring case_prod_beta intro: safe_trans)

lemma safe_depth: "safe (i_db i) snaps e (e\<lparr>env_callDepth := d\<rparr>)"
  by (rule safe_local) simp_all

lemma settles_deeper: "(\<And>d. settles P sid (k d)) \<Longrightarrow> settles P sid (deeper k)"
  unfolding deeper_def
  by (intro settles_later settles_deferring w.keepsI safe_depth w.keeps_gets) (simp_all add: modify_def safe_depth)

lemma settles_moves:
  assumes "\<And>c. P c \<Longrightarrow> writable c" and "0 \<le> v" and "\<And>b. settles P sid (m b)" and "settles P sid k"
  shows "settles P sid (bind (db_run (GetBalance (i_db i) from)) (\<lambda>b. if b < v then m b else bind (transferValue i from b to v) (\<lambda>_. k)))"
proof -
  let ?n = "bind (db_run (GetBalance (i_db i) from)) (\<lambda>b. if b < v then ret (Some b) else bind (transferValue i from b to v) (\<lambda>_. ret None))"
  have eq: "(bind (db_run (GetBalance (i_db i) from)) (\<lambda>b. if b < v then m b else bind (transferValue i from b to v) (\<lambda>_. k)))
      = bind ?n (\<lambda>r. case r of None \<Rightarrow> k | Some b \<Rightarrow> m b)"
    unfolding bind_assoc
    by (rule arg_cong [where f = "bind _"]) (auto simp: fun_eq_iff bind_assoc bind_ret)
  have "w.keeps P ?n"
    by (rule keeps_within, rule within_GetBalance, rule within_if, rule within_keeps [OF w.keeps_ret [where P = P]], simp,
        rule within_transfer [where P = P], use assms(1,2) in auto, rule w.keeps_ret)
  then show ?thesis unfolding eq by (rule settles_later) (intro settles_option assms(3,4))
qed

section \<open>Sub-frames\<close>

text \<open>What is asked of the frames a handler starts.\<close>

definition goodRunner :: "'s runner \<Rightarrow> bool" where
  "goodRunner rn \<longleftrightarrow> (\<forall>e. safe (i_db i) snaps e (snd (rn e)) \<and>
     (ctx_ReadOnly (env_ctx e) \<and> env_logs e = [] \<longrightarrow> res_Logs (fst (rn e)) = []))"

lemma safeShared_weaken: "safeShared db sn ro sh sh' \<Longrightarrow> (ro' \<Longrightarrow> ro) \<Longrightarrow> safeShared db sn ro' sh sh'"
  by (auto simp: safeShared_def)

lemma Execute_safe:
  assumes "goodRunner rn" and "ctx_ParentEnv c = Some p" and "Execute rn c sh = (r, sh')"
  shows "safeShared (i_db i) snaps (ctx_ReadOnly c) sh sh'" "ctx_ReadOnly c \<Longrightarrow> res_Logs r = []"
proof -
  obtain r1 e1 where e1: "rn (newFrame c sh) = (r1, e1)" by fastforce
  have sh: "env_shared (newFrame c sh) = sh" using assms(2) by (simp add: newFrame_def PushActiveAddress_def)
  have s: "safeShared (i_db i) snaps (ctx_ReadOnly c) sh (env_shared e1)" "ctx_ReadOnly c \<Longrightarrow> res_Logs r1 = []"
    using assms(1) [unfolded goodRunner_def, rule_format, of "newFrame c sh"] e1 sh by (simp_all add: safe_def)
  then show "safeShared (i_db i) snaps (ctx_ReadOnly c) sh sh'" "ctx_ReadOnly c \<Longrightarrow> res_Logs r = []"
    using assms(2,3) e1 by (auto simp: Execute_def Let_def safeShared_def split: if_splits)
qed

lemma settles_child:
  assumes "goodRunner rn" and "\<And>c. P c \<Longrightarrow> ctx_ReadOnly c \<Longrightarrow> ctx_ReadOnly cc"
    and k: "\<And>r. settles (\<lambda>c. P c \<and> (ctx_ReadOnly c \<longrightarrow> res_Logs r = [])) sid (k r)"
  shows "settles P sid (bind (executeChild rn cc) k)"
  unfolding settles_def
proof (intro allI impI, elim conjE)
  fix e0 e :: "'s Environment"
  assume P: "P (env_ctx e0)" and sid: "sid = int (length (snaps (env_db e0)))" and e: "inner e0 e"
  let ?c = "cc\<lparr>ctx_ParentEnv := Some (parentView e)\<rparr>"
  obtain r sh where r: "Execute rn ?c (env_shared e) = (r, sh)" by fastforce
  have s: "safeShared (i_db i) snaps (ctx_ReadOnly cc) (env_shared e) sh" "ctx_ReadOnly cc \<Longrightarrow> res_Logs r = []"
    using Execute_safe [OF assms(1) _ r] by simp_all
  have ro: "ctx_ReadOnly (env_ctx e) \<Longrightarrow> ctx_ReadOnly cc" using assms(2) P inner_ctx [OF e] by simp
  have "safe (i_db i) snaps e (e\<lparr>env_shared := sh\<rparr>)" using safeShared_weaken [OF s(1) ro] by (simp add: safe_def)
  then have "inner e0 (e\<lparr>env_shared := sh\<rparr>)" by (rule inner_step [OF e])
  then have "safe (i_db i) snaps e0 (snd (k r (e\<lparr>env_shared := sh\<rparr>)))"
    using k [of r] P sid s(2) ro inner_ctx [OF e] by (simp add: settles_def)
  then show "safe (i_db i) snaps e0 (snd (bind (executeChild rn cc) k e))"
    by (simp add: run_bind executeChild_def r)
qed

lemma keeps_runInit:
  assumes "goodRunner rn" and "\<And>c. P c \<Longrightarrow> writable c"
  shows "w.keeps P (runInit rn ie)"
proof (rule w.keepsI)
  fix e :: "'s Environment"
  assume P: "P (env_ctx e)"
  let ?f = "ie\<lparr>env_shared := env_shared e\<rparr>"
  have "safe (i_db i) snaps ?f (snd (rn ?f))" using assms(1) by (simp add: goodRunner_def)
  then have "safeShared (i_db i) snaps False (env_shared e) (env_shared (snd (rn ?f)))"
    by (simp add: safe_def safeShared_def)
  then show "safe (i_db i) snaps e (snd (runInit rn ie e))"
    using assms(2) [OF P] by (simp add: runInit_def safe_def case_prod_beta)
qed

lemma keeps_appendLogs:
  "(\<And>c. P c \<Longrightarrow> ctx_ReadOnly c \<Longrightarrow> logs = []) \<Longrightarrow> w.keeps P (modify (\<lambda>e. e\<lparr>env_logs := env_logs e @ logs\<rparr>))"
  by (auto intro!: w.keepsI simp: modify_def safe_def safeShared_refl)

lemma keeps_restore: "w.keeps P (modify (restoreActive n))"
  by (rule w.keepsI) (simp add: modify_def keeps_active)

lemma keeps_restoreAnd: "w.keeps P m \<Longrightarrow> w.keeps P (restoreAnd n m)"
  unfolding restoreAnd_def by (intro w.keeps_bind keeps_restore)

lemma keeps_refuse: "w.keeps P (refuse n)"
  unfolding refuse_def by (intro keeps_restoreAnd w.keeps_prims)

lemma keeps_attempt: "w.keeps P m \<Longrightarrow> w.keeps P (attempt m)"
  by (simp add: w.keeps_def attempt_def case_prod_beta)

lemma keeps_gas: "w.keeps P (modify (\<lambda>e. e\<lparr>env_gas := f e\<rparr>))" "w.keeps P (returnGas c u)"
  unfolding returnGas_def by (intro w.keeps_rules w.keepsI; simp add: modify_def safe_local)+

lemma keeps_executePrecompiled:
  assumes "\<And>c. P c \<Longrightarrow> ctx_ReadOnly c \<Longrightarrow> static"
  shows "w.keeps P (executePrecompiled i a input g static)"
proof -
  have run: "w.keeps P (db_run (i_RunPrecompiled i addr p))" if "static \<Longrightarrow> \<not> i_IsStateful i addr" for addr p
    using that assms stateless precompiled_snaps precompiled_solvent precompiled_supply
    by (intro w.keepsI) (simp add: op_simps case_prod_beta, rule safe_db, auto)
  have out: "w.keeps P (precompiledOutcome a x)" for x
    unfolding precompiledOutcome_def
    by (intro w.keeps_rules keeps_attempt w.keeps_prims w.keeps_setReturnData w.keeps_copyReturn)
  show ?thesis unfolding executePrecompiled_def
    by (intro w.keeps_rules keeps_gas out run) auto
qed

lemmas settles_rules = settles_revert settles_release settles_if settles_option settles_sum settles_prod settles_let

lemma settles_restoreAnd: "settles P sid m \<Longrightarrow> settles P sid (restoreAnd n m)"
  unfolding restoreAnd_def by (intro settles_later keeps_restore)

lemma settles_finishCall:
  assumes "\<And>c. P c \<Longrightarrow> ctx_ReadOnly c \<Longrightarrow> res_Logs r = []"
  shows "settles P sid (finishCall i a g saved sid r)"
proof -
  let ?rest = "bind (setReturnData (res_ReturnData r)) (\<lambda>_.
     catch (copyReturn a (res_ReturnData r)) (\<lambda>x. restoreAnd saved (fail x)) (\<lambda>_.
       bind (if \<not> res_Reverted r then modify (\<lambda>e. e\<lparr>env_logs := env_logs e @ res_Logs r\<rparr>) else ret ()) (\<lambda>_.
       restoreAnd saved (if res_Err r \<noteq> None then pushUint64 0 else pushUint64 1))))"
  have rest: "w.keeps P ?rest"
    using assms by (intro w.keeps_rules keeps_restoreAnd keeps_appendLogs w.keeps_prims w.keeps_setReturnData w.keeps_copyReturn)
  have fault: "settles P sid (restoreAnd saved (bind (revertTo i sid) (\<lambda>_. bind (setReturnData []) (\<lambda>_. pushUint64 0))))"
    by (intro settles_restoreAnd settles_now settles_revert w.keeps_bind w.keeps_setReturnData w.keeps_prims)
  have "settles P sid (bind (if res_Reverted r then restoreAnd saved (revertTo i sid) else ret ()) (\<lambda>_.
      bind (if \<not> res_Reverted r then release i sid else ret ()) (\<lambda>_. ?rest)))"
  proof (cases "res_Reverted r")
    case True
    have "settles P sid (bind (restoreAnd saved (revertTo i sid)) (\<lambda>_. ?rest))"
      by (intro settles_now settles_restoreAnd settles_revert rest)
    with True show ?thesis by (simp only: if_True if_False bind_ret simp_thms not_True_eq_False)
  next
    case False
    have "settles P sid (bind (release i sid) (\<lambda>_. ?rest))" by (intro settles_now settles_release rest)
    with False show ?thesis by (simp only: if_True if_False bind_ret simp_thms not_False_eq_True)
  qed
  then show ?thesis unfolding finishCall_def by (intro settles_later [OF keeps_gas(2)] settles_if fault)
qed

section \<open>The handlers that start a frame\<close>

lemma quietly_local:
  "(\<And>e. env_ctx (snd (m e)) = env_ctx e \<and> env_shared (snd (m e)) = env_shared e \<and> env_logs (snd (m e)) = env_logs e \<and>
     env_transientStorage (snd (m e)) = env_transientStorage e) \<Longrightarrow> quietly m"
  by (simp add: quietly_def safe_local)

lemma quiet_prims: "quietly (consume c)" "quietly (PushActiveAddress addr)" "quietly (modify (\<lambda>e. e\<lparr>env_callDepth := f e\<rparr>))"
    "quietly (gets g)" "quietly (ret x)"
  by (rule quietly_local, simp add: op_simps PushActiveAddress_def split: prod.split)+

lemma quietly_if: "quietly m \<Longrightarrow> quietly n \<Longrightarrow> quietly (if b then m else n)"
  by simp

lemma within_atNextDepth:
  assumes "\<And>d. within Q (k d)" and "\<And>c x. Q c x \<Longrightarrow> P c"
  shows "within Q (atNextDepth k)"
  unfolding atNextDepth_def deeper_def
  by (intro within_bind quiet_prims within_deferring safe_depth within_if assms(1) within_keeps [OF w.keeps_pushUint64 [of "\<lambda>_. True"]]) simp

lemma within_payGuard: "within Q m \<Longrightarrow> within Q (payGuard g m)"
  unfolding payGuard_def
  by (intro within_catch quietly_if quiet_prims within_keeps [OF w.keeps_pushUint64 [of "\<lambda>_. True"]]) simp_all

lemma within_withActive: "(\<And>n. within Q (k n)) \<Longrightarrow> within Q (withActive addr k)"
  unfolding withActive_def
  by (intro within_bind quiet_prims within_if within_keeps [OF keeps_refuse [of "\<lambda>_. True"]]) simp_all

lemma within_isReadOnly:
  "(\<And>v. within (\<lambda>c x. Q c x \<and> ctx_ReadOnly c = v) (k v)) \<Longrightarrow> within Q (bind (gets isReadOnly) k)"
  by (simp add: within_def run_bind run_gets isReadOnly_def)

lemma within_paid:
  "(\<And>c x. Q c x \<Longrightarrow> writable c \<and> b = v_bal x from \<and> 0 \<le> v \<and> v \<le> b) \<Longrightarrow> within Q (transferValue i from b to v)"
  unfolding within_def by (auto intro!: safe_transfer simp: bal_view)

text \<open>After the transfer: gas, precompiled contract or sub-frame.\<close>

lemma settles_enter:
  assumes rn: "goodRunner rn" and cc: "\<And>c. P c \<Longrightarrow> ctx_ReadOnly c \<Longrightarrow> ctx_ReadOnly cc"
    and fin: "\<And>s err. settles P sid (fin s err)" and h: "settles P sid h"
  shows "settles P sid (catch (consume g) (\<lambda>_. h) (\<lambda>_. bind (gets isReadOnly) (\<lambda>static.
      bind (executePrecompiled i a input g static) (\<lambda>p. case p of Some (s, err) \<Rightarrow> fin s err
        | None \<Rightarrow> bind (executeChild rn cc) (\<lambda>r. finishCall i a g saved sid r)))))"
proof (intro settles_catch h)
  have child: "settles P sid (bind (executeChild rn cc) (\<lambda>r. finishCall i a g saved sid r))"
    using rn cc by (intro settles_child settles_finishCall) auto
  have "settles (\<lambda>c. P c \<and> ctx_ReadOnly c = v) sid (bind (executePrecompiled i a input g v) (\<lambda>p. case p of Some (s, err) \<Rightarrow> fin s err
        | None \<Rightarrow> bind (executeChild rn cc) (\<lambda>r. finishCall i a g saved sid r)))" for v
    by (intro settles_later [OF keeps_executePrecompiled] settles_option settles_prod settles_mono [OF child] settles_mono [OF fin]) simp_all
  then show "settles P sid (bind (gets isReadOnly) (\<lambda>static.
      bind (executePrecompiled i a input g static) (\<lambda>p. case p of Some (s, err) \<Rightarrow> fin s err
        | None \<Rightarrow> bind (executeChild rn cc) (\<lambda>r. finishCall i a g saved sid r))))"
    unfolding isReadOnly_def [abs_def] by (rule settles_bind_context)
qed (rule w.keepsI [OF w.R_consume])

lemma settles_refused: "settles P sid (restoreAnd n (bind (revertTo i sid) (\<lambda>_. pushUint64 0)))"
  by (intro settles_restoreAnd settles_now settles_revert w.keeps_prims)

lemma settles_done:
  "settles P sid (bind (if b then revertTo i sid else ret ()) (\<lambda>_. restoreAnd n (lift_res err)))"
  "settles P sid (bind (if b then revertTo i sid else release i sid) (\<lambda>_. restoreAnd n (lift_res err)))"
  "settles P sid (bind (if b then revertTo i sid else release i sid) (\<lambda>_. lift_res err))"
  by (intro settles_now settles_if settles_revert settles_release settles_keeps [OF w.keeps_ret] keeps_restoreAnd w.keeps_lift)+

lemma within_enterCall:
  assumes rn: "goodRunner rn"
    and Q: "\<And>c x. Q c x \<Longrightarrow> (ctx_ReadOnly c \<longrightarrow> ctx_ReadOnly cc) \<and> (ca_value a > 0 \<longrightarrow> writable c \<and> ca_value a \<le> v_bal x (ctx_Address c))"
  shows "within Q (enterCall i rn a cc gg g)"
proof -
  have moved: "within Q (if ca_value a > 0 then
                    bind (gets selfAddr) (\<lambda>self. bind (db_run (GetBalance (i_db i) self)) (\<lambda>b.
                      transferValue i self b (ca_addr a) (ca_value a)))
                  else ret ())"
    using Q by (intro within_if within_gets within_GetBalance within_paid within_keeps [OF w.keeps_ret [of "\<lambda>_. True"]])
      (auto simp: selfAddr_def)
  show ?thesis
    unfolding enterCall_def
    by (intro within_atNextDepth [where P = "\<lambda>_. True"] within_payGuard within_withActive within_snapshot
        within_keeps [OF keeps_refuse [of "\<lambda>_. True"]] opens_bind [OF moved, where P = "\<lambda>c. ctx_ReadOnly c \<longrightarrow> ctx_ReadOnly cc"]
        settles_enter rn settles_refused settles_done)
      (use Q in auto)
qed

lemma within_enterAuthCall:
  assumes rn: "goodRunner rn"
    and Q: "\<And>c x. Q c x \<Longrightarrow> (ctx_ReadOnly c \<longrightarrow> ctx_ReadOnly cc) \<and>
      (ca_value a > 0 \<longrightarrow> writable c \<and> b = v_bal x (ctx_Caller cc) \<and> ca_value a \<le> b)"
  shows "within Q (enterAuthCall i rn a cc b g)"
proof -
  have moved: "within Q (if ca_value a > 0 then transferValue i (ctx_Caller cc) b (ca_addr a) (ca_value a) else ret ())"
    using Q by (intro within_if within_paid within_keeps [OF w.keeps_ret [of "\<lambda>_. True"]]) auto
  show ?thesis
    unfolding enterAuthCall_def
    by (intro within_atNextDepth [where P = "\<lambda>_. True"] within_withActive within_snapshot
        within_keeps [OF keeps_refuse [of "\<lambda>_. True"]] opens_bind [OF moved, where P = "\<lambda>c. ctx_ReadOnly c \<longrightarrow> ctx_ReadOnly cc"]
        settles_enter rn settles_refused settles_done)
      (use Q in auto)
qed

lemmas entry_rules = within_atNextDepth [where P = "\<lambda>_. True"] within_payGuard within_withActive within_snapshot
  within_keeps [OF keeps_refuse [of "\<lambda>_. True"]] within_keeps [OF w.keeps_pushUint64 [of "\<lambda>_. True"]]
  settles_refused settles_done

lemma keeps_enterStaticCall:
  assumes rn: "goodRunner rn" and cc: "ctx_ReadOnly cc"
  shows "w.keeps P (enterStaticCall i rn a cc g)"
proof -
  have child: "settles P sid (bind (executeChild rn (cc\<lparr>ctx_Depth := d\<rparr>)) (\<lambda>r.
      bind (returnGas g (res_GasUsed r)) (\<lambda>_. bind (release i sid) (\<lambda>_. bind (setReturnData (res_ReturnData r)) (\<lambda>_.
      bind (copyReturn a (res_ReturnData r)) (\<lambda>_. if res_Err r \<noteq> None then pushUint64 0 else pushUint64 1))))))" for sid d
    using cc
    by (intro settles_child rn settles_later [OF keeps_gas(2)] settles_now [OF settles_release] w.keeps_rules w.keeps_prims
        w.keeps_setReturnData w.keeps_copyReturn) simp
  have body: "settles P sid (bind (executePrecompiled i a (ctx_Input cc) g True) (\<lambda>p. case p of
      Some (s, err) \<Rightarrow> bind (if \<not> s then revertTo i sid else release i sid) (\<lambda>_. lift_res err)
    | None \<Rightarrow> bind (executeChild rn (cc\<lparr>ctx_Depth := d\<rparr>)) (\<lambda>r.
      bind (returnGas g (res_GasUsed r)) (\<lambda>_. bind (release i sid) (\<lambda>_. bind (setReturnData (res_ReturnData r)) (\<lambda>_.
      bind (copyReturn a (res_ReturnData r)) (\<lambda>_. if res_Err r \<noteq> None then pushUint64 0 else pushUint64 1)))))))" for sid d
    by (rule settles_later [OF keeps_executePrecompiled]) (simp, intro settles_option settles_prod child settles_done)
  show ?thesis
    unfolding enterStaticCall_def
    by (intro keeps_within within_catch quiet_prims within_deferring keeps_active opens_settles [OF body] entry_rules) simp_all
qed

lemma keeps_enterDelegateCall:
  assumes "goodRunner rn" and "\<And>c. P c \<Longrightarrow> ctx_ReadOnly c \<Longrightarrow> ctx_ReadOnly cc"
  shows "w.keeps P (enterDelegateCall i rn a cc g)"
proof -
  have child: "settles P sid (bind (executeChild rn (cc\<lparr>ctx_Depth := d\<rparr>)) (\<lambda>r. finishCall i a g saved sid r))" for sid d saved
    using assms by (intro settles_child settles_finishCall) auto
  have "settles (\<lambda>c. P c \<and> ctx_ReadOnly c = v) sid (bind (executePrecompiled i a (ctx_Input cc) g v) (\<lambda>p. case p of
      Some (s, err) \<Rightarrow> bind (if \<not> s \<or> err \<noteq> Inr () then revertTo i sid else release i sid) (\<lambda>_. restoreAnd saved (lift_res err))
    | None \<Rightarrow> bind (executeChild rn (cc\<lparr>ctx_Depth := d\<rparr>)) (\<lambda>r. finishCall i a g saved sid r)))" for v sid d saved
    by (intro settles_later [OF keeps_executePrecompiled] settles_option settles_prod settles_mono [OF child] settles_done) simp_all
  then have body: "settles P sid (bind (gets isReadOnly) (\<lambda>static. bind (executePrecompiled i a (ctx_Input cc) g static) (\<lambda>p. case p of
      Some (s, err) \<Rightarrow> bind (if \<not> s \<or> err \<noteq> Inr () then revertTo i sid else release i sid) (\<lambda>_. restoreAnd saved (lift_res err))
    | None \<Rightarrow> bind (executeChild rn (cc\<lparr>ctx_Depth := d\<rparr>)) (\<lambda>r. finishCall i a g saved sid r))))" for sid d saved
    unfolding isReadOnly_def [abs_def] by (rule settles_bind_context)
  show ?thesis
    unfolding enterDelegateCall_def
    by (intro keeps_within entry_rules within_catch within_bind quiet_prims opens_settles [OF body]) simp_all
qed

lemma subContext_fields: "ctx_ReadOnly (subContext i e ca caller addr v input g ro) = ro" "ctx_Caller (subContext i e ca caller addr v input g ro) = caller"
  by (simp_all add: subContext_def Let_def)

lemma keeps_enterCallCode:
  assumes "goodRunner rn"
  shows "w.keeps P (enterCallCode i rn a input g)"
proof -
  have child: "settles (\<lambda>c. P c \<and> ctx_ReadOnly c = v) sid (bind (executeChild rn (subContext i e ca caller addr x input g v)) (\<lambda>r. finishCall i a g saved sid r))"
    for v sid e ca caller addr x saved
    using assms by (intro settles_child settles_finishCall) (auto simp: subContext_fields)
  have "settles (\<lambda>c. P c \<and> ctx_ReadOnly c = v) sid (bind (gets (\<lambda>e. subContext i e ca caller addr x input g v)) (\<lambda>cc.
      catch (consume g) (\<lambda>_. restoreAnd saved (bind (revertTo i sid) (\<lambda>_. pushUint64 0))) (\<lambda>_.
      bind (executePrecompiled i a input g v) (\<lambda>p. case p of
        Some (s, err) \<Rightarrow> bind (if \<not> s then revertTo i sid else release i sid) (\<lambda>_. restoreAnd saved (lift_res err))
      | None \<Rightarrow> bind (executeChild rn cc) (\<lambda>r. finishCall i a g saved sid r)))))" for v sid ca caller addr x saved
    by (intro settles_gets settles_catch settles_later [OF keeps_executePrecompiled] settles_option settles_prod child settles_done
        settles_refused w.keepsI [OF w.R_consume]) simp_all
  note body = this
  show ?thesis
    unfolding enterCallCode_def
    by (intro keeps_within entry_rules within_isReadOnly within_bind quiet_prims opens_settles [OF body]) simp_all
qed

lemma keeps_poor:
  assumes "w.keeps P m" and "within (\<lambda>c x. P c \<and> (v > 0 \<longrightarrow> v \<le> v_bal x addr)) k"
  shows "w.keeps P (bind (if v > 0 then bind (db_run (GetBalance (i_db i) addr)) (\<lambda>b. ret (b < v)) else ret False)
    (\<lambda>poor. if poor then m else k))"
proof (cases "v > 0")
  case True
  have "w.keeps P (bind (db_run (GetBalance (i_db i) addr)) (\<lambda>b. if b < v then m else k))"
    by (intro keeps_within within_GetBalance within_if within_keeps [OF assms(1)])
      (use assms(2) in \<open>auto simp: within_def\<close>)
  with True show ?thesis by (simp only: if_True bind_assoc bind_ret)
next
  case False
  with assms(2) show ?thesis by (simp add: bind_ret keeps_within)
qed

lemma keeps_selfAddr: "(\<And>v. w.keeps (\<lambda>c. P c \<and> ctx_Address c = v) (k v)) \<Longrightarrow> w.keeps P (bind (gets selfAddr) k)"
  unfolding selfAddr_def [abs_def] by (rule w.keeps_bind_context)

lemma keeps_isReadOnly: "(\<And>v. w.keeps (\<lambda>c. P c \<and> ctx_ReadOnly c = v) (k v)) \<Longrightarrow> w.keeps P (bind (gets isReadOnly) k)"
  unfolding isReadOnly_def [abs_def] by (rule w.keeps_bind_context)

lemma keeps_ctx: "(\<And>v. w.keeps (\<lambda>c. P c \<and> c = v) (k v)) \<Longrightarrow> w.keeps P (bind (gets env_ctx) k)"
  by (rule w.keeps_bind_context [where f = "\<lambda>c. c"])

lemma keeps_gets_where: "(\<And>e. w.keeps P (k (f e))) \<Longrightarrow> w.keeps P (bind (gets f) k)"
  by (simp add: w.keeps_def op_simps)

lemma keeps_opCall:
  assumes "goodRunner rn"
  shows "w.keeps P (opCall i rn)"
  unfolding opCall_def Let_def
  by (intro w.keeps_bind [OF w.keeps_callArgs(1)] keeps_isReadOnly w.keeps_if w.keeps_fail w.keeps_rejectZeroAddrCall
      w.keeps_bind [OF w.keeps_db_get] w.keeps_chargeCall w.keeps_bind [OF w.keeps_callArgs(4)] keeps_selfAddr keeps_poor
      w.keeps_prims within_gets within_enterCall assms)
    (auto simp: subContext_fields)

lemma keeps_opStaticCall: "goodRunner rn \<Longrightarrow> w.keeps P (opStaticCall i rn)"
  unfolding opStaticCall_def Let_def
  by (intro w.keeps_bind [OF w.keeps_callArgs(2)] w.keeps_if w.keeps_rejectZeroAddrCall w.keeps_chargeCall
      w.keeps_payGuard w.keeps_bind [OF w.keeps_callArgs(4)] keeps_gets_where keeps_enterStaticCall)
    (simp_all add: subContext_fields)

lemma keeps_opDelegateCall: "goodRunner rn \<Longrightarrow> w.keeps P (opDelegateCall i rn)"
  unfolding opDelegateCall_def Let_def
  by (intro w.keeps_bind [OF w.keeps_callArgs(2)] w.keeps_if w.keeps_rejectZeroAddrCall keeps_ctx w.keeps_chargeCall
      w.keeps_payGuard w.keeps_bind [OF w.keeps_callArgs(4)] keeps_gets_where keeps_enterDelegateCall)
    (auto simp: subContext_fields)

lemma keeps_opCallCode:
  assumes "goodRunner rn"
  shows "w.keeps P (opCallCode i rn)"
  unfolding opCallCode_def Let_def
  by (intro w.keeps_bind [OF w.keeps_callArgs(1)] w.keeps_if w.keeps_rejectZeroAddrCall w.keeps_fail
      w.keeps_bind [OF w.keeps_db_get] w.keeps_chargeCall w.keeps_payGuard w.keeps_bind [OF w.keepsI [OF w.R_mem_get]]
      keeps_gets_where keeps_poor within_keeps [OF keeps_enterCallCode [OF assms, where P = P]] w.keeps_prims) simp_all

lemma keeps_payAuthCall:
  assumes "goodRunner rn" and "\<And>c. P c \<Longrightarrow> ctx_ReadOnly c \<Longrightarrow> static \<and> ca_value a \<le> 0"
  shows "w.keeps P (payAuthCall i rn a caller static input g)"
proof (cases "ca_value a > 0")
  case True
  then show ?thesis
    unfolding payAuthCall_def
    by (simp only: if_True simp_thms)
      (intro keeps_within within_GetBalance within_if within_gets within_enterAuthCall assms(1)
        within_keeps [OF w.keeps_pushUint64 [of "\<lambda>_. True"]]; use assms(2) in \<open>force simp: subContext_fields\<close>)
next
  case False
  then show ?thesis
    unfolding payAuthCall_def
    by (simp only: if_False simp_thms bind_ret)
      (intro keeps_within within_gets within_enterAuthCall assms(1); use assms(2) in \<open>force simp: subContext_fields\<close>)
qed

lemma keeps_opAuthCall:
  assumes "goodRunner rn"
  shows "w.keeps P (opAuthCall i rn)"
  unfolding opAuthCall_def
  by (intro w.keeps_bind [OF w.keeps_callArgs(1)] w.keeps_if w.keeps_rejectZeroAddrCall w.keeps_fail
      keeps_isReadOnly keeps_gets_where w.keeps_bind [OF w.keeps_db_get] w.keeps_chargeCall w.keeps_payGuard
      w.keeps_bind [OF w.keeps_callArgs(4)] keeps_payAuthCall assms) auto

section \<open>Creation\<close>

lemma keeps_shared:
  "(\<And>c. P c \<Longrightarrow> writable c) \<Longrightarrow> (\<And>e. sh_stateDB (f e) = env_db e) \<Longrightarrow> w.keeps P (modify (\<lambda>e. e\<lparr>env_shared := f e\<rparr>))"
  "(\<And>c. P c \<Longrightarrow> writable c) \<Longrightarrow> (\<And>e. sh_stateDB (f e) = env_db e) \<Longrightarrow>
    w.keeps P (modify (\<lambda>e. e\<lparr>env_shared := f e, env_transientStorage := h e\<rparr>))"
  by (auto intro!: w.keepsI simp: modify_def safe_def safeShared_def)

lemma keeps_claimAddress: "(\<And>c. P c \<Longrightarrow> writable c) \<Longrightarrow> w.keeps P (claimAddress i addr)"
  unfolding claimAddress_def by (intro w.keeps_rules w.keeps_prims keeps_shared) simp_all

lemma settles_createUndone: "(\<And>c. P c \<Longrightarrow> writable c) \<Longrightarrow> settles P sid (createUndone i sid ts)"
  unfolding createUndone_def
  by (intro settles_now [OF settles_revert] w.keeps_bind keeps_shared w.keeps_prims) simp_all

lemma settles_createRefused: "settles P sid (createRefused i sid)"
  unfolding createRefused_def by (intro settles_now [OF settles_revert] w.keeps_prims)

lemma keeps_code: "(\<And>c. P c \<Longrightarrow> writable c) \<Longrightarrow> w.keeps P (db_set (SetCode (i_db i) addr code))"
  by (rule w.keepsI) (simp add: safe_writes)

lemma settles_deployCode:
  assumes W: "\<And>c. P c \<Longrightarrow> writable c"
  shows "settles P sid (deployCode i sid ts addr code logs)"
  unfolding deployCode_def
  by (intro settles_if settles_createUndone settles_catch settles_sum settles_later [OF keeps_code] settles_later [OF keeps_shared(1)]
      settles_later [OF keeps_appendLogs] settles_now [OF settles_release] w.keeps_rules w.keeps_prims) (use W in auto)

lemma settles_createRun:
  assumes rn: "goodRunner rn" and W: "\<And>c. P c \<Longrightarrow> writable c"
  shows "settles P sid (createRun i rn sid addr v code)"
  unfolding createRun_def Let_def
  by (intro settles_gets settles_deeper settles_if settles_createRefused settles_prod settles_catch w.keepsI [OF w.R_consume]
      settles_later [OF keeps_runInit [OF rn W]] settles_later [OF keeps_gas(2)] settles_createUndone settles_deployCode W)

lemma settles_createAt:
  assumes rn: "goodRunner rn" and W: "\<And>c. P c \<Longrightarrow> writable c"
  shows "settles P sid (createAt i rn sid addr v code)"
  unfolding createAt_def
  by (intro settles_gets settles_later [OF keeps_claimAddress [OF W]] settles_if settles_createRefused settles_moves
      settles_createRun rn W settles_later [OF w.keeps_write(2)] settles_later [OF w.keepsI [OF w.R_GetNonce]]) simp_all

lemma keeps_opCreate:
  assumes "goodRunner rn"
  shows "w.keeps P (opCreateGeneric i rn is2)"
  unfolding opCreateGeneric_def
  by (intro keeps_isReadOnly w.keeps_if w.keeps_fail keeps_snapshot settles_gets settles_createAt assms
      settles_later settles_if w.keeps_rules w.keeps_prims) auto

section \<open>A frame\<close>

lemma keeps_pc: "w.keeps P (opPush op)" "w.keeps P opJump" "w.keeps P opJumpI"
proof -
  have pc: "w.keeps P (modify (\<lambda>e. e\<lparr>env_pc := p\<rparr>))" for p
    by (rule w.keepsI) (simp add: modify_def safe_local)
  show "w.keeps P (opPush op)" "w.keeps P opJump" "w.keeps P opJumpI"
    unfolding opPush_def opJump_def opJumpI_def jumpTo_def
    by (intro w.keeps_rules w.keeps_prims pc)+
qed

lemma executeOp_safe:
  assumes "goodRunner rn"
  shows "safe (i_db i) snaps e (snd (executeOp i rn op e))"
proof -
  have "w.keeps (\<lambda>_. True) (executeOp i rn op)"
    by (intro w.keeps_executeOp keeps_opCall keeps_opStaticCall keeps_opDelegateCall keeps_opCallCode keeps_opAuthCall
        keeps_opCreate keeps_pc assms)
  from w.keepsD [OF this] show ?thesis by simp
qed

lemma loop_safe:
  assumes "goodRunner rn"
  shows "safe (i_db i) snaps e (loop i rn e)"
proof (rule loop_keeps)
  show "safe (i_db i) snaps e (stepOp i rn e)" for e
  proof (rule stepOp_keeps)
    show "safe (i_db i) snaps e (fault x e)" for x e by (rule safe_local) (simp_all add: fault_def)
    show "safe (i_db i) snaps e (e\<lparr>env_pc := p\<rparr>)" for p e by (rule safe_local) simp_all
  qed (blast intro: safe_trans w.R_consume executeOp_safe assms)+
qed (blast intro: safe_trans safe_refl)+

lemma goodRunner_run:
  assumes "goodRunner rn"
  shows "goodRunner (run i rn)"
  unfolding goodRunner_def
proof (intro allI conjI impI)
  fix e :: "'s Environment"
  let ?l = "loop i rn e"
  have "env_transientStorage (zeroKeys ?l) = env_transientStorage ?l" using zeroKeys_memory [of ?l] by auto
  then have "safe (i_db i) snaps ?l (zeroKeys ?l)" by (intro safe_local) simp_all
  with loop_safe [OF assms] show "safe (i_db i) snaps e (snd (run i rn e))"
    by (auto simp: run_def Let_def intro: safe_trans)
  assume "ctx_ReadOnly (env_ctx e) \<and> env_logs e = []"
  with loop_safe [OF assms, of e] show "res_Logs (fst (run i rn e)) = []"
    by (simp add: run_def Let_def safe_def)
qed

lemma goodRunner_runAll: "goodRunner (runAll i)"
proof -
  have "goodRunner (runFuel stuck n i)" for n
  proof (induction n)
    case 0
    show ?case by (simp add: goodRunner_def stuck_def safe_refl)
  next
    case (Suc n)
    then show ?case by (simp add: goodRunner_run)
  qed
  then show ?thesis by (simp add: runAll_def)
qed

text \<open>\<open>Execute\<close> with all the frames below it; a root frame starts with fresh transaction maps.\<close>

lemma Execute_all:
  assumes "Execute (runAll i) c sh = (result, sh')"
  shows "prefix (snaps (sh_stateDB sh)) (snaps (sh_stateDB sh'))"
    "solvent (i_db i) (sh_stateDB sh) \<Longrightarrow> solvent (i_db i) (sh_stateDB sh') \<and>
      totalSupply (i_db i) (sh_stateDB sh') \<le> totalSupply (i_db i) (sh_stateDB sh)"
    "ctx_ReadOnly c \<Longrightarrow> view_of (i_db i) (sh_stateDB sh') = view_of (i_db i) (sh_stateDB sh) \<and> res_Logs result = []"
    "ctx_ReadOnly c \<Longrightarrow> ctx_ParentEnv c \<noteq> None \<Longrightarrow> sh_transient sh' = sh_transient sh \<and>
      sh_txCreatedContracts sh' = sh_txCreatedContracts sh"
proof -
  obtain r1 e1 where e1: "runAll i (newFrame c sh) = (r1, e1)" by fastforce
  have same: "env_db (newFrame c sh) = sh_stateDB sh"
    by (simp add: newFrame_def PushActiveAddress_def Let_def split: option.split)
  have s: "safe (i_db i) snaps (newFrame c sh) e1" "ctx_ReadOnly c \<Longrightarrow> res_Logs r1 = []"
    using goodRunner_runAll [unfolded goodRunner_def, rule_format, of "newFrame c sh"] e1 by simp_all
  have out: "sh_stateDB sh' = env_db e1" "result = r1"
    using assms e1 by (auto simp: Execute_def Let_def split: option.splits if_splits)
  show "prefix (snaps (sh_stateDB sh)) (snaps (sh_stateDB sh'))"
    "solvent (i_db i) (sh_stateDB sh) \<Longrightarrow> solvent (i_db i) (sh_stateDB sh') \<and>
      totalSupply (i_db i) (sh_stateDB sh') \<le> totalSupply (i_db i) (sh_stateDB sh)"
    "ctx_ReadOnly c \<Longrightarrow> view_of (i_db i) (sh_stateDB sh') = view_of (i_db i) (sh_stateDB sh) \<and> res_Logs result = []"
    using s same out by (auto simp: safe_def safeShared_def)
  show "sh_transient sh' = sh_transient sh \<and> sh_txCreatedContracts sh' = sh_txCreatedContracts sh"
    if "ctx_ReadOnly c" and "ctx_ParentEnv c \<noteq> None"
    using Execute_safe(1) [OF goodRunner_runAll _ assms] that by (auto simp: safeShared_def)
qed

end

section \<open>The rollup state\<close>

text \<open>An interpreter over the state of the rollup whose precompiled contracts do not touch it.\<close>

definition overRollup :: "(byte list \<Rightarrow> Hash) \<Rightarrow> (Address \<Rightarrow> precall \<Rightarrow> byte list option \<times> u64) \<Rightarrow>
    rollupStateDB Interpreter \<Rightarrow> rollupStateDB Interpreter" where
  "overRollup sha256 f i = i\<lparr>i_db := rollupDB sha256, i_IsStateful := (\<lambda>_. False), i_RunPrecompiled := (\<lambda>a p s. (f a p, s))\<rparr>"

lemma overRollup_db: "i_db (overRollup sha256 f i) = rollupDB sha256"
  by (simp add: overRollup_def)

interpretation rollupVM: vm_state "overRollup sha256 f i" "\<lambda>s. map states_view (rs_snapshots s)" for sha256 f i
  unfolding vm_state_def vm_state_axioms_def overRollup_db
  using rollup.state_db_axioms by (simp add: overRollup_def)

lemma bare_vm: "vm_state bareInterpreter (\<lambda>s. map states_view (rs_snapshots s))"
  using rollupVM.vm_state_axioms [of "\<lambda>_. 0" "\<lambda>_ _. (None, 0)" bareInterpreter]
  by (simp add: overRollup_def bareInterpreter_def)

text \<open>Witness data: account 2 owns 5 and runs code that calls account 7 with the value 3; one
  snapshot has been taken before.\<close>

definition payingCode :: "byte list" where
  "payingCode = [0x10, 0xFF, 0x10, 7, 0x10, 3, 0x10, 0, 0x10, 0, 0x10, 0, 0x10, 0, 0x90]"

definition payingShared :: "rollupStateDB Shared" where
  "payingShared = bareShared\<lparr>sh_stateDB := \<lparr>rs_states = [2 \<mapsto> emptyAccount\<lparr>ra_Balance := 5\<rparr>], rs_snapshots = [Map.empty]\<rparr>\<rparr>"

lemma payingShared_solvent: "solvent (i_db bareInterpreter) (sh_stateDB payingShared)"
  by (simp add: solvent_def payingShared_def bareInterpreter_def rollup_parts states_view_def account_def emptyAccount_def)

section \<open>Properties\<close>

text \<open>C1: No execution mints: from a state without negative balances, a run of any code with all
  the frames it starts (calls, delegate calls, creations, self-destructions, reverts) ends in a
  state without negative balances whose sum of balances is at most the one before.\<close>

theorem execution_never_mints:
  assumes "vm_state i snaps" and "solvent (i_db i) (sh_stateDB sh)" and "Execute (runAll i) c sh = (result, sh')"
  shows "solvent (i_db i) (sh_stateDB sh') \<and> totalSupply (i_db i) (sh_stateDB sh') \<le> totalSupply (i_db i) (sh_stateDB sh)"
  by (rule vm_state.Execute_all(2) [OF assms(1,3,2)])

theorem execution_never_mints_witness:
  "totalSupply (i_db bareInterpreter) (sh_stateDB (snd (Execute (runAll bareInterpreter) (bareContext payingCode 100000 False) payingShared)))
    \<le> totalSupply (i_db bareInterpreter) (sh_stateDB payingShared)"
  using execution_never_mints [OF bare_vm payingShared_solvent prod.collapse [symmetric]] by blast



text \<open>C3: A frame never gives up a snapshot of its callers: the snapshots on the stack when an
  execution starts are still there, with the same contents to restore, when it ends.\<close>

theorem snapshots_of_callers_survive:
  assumes "vm_state i snaps" and "Execute (runAll i) c sh = (result, sh')"
  shows "prefix (snaps (sh_stateDB sh)) (snaps (sh_stateDB sh'))"
  by (rule vm_state.Execute_all(1) [OF assms])

theorem snapshots_of_callers_survive_witness:
  "prefix [states_view Map.empty] (map states_view (rs_snapshots
     (sh_stateDB (snd (Execute (runAll bareInterpreter) (bareContext payingCode 100000 False) payingShared)))))"
  using snapshots_of_callers_survive [OF bare_vm prod.collapse [symmetric], where c = "bareContext payingCode 100000 False" and sh = payingShared]
  by (simp add: payingShared_def)

end
