(* ===== verification/QVM_Atomic.thy ===== *)
theory QVM_Atomic
  imports QVM_Safety
begin

text \<open>
  A call that fails leaves no trace in the state: whenever one of the call opcodes reports
  failure by pushing zero, the balances, nonces, code and storage are those before the opcode,
  whatever the failed frame and the frames below it did.
\<close>

section \<open>Handlers that report failure\<close>

text \<open>A step that leaves the contents of the state alone.\<close>

definition calm :: "'s StateDB \<Rightarrow> 's Environment \<Rightarrow> 's Environment \<Rightarrow> bool" where
  "calm db e e' \<longleftrightarrow> env_ctx e' = env_ctx e \<and> view_of db (env_db e') = view_of db (env_db e)"

sublocale vm_state \<subseteq> c: step_rel "calm (i_db i)" env_ctx
  by unfold_locales (auto simp: calm_def)

sublocale vm_state \<subseteq> c: reader_rel "calm (i_db i)" i
  by unfold_locales (auto simp: calm_def op_simps view_simps case_prod_beta)

text \<open>A step that leaves the snapshots on their stack.\<close>

definition lengthens :: "('s \<Rightarrow> view list) \<Rightarrow> 's Environment \<Rightarrow> 's Environment \<Rightarrow> bool" where
  "lengthens snaps e e' \<longleftrightarrow> env_ctx e' = env_ctx e \<and> prefix (snaps (env_db e)) (snaps (env_db e'))"

sublocale vm_state \<subseteq> g: step_rel "lengthens snaps" env_ctx
  by unfold_locales (auto simp: lengthens_def intro: prefix_order.trans)

sublocale vm_state \<subseteq> g: reader_rel "lengthens snaps" i
  by unfold_locales (auto simp: lengthens_def op_simps snaps_simps case_prod_beta)

context vm_state
begin

abbreviation still :: "('s Environment, 'a) op \<Rightarrow> bool" where
  "still m \<equiv> c.keeps (\<lambda>_. True) m"

lemma stillD: "still m \<Longrightarrow> seen (snd (m e)) = seen e"
  using c.keepsD [of "\<lambda>_. True" m e] by (simp add: calm_def)

lemma stillI: "(\<And>e. env_ctx (snd (m e)) = env_ctx e \<and> seen (snd (m e)) = seen e) \<Longrightarrow> still m"
  by (rule c.keepsI) (simp add: calm_def)

text \<open>\<open>rolled m\<close>: if \<open>m\<close> succeeds and leaves zero on top of the stack, the state contents are unchanged.\<close>

definition rolled :: "('s Environment, unit) op \<Rightarrow> bool" where
  "rolled m \<longleftrightarrow> (\<forall>e e'. m e = (Inr (), e') \<and> last (env_stack e') = 0 \<longrightarrow> seen e' = seen e)"

lemma rolled_still: "still m \<Longrightarrow> rolled m"
  unfolding rolled_def by (metis snd_conv stillD)

lemma rolled_bind:
  assumes "still m" and "\<And>a. rolled (k a)"
  shows "rolled (bind m k)"
  unfolding rolled_def
proof (intro allI impI, elim conjE)
  fix e e'
  assume run: "bind m k e = (Inr (), e')" and zero: "last (env_stack e') = 0"
  then obtain a where "k a (snd (m e)) = (Inr (), e')" by (auto simp: run_bind split: prod.splits sum.splits)
  with zero have "seen e' = seen (snd (m e))" using assms(2) [of a] by (auto simp: rolled_def)
  with stillD [OF assms(1)] show "seen e' = seen e" by simp
qed

lemma rolled_catch:
  assumes "still m" and "\<And>x. rolled (h x)" and "\<And>a. rolled (k a)"
  shows "rolled (catch m h k)"
  unfolding rolled_def
proof (intro allI impI, elim conjE)
  fix e e'
  assume run: "catch m h k e = (Inr (), e')" and zero: "last (env_stack e') = 0"
  then consider a where "k a (snd (m e)) = (Inr (), e')" | x where "h x (snd (m e)) = (Inr (), e')"
    by (auto simp: run_catch split: prod.splits sum.splits)
  then have "seen e' = seen (snd (m e))" using assms(2,3) zero unfolding rolled_def by cases blast+
  with stillD [OF assms(1)] show "seen e' = seen e" by simp
qed

lemma rolled_deferring:
  assumes "rolled m" and "\<And>e. seen (d e) = seen e" and "\<And>e. env_stack (d e) = env_stack e"
  shows "rolled (deferring d m)"
  using assms unfolding rolled_def by (auto simp: run_deferring split: prod.splits)

lemma rolled_if: "(b \<Longrightarrow> rolled m) \<Longrightarrow> (\<not> b \<Longrightarrow> rolled n) \<Longrightarrow> rolled (if b then m else n)"
  by simp

lemma rolled_fail: "rolled (fail x)"
  by (simp add: rolled_def op_simps)

text \<open>Inside a snapshot that is still on the stack: the contents are those at the snapshot again, or
  the result is not zero.\<close>

abbreviation taken :: "'s Environment \<Rightarrow> 's Environment \<Rightarrow> bool" where
  "taken e0 e \<equiv> prefix (snaps (env_db e0) @ [seen e0]) (snaps (env_db e))"

definition unwinds :: "int \<Rightarrow> ('s Environment, unit) op \<Rightarrow> bool" where
  "unwinds sid m \<longleftrightarrow> (\<forall>e0 e e'. sid = int (length (snaps (env_db e0))) \<and> taken e0 e \<and> m e = (Inr (), e') \<and>
     last (env_stack e') = 0 \<longrightarrow> seen e' = seen e0)"

abbreviation grows :: "('s Environment, 'a) op \<Rightarrow> bool" where
  "grows m \<equiv> g.keeps (\<lambda>_. True) m"

lemma grows_taken: "grows m \<Longrightarrow> taken e0 e \<Longrightarrow> taken e0 (snd (m e))"
  using g.keepsD [of "\<lambda>_. True" m e] by (auto simp: lengthens_def intro: prefix_order.trans)

lemma rolled_snapshot:
  assumes "rolled m" and "\<And>sid. unwinds sid (k sid)"
  shows "rolled (bind (db_run (Snapshot (i_db i))) (\<lambda>sid. if sid < 0 then m else k sid))"
  unfolding rolled_def
proof (intro allI impI, elim conjE)
  fix e e'
  assume run: "bind (db_run (Snapshot (i_db i))) (\<lambda>sid. if sid < 0 then m else k sid) e = (Inr (), e')"
    and zero: "last (env_stack e') = 0"
  obtain sid e1 where e1: "db_run (Snapshot (i_db i)) e = (Inr sid, e1)" "sid = fst (Snapshot (i_db i) (env_db e))"
      "seen e1 = seen e" "env_db e1 = snd (Snapshot (i_db i) (env_db e))"
    by (simp add: op_simps case_prod_beta view_simps)
  show "seen e' = seen e"
  proof (cases "sid < 0")
    case True
    with run e1 zero assms(1) show ?thesis by (auto simp: run_bind rolled_def)
  next
    case False
    then have "sid = int (length (snaps (env_db e)))" "taken e e1"
      using Snapshot_push [of "env_db e"] e1 by simp_all
    moreover have "k sid e1 = (Inr (), e')" using run e1 False by (simp add: run_bind)
    ultimately show ?thesis using assms(2) [of sid] zero unfolding unwinds_def by blast
  qed
qed

lemma unwinds_later:
  assumes "grows m" and "\<And>a. unwinds sid (k a)"
  shows "unwinds sid (bind m k)"
  unfolding unwinds_def
proof (intro allI impI, elim conjE)
  fix e0 e e' :: "'s Environment"
  assume sid: "sid = int (length (snaps (env_db e0)))" and e: "taken e0 e" and run: "bind m k e = (Inr (), e')"
    and zero: "last (env_stack e') = 0"
  from run obtain a where a: "k a (snd (m e)) = (Inr (), e')" by (auto simp: run_bind split: prod.splits sum.splits)
  from grows_taken [OF assms(1) e] sid a zero assms(2) [of a] show "seen e' = seen e0" unfolding unwinds_def by blast
qed

lemma unwinds_catch:
  assumes "grows m" and "\<And>x. unwinds sid (h x)" and "\<And>a. unwinds sid (k a)"
  shows "unwinds sid (catch m h k)"
proof -
  have "catch m h k = bind (attempt m) (\<lambda>r. case r of Inl x \<Rightarrow> h x | Inr a \<Rightarrow> k a)"
    by (auto simp: fun_eq_iff op_simps attempt_def split: prod.split sum.split)
  moreover have "grows (attempt m)" using assms(1) by (simp add: g.keeps_def attempt_def case_prod_beta)
  then have "unwinds sid (bind (attempt m) (\<lambda>r. case r of Inl x \<Rightarrow> h x | Inr a \<Rightarrow> k a))"
    by (rule unwinds_later) (auto simp: assms(2,3) split: sum.split)
  ultimately show ?thesis by simp
qed

text \<open>After a revert the rest must leave the contents alone.\<close>

lemma unwinds_revert:
  assumes "\<And>a. still (k a)"
  shows "unwinds sid (bind (revertTo i sid) k)"
  unfolding unwinds_def
proof (intro allI impI, elim conjE)
  fix e0 e e' :: "'s Environment"
  assume sid: "sid = int (length (snaps (env_db e0)))" and e: "taken e0 e" and run: "bind (revertTo i sid) k e = (Inr (), e')"
  from e obtain tl where tl: "snaps (env_db e) = snaps (env_db e0) @ seen e0 # tl" by (auto simp: prefix_def)
  have "seen (snd (revertTo i sid e)) = seen e0"
    using Revert_view [of sid "env_db e"] sid tl by (simp add: revertTo_def op_simps nth_append)
  moreover have "e' = snd (k () (snd (revertTo i sid e)))"
    using run by (auto simp: revertTo_def op_simps split: prod.splits)
  ultimately show "seen e' = seen e0" using stillD [OF assms] by simp
qed

lemma unwinds_if: "(b \<Longrightarrow> unwinds sid m) \<Longrightarrow> (\<not> b \<Longrightarrow> unwinds sid n) \<Longrightarrow> unwinds sid (if b then m else n)"
  by simp

text \<open>The success path ends by pushing one.\<close>

definition endsOne :: "('s Environment, unit) op \<Rightarrow> bool" where
  "endsOne m \<longleftrightarrow> (\<forall>e e'. m e = (Inr (), e') \<longrightarrow> last (env_stack e') = 1)"

lemma unwinds_one: "endsOne m \<Longrightarrow> unwinds sid m"
  by (auto simp: unwinds_def endsOne_def)

lemma endsOne_push: "endsOne (pushUint64 1)"
  by (auto simp: endsOne_def pushUint64_push Stack_Push_def op_simps split: if_splits prod.splits)

lemma endsOne_fail: "endsOne (fail x)"
  by (simp add: endsOne_def op_simps)

lemma endsOne_bind: "(\<And>a. endsOne (k a)) \<Longrightarrow> endsOne (bind m k)"
  by (auto simp: endsOne_def run_bind split: prod.splits sum.splits)

lemma endsOne_catch: "(\<And>x. endsOne (h x)) \<Longrightarrow> (\<And>a. endsOne (k a)) \<Longrightarrow> endsOne (catch m h k)"
  by (auto simp: endsOne_def run_catch split: prod.splits sum.splits)

lemma endsOne_restoreAnd: "endsOne m \<Longrightarrow> endsOne (restoreAnd n m)"
  unfolding restoreAnd_def by (rule endsOne_bind)

end

section \<open>The call handlers\<close>

context vm_state
begin

lemma still_locals:
  "still (modify (restoreActive n))" "still (PushActiveAddress addr)" "still (modify (\<lambda>e. e\<lparr>env_callDepth := d e\<rparr>))"
  "still (modify (\<lambda>e. e\<lparr>env_gas := g e\<rparr>))" "still (modify (\<lambda>e. e\<lparr>env_logs := l e\<rparr>))"
  by (rule stillI, simp add: modify_def restoreActive_def PushActiveAddress_def)+

lemma still_restoreAnd: "still m \<Longrightarrow> still (restoreAnd n m)"
  unfolding restoreAnd_def by (intro c.keeps_bind still_locals)

lemma rolled_push: "rolled (pushUint64 v)" "rolled (refuse n)"
  unfolding refuse_def by (intro rolled_still still_restoreAnd c.keeps_pushUint64)+

lemma rolled_payGuard: "rolled m \<Longrightarrow> rolled (payGuard g m)"
  unfolding payGuard_def by (intro rolled_catch rolled_push c.keeps_rules c.keeps_prims)

lemma rolled_withActive: "(\<And>n. rolled (k n)) \<Longrightarrow> rolled (withActive addr k)"
  unfolding withActive_def by (intro rolled_bind rolled_if rolled_push c.keeps_gets still_locals)

lemma rolled_atNextDepth: "(\<And>d. rolled (k d)) \<Longrightarrow> rolled (atNextDepth k)"
  unfolding atNextDepth_def deeper_def
  by (intro rolled_bind rolled_deferring rolled_if rolled_push c.keeps_gets still_locals) simp_all

lemma rolled_let: "rolled (case x of (a, b) \<Rightarrow> k a b)" if "\<And>a b. rolled (k a b)"
  using that by (cases x) simp

lemma rolled_chargeCall:
  assumes "\<And>g c. rolled (k g c)"
  shows "rolled (chargeCall i a tracked hasValue isNew compares k)"
  unfolding chargeCall_def reentryGuard_def Let_def
  by (intro rolled_bind rolled_if rolled_deferring rolled_push rolled_fail rolled_let assms c.keeps_db_get c.keeps_callArgs
      c.keeps_gets c.keeps_prims c.keeps_if c.keeps_ret c.keeps_reentryCounts)
    (simp_all add: DecrementReentryCount_def Let_def)

text \<open>A precompiled contract that succeeds has pushed one.\<close>

lemma precompiled_pushed:
  assumes "executePrecompiled i a input g static e = (Inr (Some (True, Inr ())), e')"
  shows "last (env_stack e') = 1"
proof -
  have out: "last (env_stack e2) = 1" if "precompiledOutcome a x e1 = (Inr (True, Inr ()), e2)" for x e1 e2
    using that
    by (auto simp: precompiledOutcome_def attempt_def op_simps pushUint64_push Stack_Push_def
        split: option.splits prod.splits sum.splits if_splits)
  show ?thesis
    using assms unfolding executePrecompiled_def
    by (auto simp: run_bind run_ret run_gets run_modify dest: out split: if_splits prod.splits sum.splits)
qed

lemma unwinds_precompiled:
  assumes fin: "\<And>s err e e'. fin s err e = (Inr (), e') \<Longrightarrow> err = Inr () \<and> (s \<longrightarrow> env_stack e' = env_stack e)"
    and bad: "\<And>err. unwinds sid (fin False err)" and child: "unwinds sid k" and grows: "grows (executePrecompiled i a input g static)"
  shows "unwinds sid (bind (executePrecompiled i a input g static) (\<lambda>p. case p of Some (s, err) \<Rightarrow> fin s err | None \<Rightarrow> k))"
  unfolding unwinds_def
proof (intro allI impI, elim conjE)
  fix e0 e e' :: "'s Environment"
  assume sid: "sid = int (length (snaps (env_db e0)))" and e: "taken e0 e" and zero: "last (env_stack e') = 0"
    and run: "bind (executePrecompiled i a input g static) (\<lambda>p. case p of Some (s, err) \<Rightarrow> fin s err | None \<Rightarrow> k) e = (Inr (), e')"
  then obtain p e1 where p: "executePrecompiled i a input g static e = (Inr p, e1)"
      and rest: "(case p of Some (s, err) \<Rightarrow> fin s err | None \<Rightarrow> k) e1 = (Inr (), e')"
    by (auto simp: run_bind split: prod.splits sum.splits)
  have e1: "taken e0 e1" using grows_taken [OF grows e] p by simp
  show "seen e' = seen e0"
  proof (cases p)
    case None
    with rest child sid e1 zero show ?thesis unfolding unwinds_def by auto
  next
    case (Some x)
    obtain s err where x: "x = (s, err)" by fastforce
    show ?thesis
    proof (cases s)
      case True
      with rest Some x have "err = Inr ()" "env_stack e' = env_stack e1" using fin [of s err e1 e'] by auto
      with precompiled_pushed [of a input g static e e1] p Some x True zero show ?thesis by simp
    next
      case False
      with rest Some x bad [of err] sid e1 zero show ?thesis unfolding unwinds_def by auto
    qed
  qed
qed

lemma growsI: "(\<And>e. env_ctx (snd (m e)) = env_ctx e \<and> prefix (snaps (env_db e)) (snaps (env_db (snd (m e))))) \<Longrightarrow> grows m"
  by (rule g.keepsI) (simp add: lengthens_def)

lemma grows_locals:
  "grows (modify (restoreActive n))" "grows (modify (\<lambda>e. e\<lparr>env_gas := f e\<rparr>))" "grows (returnGas c u)"
  unfolding returnGas_def
  by (intro g.keeps_rules growsI; simp add: modify_def restoreActive_def)+

lemma grows_transferValue: "grows (transferValue i from b to v)"
  unfolding transferValue_def
  by (intro g.keeps_rules g.keeps_prims growsI; simp add: op_simps snaps_simps)

lemma grows_attempt: "grows m \<Longrightarrow> grows (attempt m)"
  by (simp add: g.keeps_def attempt_def case_prod_beta)

lemma grows_precompiled: "grows (executePrecompiled i a input g static)"
proof -
  have "grows (db_run (i_RunPrecompiled i addr p))" for addr p
    by (rule growsI) (simp add: op_simps case_prod_beta precompiled_snaps)
  then show ?thesis unfolding executePrecompiled_def precompiledOutcome_def
    by (intro g.keeps_rules grows_locals grows_attempt g.keeps_prims g.keeps_setReturnData g.keeps_copyReturn)
qed

lemma grows_child:
  assumes "goodRunner rn"
  shows "grows (executeChild rn cc)"
proof (rule growsI)
  fix e :: "'s Environment"
  obtain r sh where r: "Execute rn (cc\<lparr>ctx_ParentEnv := Some (parentView e)\<rparr>) (env_shared e) = (r, sh)" by fastforce
  from Execute_safe(1) [OF assms _ r] show "env_ctx (snd (executeChild rn cc e)) = env_ctx e \<and>
      prefix (snaps (env_db e)) (snaps (env_db (snd (executeChild rn cc e))))"
    by (simp add: executeChild_def r safeShared_def)
qed

lemma unwinds_restoreAnd: "unwinds sid m \<Longrightarrow> unwinds sid (restoreAnd n m)"
  unfolding restoreAnd_def by (intro unwinds_later grows_locals)

lemma unwinds_reverted: "(\<And>a. still (k a)) \<Longrightarrow> unwinds sid (bind (restoreAnd n (revertTo i sid)) k)"
  unfolding restoreAnd_def bind_assoc by (intro unwinds_later grows_locals unwinds_revert)

lemma unwinds_finishCall: "unwinds sid (finishCall i a g saved sid r)"
proof -
  let ?rest = "\<lambda>x. bind (setReturnData (res_ReturnData r)) (\<lambda>_.
     catch (copyReturn a (res_ReturnData r)) (\<lambda>x. restoreAnd saved (fail x)) (\<lambda>_.
       bind (if \<not> res_Reverted r then modify (\<lambda>e. e\<lparr>env_logs := env_logs e @ res_Logs r\<rparr>) else ret ()) (\<lambda>_.
       restoreAnd saved (if res_Err r \<noteq> None then pushUint64 0 else pushUint64 1))))"
  have rest: "still (?rest ())"
    by (intro c.keeps_rules still_restoreAnd still_locals c.keeps_prims c.keeps_setReturnData c.keeps_copyReturn)
  have fault: "unwinds sid (restoreAnd saved (bind (revertTo i sid) (\<lambda>_. bind (setReturnData []) (\<lambda>_. pushUint64 0))))"
    by (intro unwinds_restoreAnd unwinds_revert c.keeps_bind c.keeps_setReturnData c.keeps_prims)
  have "unwinds sid (bind (if res_Reverted r then restoreAnd saved (revertTo i sid) else ret ()) (\<lambda>_.
      bind (if \<not> res_Reverted r then release i sid else ret ()) ?rest))" if fine: "\<not> (res_Err r \<noteq> None \<and> \<not> res_Reverted r)"
  proof (cases "res_Reverted r")
    case True
    have "unwinds sid (bind (restoreAnd saved (revertTo i sid)) ?rest)" by (intro unwinds_reverted rest)
    with True show ?thesis by (simp only: if_True if_False bind_ret simp_thms not_True_eq_False)
  next
    case False
    with fine have ok: "res_Err r = None" by simp
    have "endsOne (bind (release i sid) ?rest)"
      unfolding ok simp_thms if_False by (intro endsOne_bind endsOne_catch endsOne_restoreAnd endsOne_fail endsOne_push)
    then show ?thesis using False by (simp only: if_True if_False bind_ret simp_thms not_False_eq_True unwinds_one)
  qed
  then show ?thesis unfolding finishCall_def by (intro unwinds_later [OF grows_locals(3)] unwinds_if fault)
qed

lemma lift_res_Inr: "lift_res err e = (Inr (), e') \<longleftrightarrow> err = Inr () \<and> e' = e"
  by (auto simp: op_simps split: sum.splits)

lemmas fin_simps = run_bind run_ret restoreAnd_def run_modify restoreActive_def revertTo_def release_def run_db_set lift_res_Inr

lemma unwinds_enter:
  assumes rn: "goodRunner rn"
  shows "unwinds sid (catch (consume g) (\<lambda>_. restoreAnd saved (bind (revertTo i sid) (\<lambda>_. pushUint64 0))) (\<lambda>_.
      bind (gets isReadOnly) (\<lambda>static. bind (executePrecompiled i a input g static) (\<lambda>p. case p of
        Some (s, err) \<Rightarrow> bind (if \<not> s then revertTo i sid else ret ()) (\<lambda>_. restoreAnd saved (lift_res err))
      | None \<Rightarrow> bind (executeChild rn cc) (\<lambda>r. finishCall i a g saved sid r)))))"
proof (intro unwinds_catch unwinds_later [OF g.keeps_gets] unwinds_precompiled unwinds_restoreAnd unwinds_revert
    c.keeps_prims g.keepsI [OF g.R_consume] grows_precompiled)
  show "unwinds sid (bind (executeChild rn cc) (\<lambda>r. finishCall i a g saved sid r))"
    by (intro unwinds_later [OF grows_child [OF rn]] unwinds_finishCall)
  show "unwinds sid (bind (if \<not> False then revertTo i sid else ret ()) (\<lambda>_. restoreAnd saved (lift_res err)))" for err
    by (simp only: not_False_eq_True if_True) (intro unwinds_revert still_restoreAnd c.keeps_lift)
qed (auto simp: fin_simps split: if_splits)

lemma rolled_enterCall: "goodRunner rn \<Longrightarrow> rolled (enterCall i rn a cc gg g)"
  unfolding enterCall_def
  by (intro rolled_atNextDepth rolled_payGuard rolled_withActive rolled_snapshot rolled_push unwinds_later unwinds_enter
      g.keeps_rules g.keeps_prims grows_transferValue)

lemma rolled_enterAuthCall: "goodRunner rn \<Longrightarrow> rolled (enterAuthCall i rn a cc b g)"
  unfolding enterAuthCall_def
  by (intro rolled_atNextDepth rolled_withActive rolled_snapshot rolled_push unwinds_later unwinds_enter
      g.keeps_rules g.keeps_prims grows_transferValue)

lemma rolled_enterDelegateCall:
  assumes rn: "goodRunner rn"
  shows "rolled (enterDelegateCall i rn a cc g)"
proof -
  have "unwinds sid (bind (executePrecompiled i a (ctx_Input cc) g static) (\<lambda>p. case p of
      Some (s, err) \<Rightarrow> bind (if \<not> s \<or> err \<noteq> Inr () then revertTo i sid else release i sid) (\<lambda>_. restoreAnd saved (lift_res err))
    | None \<Rightarrow> bind (executeChild rn (cc\<lparr>ctx_Depth := d\<rparr>)) (\<lambda>r. finishCall i a g saved sid r)))" for sid saved d static
  proof (intro unwinds_precompiled grows_precompiled)
    show "unwinds sid (bind (executeChild rn (cc\<lparr>ctx_Depth := d\<rparr>)) (\<lambda>r. finishCall i a g saved sid r))"
      by (intro unwinds_later [OF grows_child [OF rn]] unwinds_finishCall)
    show "unwinds sid (bind (if \<not> False \<or> err \<noteq> Inr () then revertTo i sid else release i sid) (\<lambda>_. restoreAnd saved (lift_res err)))" for err
      by (simp only: not_False_eq_True simp_thms if_True) (intro unwinds_revert still_restoreAnd c.keeps_lift)
  qed (auto simp: fin_simps split: if_splits)
  then show ?thesis
    unfolding enterDelegateCall_def
    by (intro rolled_atNextDepth rolled_withActive rolled_catch rolled_push rolled_snapshot rolled_bind c.keeps_gets c.keeps_prims
        unwinds_later [OF g.keeps_gets])
qed

lemma rolled_enterCallCode:
  assumes rn: "goodRunner rn"
  shows "rolled (enterCallCode i rn a input g)"
proof -
  have "unwinds sid (catch (consume g) (\<lambda>_. restoreAnd saved (bind (revertTo i sid) (\<lambda>_. pushUint64 0))) (\<lambda>_.
      bind (executePrecompiled i a input g static) (\<lambda>p. case p of
        Some (s, err) \<Rightarrow> bind (if \<not> s then revertTo i sid else release i sid) (\<lambda>_. restoreAnd saved (lift_res err))
      | None \<Rightarrow> bind (executeChild rn cc) (\<lambda>r. finishCall i a g saved sid r))))" for sid saved static cc
  proof (intro unwinds_catch unwinds_precompiled unwinds_restoreAnd unwinds_revert c.keeps_prims g.keepsI [OF g.R_consume] grows_precompiled)
    show "unwinds sid (bind (executeChild rn cc) (\<lambda>r. finishCall i a g saved sid r))"
      by (intro unwinds_later [OF grows_child [OF rn]] unwinds_finishCall)
    show "unwinds sid (bind (if \<not> False then revertTo i sid else release i sid) (\<lambda>_. restoreAnd saved (lift_res err)))" for err
      by (simp only: not_False_eq_True if_True) (intro unwinds_revert still_restoreAnd c.keeps_lift)
  qed (auto simp: fin_simps split: if_splits)
  then show ?thesis
    unfolding enterCallCode_def
    by (intro rolled_atNextDepth rolled_withActive rolled_push rolled_snapshot rolled_bind c.keeps_gets unwinds_later [OF g.keeps_gets])
qed

lemma rolled_calls:
  assumes "goodRunner rn"
  shows "rolled (opCall i rn)" "rolled (opDelegateCall i rn)" "rolled (opCallCode i rn)" "rolled (opAuthCall i rn)"
  unfolding opCall_def opDelegateCall_def opCallCode_def opAuthCall_def payAuthCall_def Let_def
  by (intro rolled_bind rolled_if rolled_fail rolled_push rolled_chargeCall rolled_payGuard rolled_enterCall rolled_enterDelegateCall
      rolled_enterCallCode rolled_enterAuthCall rolled_still [OF c.keeps_rejectZeroAddrCall] assms c.keeps_rules c.keeps_callArgs
      c.keeps_prims)+

text \<open>\<open>STATICCALL\<close> keeps the contents in every case: its frame is read-only.\<close>

lemma still_staticChild:
  assumes "goodRunner rn" and "ctx_ReadOnly cc"
  shows "still (executeChild rn cc)"
proof (rule stillI)
  fix e :: "'s Environment"
  obtain r sh where r: "Execute rn (cc\<lparr>ctx_ParentEnv := Some (parentView e)\<rparr>) (env_shared e) = (r, sh)" by fastforce
  from Execute_safe(1) [OF assms(1) _ r] assms(2) show "env_ctx (snd (executeChild rn cc e)) = env_ctx e \<and> seen (snd (executeChild rn cc e)) = seen e"
    by (simp add: executeChild_def r safeShared_def)
qed

lemma still_attempt: "still m \<Longrightarrow> still (attempt m)"
  by (simp add: c.keeps_def attempt_def case_prod_beta)

lemma still_staticPrecompiled: "still (executePrecompiled i a input g True)"
proof -
  have "still (db_run (i_RunPrecompiled i addr p))" if "\<not> i_IsStateful i addr" for addr p
    by (rule stillI) (simp add: op_simps case_prod_beta stateless that)
  then show ?thesis unfolding executePrecompiled_def precompiledOutcome_def returnGas_def
    by (intro c.keeps_rules still_locals still_attempt c.keeps_prims c.keeps_setReturnData c.keeps_copyReturn) simp_all
qed

definition sealed :: "int \<Rightarrow> ('s Environment, 'a) op \<Rightarrow> bool" where
  "sealed sid m \<longleftrightarrow> (\<forall>e0 e. sid = int (length (snaps (env_db e0))) \<and> taken e0 e \<and> calm (i_db i) e0 e \<longrightarrow> calm (i_db i) e0 (snd (m e)))"

lemma sealed_later:
  assumes "still m" and "grows m" and "\<And>a. sealed sid (k a)"
  shows "sealed sid (bind m k)"
  unfolding sealed_def
proof (intro allI impI, elim conjE)
  fix e0 e :: "'s Environment"
  assume sid: "sid = int (length (snaps (env_db e0)))" and e: "taken e0 e" and same: "calm (i_db i) e0 e"
  have "calm (i_db i) e0 (snd (m e))" using c.R_trans [OF same c.keepsD [OF assms(1)]] by simp
  with grows_taken [OF assms(2) e] sid assms(3) show "calm (i_db i) e0 (snd (bind m k e))"
    by (auto simp: run_bind sealed_def split: prod.split sum.split)
qed

lemma sealed_end:
  assumes "\<And>a. still (k a)"
  shows "sealed sid (bind (revertTo i sid) k)" "sealed sid (bind (release i sid) k)"
proof -
  have undone: "calm (i_db i) e0 (snd (revertTo i sid e))" "calm (i_db i) e0 (snd (release i sid e))"
    if sid: "sid = int (length (snaps (env_db e0)))" and e: "taken e0 e" and same: "calm (i_db i) e0 e" for e0 e
  proof -
    from e obtain tl where tl: "snaps (env_db e) = snaps (env_db e0) @ seen e0 # tl" by (auto simp: prefix_def)
    then show "calm (i_db i) e0 (snd (revertTo i sid e))" "calm (i_db i) e0 (snd (release i sid e))"
      using Revert_view [of sid "env_db e"] Release_snaps [of _ sid "env_db e"] sid same
      by (auto simp: revertTo_def release_def releaseFrame_def op_simps nth_append calm_def split: option.split)
  qed
  have rest: "calm (i_db i) e (snd (k a e))" for a e using c.keepsD [OF assms] by simp
  have run: "snd (bind (revertTo i sid) k e) = snd (k () (snd (revertTo i sid e)))"
      "snd (bind (release i sid) k e) = snd (k () (snd (release i sid e)))" for e
    by (simp_all add: run_bind revertTo_def release_def run_db_set)
  show "sealed sid (bind (revertTo i sid) k)"
    unfolding sealed_def run by (intro allI impI, elim conjE) (rule c.R_trans [OF undone(1) rest])
  show "sealed sid (bind (release i sid) k)"
    unfolding sealed_def run by (intro allI impI, elim conjE) (rule c.R_trans [OF undone(2) rest])
qed

lemma still_snapshot:
  assumes "still m" and "\<And>sid. sealed sid (k sid)"
  shows "still (bind (db_run (Snapshot (i_db i))) (\<lambda>sid. if sid < 0 then m else k sid))"
proof (rule c.keepsI)
  fix e :: "'s Environment"
  obtain sid e1 where e1: "db_run (Snapshot (i_db i)) e = (Inr sid, e1)" "sid = fst (Snapshot (i_db i) (env_db e))"
      "calm (i_db i) e e1" "env_db e1 = snd (Snapshot (i_db i) (env_db e))"
    by (simp add: op_simps case_prod_beta view_simps calm_def)
  show "calm (i_db i) e (snd (bind (db_run (Snapshot (i_db i))) (\<lambda>sid. if sid < 0 then m else k sid) e))"
  proof (cases "sid < 0")
    case True
    then show ?thesis using e1 c.R_trans [OF e1(3) c.keepsD [OF assms(1)]] by (simp add: run_bind)
  next
    case False
    then have "sid = int (length (snaps (env_db e)))" "taken e e1" using Snapshot_push [of "env_db e"] e1 by simp_all
    with e1(3) assms(2) [of sid] have "calm (i_db i) e (snd (k sid e1))" unfolding sealed_def by blast
    with e1(1) False show ?thesis by (simp add: run_bind)
  qed
qed

lemma sealed_option: "sealed sid m \<Longrightarrow> (\<And>a. sealed sid (k a)) \<Longrightarrow> sealed sid (case x of None \<Rightarrow> m | Some a \<Rightarrow> k a)"
  by (cases x) simp_all

lemma sealed_prod: "(\<And>a b. sealed sid (m a b)) \<Longrightarrow> sealed sid (case x of (a, b) \<Rightarrow> m a b)"
  by (cases x) simp

lemma sealed_static:
  assumes "goodRunner rn" and "ctx_ReadOnly cc"
  shows "sealed sid (bind (executePrecompiled i a input g True) (\<lambda>p. case p of
      Some (s, err) \<Rightarrow> bind (if \<not> s then revertTo i sid else release i sid) (\<lambda>_. lift_res err)
    | None \<Rightarrow> bind (executeChild rn cc) (\<lambda>r. bind (returnGas g (res_GasUsed r)) (\<lambda>_. bind (release i sid) (\<lambda>_.
        bind (setReturnData (res_ReturnData r)) (\<lambda>_. bind (copyReturn a (res_ReturnData r)) (\<lambda>_.
        if res_Err r \<noteq> None then pushUint64 0 else pushUint64 1)))))))"
proof (intro sealed_later [OF still_staticPrecompiled grows_precompiled])
  fix p :: "(bool \<times> unit res) option"
  have gas: "still (returnGas g u)" for u unfolding returnGas_def by (intro c.keeps_rules still_locals)
  have "sealed sid (bind (executeChild rn cc) (\<lambda>r. bind (returnGas g (res_GasUsed r)) (\<lambda>_. bind (release i sid) (\<lambda>_.
        bind (setReturnData (res_ReturnData r)) (\<lambda>_. bind (copyReturn a (res_ReturnData r)) (\<lambda>_.
        if res_Err r \<noteq> None then pushUint64 0 else pushUint64 1))))))"
    by (intro sealed_later [OF still_staticChild [OF assms] grows_child [OF assms(1)]] sealed_later [OF gas grows_locals(3)]
        sealed_end c.keeps_rules c.keeps_setReturnData c.keeps_copyReturn c.keeps_prims)
  moreover have "sealed sid (bind (if \<not> s then revertTo i sid else release i sid) (\<lambda>_. lift_res err))" for s err
    by (cases s) (simp_all add: sealed_end c.keeps_lift)
  ultimately show "sealed sid (case p of
      Some (s, err) \<Rightarrow> bind (if \<not> s then revertTo i sid else release i sid) (\<lambda>_. lift_res err)
    | None \<Rightarrow> bind (executeChild rn cc) (\<lambda>r. bind (returnGas g (res_GasUsed r)) (\<lambda>_. bind (release i sid) (\<lambda>_.
        bind (setReturnData (res_ReturnData r)) (\<lambda>_. bind (copyReturn a (res_ReturnData r)) (\<lambda>_.
        if res_Err r \<noteq> None then pushUint64 0 else pushUint64 1))))))" by (intro sealed_option sealed_prod)
qed

lemma still_enterStaticCall:
  assumes "goodRunner rn" and "ctx_ReadOnly cc"
  shows "still (enterStaticCall i rn a cc g)"
  unfolding enterStaticCall_def atNextDepth_def deeper_def withActive_def refuse_def
  by (intro still_snapshot sealed_static assms c.keeps_bind still_locals c.keeps_deferring c.keeps_gets c.keeps_if c.keeps_catch
      still_restoreAnd c.keeps_prims) (simp_all add: calm_def restoreActive_def assms)

lemma still_opStaticCall: "goodRunner rn \<Longrightarrow> still (opStaticCall i rn)"
proof -
  assume rn: "goodRunner rn"
  have child: "still (bind (gets (\<lambda>e. subContext i e ca caller addr v input g True)) (\<lambda>cc. enterStaticCall i rn a cc g))" for ca caller addr v input g a
    by (rule c.keepsI) (simp add: run_bind run_gets c.keepsD [OF still_enterStaticCall [OF rn]] subContext_fields)
  show ?thesis unfolding opStaticCall_def
    by (intro child c.keeps_rules c.keeps_callArgs c.keeps_rejectZeroAddrCall c.keeps_chargeCall c.keeps_payGuard)
qed

end

section \<open>Property\<close>


text \<open>Account 2 calls the zero address, which is refused after paying for the attempt.\<close>

definition refusedCall :: "rollupStateDB Environment" where
  "refusedCall = (bareFrame payingCode 100000 False)\<lparr>env_stack := [9, 0, 0, 0, 0, 0, 0]\<rparr>"

lemma refusedCall_fails:
  "fst (opCall bareInterpreter rn refusedCall) = Inr () \<and> last (env_stack (snd (opCall bareInterpreter rn refusedCall))) = 0"
  by code_simp


end
