(* ===== verification/QVM_Effects.thy ===== *)
theory QVM_Effects
  imports QVM_Run
begin

text \<open>
  The stack effect of every opcode: the numbers of items popped and pushed that the table of
  \<open>src/qvm/opcodes.go\<close> states, and on which the checks of \<open>run\<close> rely, are what the handlers of
  \<open>operations.go\<close>, \<open>operations_missing.go\<close>, \<open>opcodes_extended.go\<close> and \<open>call.go\<close> do.
\<close>

section \<open>Stack effects\<close>

definition stackErr :: "qerr \<Rightarrow> bool" where
  "stackErr x \<longleftrightarrow> x \<in> {ErrStackUnderflow, ErrStackOverflow, ErrInvalidIndex}"

text \<open>\<open>eff n q m\<close>: with \<open>n\<close> items above any number of others, and room for \<open>q\<close>, \<open>m\<close> does not fail
  because of the stack and leaves \<open>q\<close> items in their place.\<close>

definition leaves :: "nat \<Rightarrow> 'a res \<times> 's Environment \<Rightarrow> bool" where
  "leaves l r \<longleftrightarrow> (case r of (Inl x, _) \<Rightarrow> \<not> stackErr x | (Inr _, e') \<Rightarrow> length (env_stack e') = l)"

definition eff :: "nat \<Rightarrow> nat \<Rightarrow> ('s Environment, 'a) op \<Rightarrow> bool" where
  "eff n q m \<longleftrightarrow> (\<forall>b e. length (env_stack e) = b + n \<longrightarrow> b + q \<le> MaxStackSize \<longrightarrow> leaves (b + q) (m e))"

definition neutral :: "('s Environment, 'a) op \<Rightarrow> bool" where
  "neutral m \<longleftrightarrow> (\<forall>e. env_stack (snd (m e)) = env_stack e \<and> (\<forall>x. fst (m e) = Inl x \<longrightarrow> \<not> stackErr x))"

lemma leaves_simps [simp]: "leaves l (Inl x, e) \<longleftrightarrow> \<not> stackErr x" "leaves l (Inr a, e) \<longleftrightarrow> length (env_stack e) = l"
  by (simp_all add: leaves_def)

lemma effI:
  assumes "\<And>b e. length (env_stack e) = b + n \<Longrightarrow> b + q \<le> MaxStackSize \<Longrightarrow> leaves (b + q) (m e)"
  shows "eff n q m"
  using assms by (simp add: eff_def)

lemma effD:
  "eff n q m \<Longrightarrow> length (env_stack e) = b + n \<Longrightarrow> b + q \<le> MaxStackSize \<Longrightarrow> leaves (b + q) (m e)"
  by (simp add: eff_def)

lemma neutral_cases:
  assumes "neutral m"
  obtains x e' where "m e = (Inl x, e')" "\<not> stackErr x" "env_stack e' = env_stack e"
    | a e' where "m e = (Inr a, e')" "env_stack e' = env_stack e"
proof (cases "m e")
  case (Pair r e')
  with assms have "env_stack e' = env_stack e" "\<And>x. r = Inl x \<Longrightarrow> \<not> stackErr x"
    unfolding neutral_def by (metis fst_conv snd_conv)+
  with Pair that show thesis by (cases r) auto
qed

lemma stackErr_simps [simp]:
  "\<not> stackErr ErrMemoryOverflow" "\<not> stackErr ErrOutOfGas" "\<not> stackErr ErrGasOverflow" "\<not> stackErr ErrInvalidOpcode"
  "\<not> stackErr ErrInvalidJumpDest" "\<not> stackErr ErrWriteProtection" "\<not> stackErr ErrNonDeterministicOpcode"
  "\<not> stackErr ErrInitCodeSizeExceeded" "\<not> stackErr (Errorf s)"
  by (simp_all add: stackErr_def)

lemma eff_ret: "q = n \<Longrightarrow> eff n q (ret a)"
  by (rule effI) (simp add: ret_def)

lemma eff_fail: "\<not> stackErr x \<Longrightarrow> eff n q (fail x)"
  by (rule effI) (simp add: fail_def)

lemma eff_if: "eff n q m \<Longrightarrow> eff n q m' \<Longrightarrow> eff n q (if c then m else m')"
  by simp

lemma eff_option: "eff n q m \<Longrightarrow> (\<And>a. eff n q (f a)) \<Longrightarrow> eff n q (case x of None \<Rightarrow> m | Some a \<Rightarrow> f a)"
  by (cases x) simp_all

lemma eff_sum: "(\<And>a. eff n q (g a)) \<Longrightarrow> (\<And>a. eff n q (f a)) \<Longrightarrow> eff n q (case x of Inl a \<Rightarrow> g a | Inr a \<Rightarrow> f a)"
  by (cases x) simp_all

lemma eff_prod: "(\<And>a b. eff n q (f a b)) \<Longrightarrow> eff n q (case x of (a, b) \<Rightarrow> f a b)"
  by (cases x) simp

lemma eff_let: "(\<And>a. eff n q (f a)) \<Longrightarrow> eff n q (Let x f)"
  by simp

lemma eff_neutral: "neutral m \<Longrightarrow> q = n \<Longrightarrow> eff n q m"
  by (rule effI) (metis leaves_simps neutral_cases)

lemma eff_bind:
  assumes "neutral m" "\<And>a. eff n q (k a)"
  shows "eff n q (bind m k)"
proof (rule effI)
  fix b and e :: "'a Environment"
  assume "length (env_stack e) = b + n" "b + q \<le> MaxStackSize"
  then show "leaves (b + q) (bind m k e)"
    by (cases rule: neutral_cases [OF assms(1), of e]) (simp_all add: op_simps effD [OF assms(2)])
qed

lemma eff_catch:
  assumes "neutral m" "\<And>x. \<not> stackErr x \<Longrightarrow> eff n q (h x)" "\<And>a. eff n q (k a)"
  shows "eff n q (catch m h k)"
proof (rule effI)
  fix b and e :: "'a Environment"
  assume "length (env_stack e) = b + n" "b + q \<le> MaxStackSize"
  then show "leaves (b + q) (catch m h k e)"
    by (cases rule: neutral_cases [OF assms(1), of e]) (simp_all add: op_simps effD [OF assms(2)] effD [OF assms(3)])
qed

lemma eff_seq:
  assumes "eff n p m" "p \<le> q" "\<And>a. eff p q (k a)"
  shows "eff n q (bind m k)"
proof (rule effI)
  fix b and e :: "'a Environment"
  assume e: "length (env_stack e) = b + n" "b + q \<le> MaxStackSize"
  then have "leaves (b + p) (m e)"
    using assms(1,2) by (intro effD) simp_all
  with e assms(3) show "leaves (b + q) (bind m k e)"
    by (cases "m e"; cases "fst (m e)") (auto simp: op_simps intro: effD)
qed

lemma eff_deferring:
  assumes "\<And>e. env_stack (f e) = env_stack e" "eff n q m"
  shows "eff n q (deferring f m)"
proof (rule effI)
  fix b and e :: "'a Environment"
  assume "length (env_stack e) = b + n" "b + q \<le> MaxStackSize"
  with effD [OF assms(2)] assms(1)
  show "leaves (b + q) (deferring f m e)"
    by (cases "m e"; cases "fst (m e)") (fastforce simp: op_simps)+
qed

lemma eff_pop:
  assumes "0 < n" "\<And>a. eff (n - 1) q (k a)"
  shows "eff n q (bind pop k)"
proof (rule effI)
  fix b and e :: "'a Environment"
  assume e: "length (env_stack e) = b + n" "b + q \<le> MaxStackSize"
  then have ne: "env_stack e \<noteq> []" using assms(1) by auto
  have "length (env_stack (e\<lparr>env_stack := butlast (env_stack e)\<rparr>)) = b + (n - 1)" using e assms(1) by simp
  from effD [OF assms(2) this e(2)]
  show "leaves (b + q) (bind pop k e)"
    by (simp add: op_simps Stack_Pop_nonempty [OF ne])
qed

lemma eff_popUint64: "0 < n \<Longrightarrow> (\<And>a. eff (n - 1) q (k a)) \<Longrightarrow> eff n q (bind popUint64 k)"
  unfolding popUint64_pop by (rule eff_pop)

lemma eff_popBigInt: "0 < n \<Longrightarrow> (\<And>a. eff (n - 1) q (k a)) \<Longrightarrow> eff n q (bind popBigInt k)"
  unfolding popBigInt_pop by (rule eff_pop)

lemma eff_push: "q = Suc n \<Longrightarrow> eff n q (push w)"
  by (rule effI) (simp add: op_simps Stack_Push_def)

lemma eff_pushUint64: "q = Suc n \<Longrightarrow> eff n q (pushUint64 v)"
  unfolding pushUint64_push by (rule eff_push)

lemma eff_pushBigInt: "q = Suc n \<Longrightarrow> eff n q (pushBigInt v)"
  unfolding pushBigInt_push by (rule eff_push)

lemma eff_topics: "m \<le> n \<Longrightarrow> (\<And>a. eff (n - m) q (k a)) \<Longrightarrow> eff n q (bind (pop_topics m) k)"
proof (induction m arbitrary: n k)
  case 0
  then show ?case by (simp add: op_simps)
next
  case (Suc m)
  have "bind (pop_topics (Suc m)) k = bind pop (\<lambda>t. bind (pop_topics m) (\<lambda>ts. k (t # ts)))"
    by (simp add: bind_assoc)
  moreover have "eff (n - 1) q (bind (pop_topics m) (\<lambda>ts. k (t # ts)))" for t
    using Suc.prems by (intro Suc.IH) (auto simp: diff_diff_left)
  ultimately show ?case using Suc.prems by (simp add: eff_pop)
qed

lemma eff_dup: "1 \<le> n \<Longrightarrow> eff n (n + 1) (on_stack (Stack_Dup (int n)))"
  by (rule effI) (simp add: op_simps Stack_Dup_def Stack_Push_def)

lemma eff_swap: "1 \<le> k \<Longrightarrow> eff (k + 1) (k + 1) (on_stack (Stack_Swap (int k)))"
  by (rule effI) (simp add: op_simps Stack_Swap_def Let_def)

section \<open>Steps that leave the stack alone\<close>

lemma neutral_ret: "neutral (ret a)" by (simp add: neutral_def ret_def)
lemma neutral_fail: "\<not> stackErr x \<Longrightarrow> neutral (fail x)" by (simp add: neutral_def fail_def)
lemma neutral_gets: "neutral (gets f)" by (simp add: neutral_def gets_def)
lemma neutral_modify: "(\<And>e. env_stack (f e) = env_stack e) \<Longrightarrow> neutral (modify f)" by (simp add: neutral_def modify_def)
lemma neutral_if: "neutral m \<Longrightarrow> neutral m' \<Longrightarrow> neutral (if c then m else m')" by simp
lemma neutral_option: "neutral m \<Longrightarrow> (\<And>a. neutral (f a)) \<Longrightarrow> neutral (case x of None \<Rightarrow> m | Some a \<Rightarrow> f a)" by (cases x) simp_all
lemma neutral_sum: "(\<And>a. neutral (g a)) \<Longrightarrow> (\<And>a. neutral (f a)) \<Longrightarrow> neutral (case x of Inl a \<Rightarrow> g a | Inr a \<Rightarrow> f a)" by (cases x) simp_all
lemma neutral_prod: "(\<And>a b. neutral (f a b)) \<Longrightarrow> neutral (case x of (a, b) \<Rightarrow> f a b)" by (cases x) simp
lemma neutral_let: "(\<And>a. neutral (f a)) \<Longrightarrow> neutral (Let x f)" by simp

lemma neutral_bind: "neutral m \<Longrightarrow> (\<And>a. neutral (k a)) \<Longrightarrow> neutral (bind m k)"
  by (auto simp: neutral_def op_simps split: prod.splits sum.splits) (metis fst_conv snd_conv)+

lemma neutral_lift: "(\<And>x. r = Inl x \<Longrightarrow> \<not> stackErr x) \<Longrightarrow> neutral (lift_res r)"
  by (cases r) (simp_all add: neutral_def lift_res_def)

lemma neutral_gas: "neutral (consume c)"
  by (simp add: neutral_def op_simps Consume_def Let_def)

lemma Memory_expand_err: "fst (Memory_expand off sz m) = Inl x \<Longrightarrow> \<not> stackErr x"
  by (auto simp: Memory_expand_def Let_def split: if_splits)

lemma neutral_db: "neutral (db_get f)" "neutral (db_set g)" "neutral (db_run h)"
  by (simp_all add: neutral_def op_simps split: prod.split)

lemma expand_then_err: "(\<And>d. fst (f d) \<noteq> Inl x) \<Longrightarrow> fst (bind (Memory_expand off sz) (\<lambda>_. f) m) = Inl x \<Longrightarrow> \<not> stackErr x"
  using Memory_expand_err [of off sz m x] by (cases "Memory_expand off sz m") (auto simp: op_simps split: sum.splits)

lemma Memory_errors:
  "fst (Memory_Get off sz m) = Inl x \<Longrightarrow> \<not> stackErr x" "fst (Memory_GetPtr off sz m) = Inl x \<Longrightarrow> \<not> stackErr x"
  "fst (Memory_Set off bs m) = Inl x \<Longrightarrow> \<not> stackErr x" "fst (Memory_Set32 off w m) = Inl x \<Longrightarrow> \<not> stackErr x"
  "fst (Memory_SetByte off b m) = Inl x \<Longrightarrow> \<not> stackErr x" "fst (Memory_ZeroRange off sz m) = Inl x \<Longrightarrow> \<not> stackErr x"
  unfolding Memory_Get_def Memory_GetPtr_def Memory_Set_def Memory_Set32_def Memory_SetByte_def Memory_ZeroRange_def Let_def
  by (auto split: if_splits elim!: expand_then_err [rotated] simp: ret_def fail_def gets_def modify_def)

lemma neutral_on_memory: "(\<And>m x. fst (f m) = Inl x \<Longrightarrow> \<not> stackErr x) \<Longrightarrow> neutral (on_memory f)"
  by (auto simp: neutral_def op_simps split: prod.splits) (metis fst_conv)

lemma neutral_memory:
  "neutral (on_memory (Memory_Get off sz))" "neutral (on_memory (Memory_GetPtr off sz))" "neutral (on_memory (Memory_Set off bs))"
  "neutral (on_memory (Memory_Set32 off w))" "neutral (on_memory (Memory_SetByte off b))" "neutral (on_memory (Memory_ZeroRange off sz))"
  by (rule neutral_on_memory, erule Memory_errors)+

lemma gas_errors:
  "SafeAddGas a b = Inl x \<Longrightarrow> \<not> stackErr x" "SafeMulGas a b = Inl x \<Longrightarrow> \<not> stackErr x" "SafeSubGas a b = Inl x \<Longrightarrow> \<not> stackErr x"
  by (auto simp: SafeAddGas_def SafeMulGas_def SafeSubGas_def split: if_splits)

lemma create_errors: "createGas c sz g = Inl x \<Longrightarrow> \<not> stackErr x" "calculateMemoryGas off sz e = Inl x \<Longrightarrow> \<not> stackErr x"
  by (auto simp: createGas_def calculateMemoryGas_def Let_def split: if_splits sum.splits)

lemma neutral_checked:
  "neutral (lift_res (SafeAddGas a b))" "neutral (lift_res (SafeMulGas a b))" "neutral (lift_res (SafeSubGas a b))"
  "neutral (lift_res (createGas c sz g))"
  by (rule neutral_lift, erule gas_errors create_errors)+

lemma neutral_active: "neutral (PushActiveAddress addr)" "neutral (IncrementReentryCount addr)"
  by (auto simp: neutral_def PushActiveAddress_def IncrementReentryCount_def Let_def)

lemma stack_active [simp]:
  "env_stack (PopActiveAddress e) = env_stack e" "env_stack (DecrementReentryCount addr e) = env_stack e"
  "env_stack (restoreActive l e) = env_stack e" "env_stack (setTransient ts e) = env_stack e"
  by (simp_all add: PopActiveAddress_def DecrementReentryCount_def restoreActive_def setTransient_def Let_def)

lemmas neutral_rules = neutral_ret neutral_fail neutral_gets neutral_if neutral_option neutral_sum neutral_prod neutral_let
  neutral_bind neutral_gas neutral_memory neutral_db neutral_active neutral_checked

lemmas eff_rules = eff_ret eff_fail eff_if eff_option eff_sum eff_prod eff_let eff_catch eff_push eff_pushUint64 eff_pushBigInt
  eff_pop eff_popUint64 eff_popBigInt eff_topics eff_bind

section \<open>Handlers inside a frame\<close>

lemma eff_word_ops: "eff 1 1 (unop f)" "eff 2 1 (binop g)" "eff 3 1 (ternop h)"
  unfolding unop_def binop_def ternop_def by (intro eff_rules; simp)+

lemma eff_arith:
  "eff 2 1 opAdd" "eff 2 1 opSub" "eff 2 1 opMul" "eff 2 1 opDiv" "eff 2 1 opMod" "eff 2 1 opSDiv" "eff 2 1 opSMod"
  "eff 3 1 opAddMod" "eff 3 1 opMulMod" "eff 2 1 opSignExtend"
  "eff 2 1 opLt" "eff 2 1 opGt" "eff 2 1 opSlt" "eff 2 1 opSgt" "eff 2 1 opEq" "eff 1 1 opIsZero"
  "eff 2 1 opAnd" "eff 2 1 opOr" "eff 2 1 opXor" "eff 1 1 opNot" "eff 2 1 opShl" "eff 2 1 opShr" "eff 2 1 opSar" "eff 2 1 opByte"
  unfolding arith_words compare_words bit_words by (rule eff_word_ops)+

lemma eff_opExp: "eff 2 1 opExp"
  unfolding opExp_def by (intro eff_rules neutral_rules; simp)

lemma eff_context:
  "eff 0 1 opAddress" "eff 0 1 opCaller" "eff 0 1 opOrigin" "eff 0 1 opCoinbase" "eff 0 1 opCallValue" "eff 0 1 opGasPrice"
  "eff 0 1 opGasLimit" "eff 0 1 opPrevRandao" "eff 0 1 opBlobBaseFee" "eff 0 1 opBaseFee" "eff 1 1 opBlobHash"
  "eff 1 1 opBlockHash" "eff 0 1 opCodeSize" "eff 1 1 opCallDataLoad"
  unfolding opAddress_def opCaller_def opOrigin_def opCoinbase_def opCallValue_def opGasPrice_def
    opGasLimit_def opPrevRandao_def opBlobBaseFee_def opBaseFee_def opBlobHash_def opBlockHash_def
    opCodeSize_def opCallDataLoad_def
  by (intro eff_rules neutral_rules; simp)+

lemma neutral_takeReturnData: "neutral (takeReturnData off sz)"
  unfolding takeReturnData_def by (intro neutral_rules neutral_modify; simp)

lemma eff_memory:
  "eff 1 1 opMLoad" "eff 2 0 opMStore" "eff 2 0 opMStore8" "eff 3 0 opMCopy" "eff 3 0 opCallDataCopy"
  "eff 3 0 opReturnDataCopy" "eff 3 0 opCodeCopy" "eff 2 1 (opSHA3 i)" "eff 2 0 opReturn" "eff 2 0 opRevert"
  "eff 0 2 opKyberKeyGen" "eff 1 2 opKyberEncaps" "eff 2 0 opKyberZeroKey"
  unfolding opMLoad_def opMStore_def opMStore8_def opMCopy_def opCallDataCopy_def opReturnDataCopy_def
    opCodeCopy_def opSHA3_def opReturn_def opRevert_def opKyberKeyGen_def opKyberEncaps_def opKyberZeroKey_def
  by (intro eff_rules neutral_rules neutral_takeReturnData eff_neutral neutral_modify; simp)+

lemma eff_opKyberDecaps:
  assumes "\<And>p c x. i_decapsulate i p c = Inl x \<Longrightarrow> \<not> stackErr x"
  shows "eff 2 1 (opKyberDecaps i)"
  unfolding opKyberDecaps_def by (intro eff_rules neutral_rules neutral_lift [OF assms]; simp)

lemma neutral_touch: "neutral (touchSlot i key)" "neutral (touchAccount i addr)"
  unfolding touchSlot_def touchAccount_def by (intro neutral_rules; simp)+

lemma eff_accounts:
  "eff 1 1 (opSLoad i)" "eff 1 1 opTLoad" "eff 1 1 (opBalance i)" "eff 0 1 (opSelfBalance i)"
  "eff 1 1 (opExtCodeSize i)" "eff 1 1 (opExtCodeHash i)"
  unfolding opSLoad_def opTLoad_def opBalance_def opSelfBalance_def opExtCodeSize_def opExtCodeHash_def
  by (intro eff_rules neutral_rules neutral_touch eff_neutral; simp)+

lemma eff_extCodeCopy: "eff 4 0 (opExtCodeCopy i)"
  unfolding opExtCodeCopy_def
  by (intro eff_rules neutral_rules neutral_touch eff_neutral; simp)

lemma eff_writers: "eff 2 0 (opSStore i)" "eff 2 0 opTStore"
  unfolding opSStore_def opTStore_def
  by (intro eff_rules neutral_rules neutral_touch neutral_modify eff_neutral; simp add: Let_def)+

lemma eff_opLog: "eff (k + 2) 0 (opLog k)"
  unfolding opLog_def by (intro eff_rules neutral_rules neutral_modify eff_neutral; simp)

lemma neutral_destructAccount: "neutral (destructAccount i addr)"
  unfolding destructAccount_def by (intro neutral_rules neutral_modify; simp)

lemma eff_opSelfDestruct: "eff 1 0 (opSelfDestruct i)"
  unfolding opSelfDestruct_def stopFrame_def
  by (intro eff_rules eff_deferring neutral_destructAccount neutral_rules neutral_modify eff_neutral; simp)

lemma eff_authRefused: "eff 0 1 authRefused"
  unfolding authRefused_def by (intro eff_rules neutral_modify; simp)

lemma eff_authMessage: "eff 0 1 (authMessage i addr msg)"
  unfolding authMessage_def by (intro eff_authRefused eff_rules neutral_rules neutral_modify; simp)

lemma eff_opAuth: "eff 3 1 (opAuth i)"
proof -
  have "eff (3 - 1 - 1 - 1) 1 authRefused" "eff (3 - 1 - 1 - 1) 1 (authMessage i addr msg)" for addr msg
    using eff_authRefused eff_authMessage by simp_all
  then show ?thesis
    unfolding opAuth_def by (intro eff_rules neutral_rules neutral_modify; simp)
qed

lemma neutral_jumpTo: "neutral (jumpTo dest)"
  unfolding jumpTo_def by (intro neutral_rules neutral_modify; simp)

lemma eff_jumps: "eff 1 0 opJump" "eff 2 0 opJumpI"
  unfolding opJump_def opJumpI_def by (intro eff_rules neutral_jumpTo eff_neutral; simp)+

lemma eff_opPush: "eff 0 1 (opPush op)"
  unfolding opPush_def by (intro eff_rules neutral_rules neutral_modify; simp)

section \<open>Handlers that start a frame\<close>

lemma eff_callArgs: "eff 7 0 popCallArgs" "eff 6 0 popCallArgs6"
  unfolding popCallArgs_def popCallArgs6_def by (intro eff_rules neutral_rules; simp)+

lemma neutral_callPieces: "neutral (callMemCost a)" "neutral (callInput a)" "neutral (setReturnData bs)"
  "neutral (copyReturn a bs)" "neutral (returnGas c u)" "neutral (revertTo i s)" "neutral (release i s)"
  "neutral (transferValue i x v y w)"
  unfolding callMemCost_def callInput_def setReturnData_def copyReturn_def returnGas_def revertTo_def release_def transferValue_def
  by (intro neutral_rules neutral_modify; simp)+

lemma neutral_frames: "neutral (executeChild rn c)" "neutral (runInit rn ie)"
  by (simp_all add: neutral_def executeChild_def runInit_def split: prod.split)

lemma neutral_restoreAnd: "neutral m \<Longrightarrow> neutral (restoreAnd l m)"
  unfolding restoreAnd_def by (intro neutral_rules neutral_modify; simp)

lemma eff_restoreAnd: "eff n q m \<Longrightarrow> eff n q (restoreAnd l m)"
  unfolding restoreAnd_def by (intro eff_bind neutral_modify; simp)

lemma eff_refuse: "eff 0 1 (refuse l)"
  unfolding refuse_def by (intro eff_restoreAnd eff_rules) simp

lemma eff_rejectZeroAddrCall: "eff 0 1 (rejectZeroAddrCall i a)"
  unfolding rejectZeroAddrCall_def by (intro eff_rules neutral_rules neutral_callPieces; simp)

lemma eff_deeper: "(\<And>d. eff n q (k d)) \<Longrightarrow> eff n q (deeper k)"
  unfolding deeper_def by (intro eff_bind eff_deferring neutral_modify neutral_gets; simp)

lemma eff_atNextDepth: "(\<And>d. eff 0 1 (k d)) \<Longrightarrow> eff 0 1 (atNextDepth k)"
  unfolding atNextDepth_def by (intro eff_deeper eff_rules; simp)

lemma eff_withActive: "(\<And>l. eff 0 1 (k l)) \<Longrightarrow> eff 0 1 (withActive addr k)"
  unfolding withActive_def by (intro eff_rules eff_refuse neutral_rules; simp)

lemma eff_payGuard: "eff 0 1 m \<Longrightarrow> eff 0 1 (payGuard g m)"
  unfolding payGuard_def by (intro eff_rules neutral_rules; simp)

lemma eff_chargeCall: "(\<And>g c. eff 0 1 (k g c)) \<Longrightarrow> eff 0 1 (chargeCall i a tracked hasValue isNew compares k)"
  unfolding chargeCall_def reentryGuard_def
  by (intro eff_rules eff_deferring neutral_callPieces neutral_rules; simp)

lemma eff_finishCall: "eff 0 1 (finishCall i a c l s r)"
  unfolding finishCall_def
  by (intro eff_rules eff_restoreAnd neutral_callPieces neutral_restoreAnd neutral_rules neutral_modify; simp)

text \<open>A precompiled contract has pushed its flag when it is done, or reports an error that is not
  one of the stack.\<close>

definition flagged :: "nat \<Rightarrow> (bool \<times> unit res) option res \<times> 's Environment \<Rightarrow> bool" where
  "flagged l out \<longleftrightarrow> (case out of
     (Inl x, _) \<Rightarrow> \<not> stackErr x
   | (Inr None, e') \<Rightarrow> length (env_stack e') = l
   | (Inr (Some (_, Inl x)), _) \<Rightarrow> \<not> stackErr x
   | (Inr (Some (_, Inr _)), e') \<Rightarrow> length (env_stack e') = Suc l)"

lemma flagged_simps [simp]:
  "flagged l (Inl x, e) \<longleftrightarrow> \<not> stackErr x" "flagged l (Inr None, e) \<longleftrightarrow> length (env_stack e) = l"
  "flagged l (Inr (Some (s, Inl x)), e) \<longleftrightarrow> \<not> stackErr x" "flagged l (Inr (Some (s, Inr u)), e) \<longleftrightarrow> length (env_stack e) = Suc l"
  by (simp_all add: flagged_def)

definition flags :: "('s Environment, (bool \<times> unit res) option) op \<Rightarrow> bool" where
  "flags m \<longleftrightarrow> (\<forall>e. length (env_stack e) < MaxStackSize \<longrightarrow> flagged (length (env_stack e)) (m e))"

lemma flags_bind:
  assumes "neutral m" "\<And>a. flags (k a)"
  shows "flags (bind m k)"
  unfolding flags_def
proof (intro allI impI)
  fix e :: "'a Environment"
  assume "length (env_stack e) < MaxStackSize"
  then show "flagged (length (env_stack e)) (bind m k e)"
  proof (cases rule: neutral_cases [OF assms(1), of e])
    case (2 a e')
    with \<open>length (env_stack e) < MaxStackSize\<close> show ?thesis
      using assms(2) [of a, unfolded flags_def, rule_format, of e'] by (simp add: op_simps)
  qed (simp add: op_simps)
qed

lemma flags_push: "flags (bind (attempt (pushUint64 v)) (\<lambda>r. ret (Some (s, r))))"
  by (simp add: flags_def attempt_def op_simps pushUint64_push Stack_Push_def)

lemma flags_outcome: "flags (bind (precompiledOutcome a out) (\<lambda>r. ret (Some r)) :: ('s Environment, (bool \<times> unit res) option) op)"
proof (cases out)
  case None
  then show ?thesis
    unfolding precompiledOutcome_def by (simp, intro flags_bind neutral_callPieces flags_push)
next
  case (Some bs)
  have copy: "flags (bind (attempt (copyReturn a bs)) (\<lambda>w. case w of Inl x \<Rightarrow> ret (Some (False, Inl x)) | Inr _ \<Rightarrow> m))"
    if "flags m" for m :: "('s Environment, (bool \<times> unit res) option) op"
    unfolding flags_def
  proof (intro allI impI)
    fix e :: "'s Environment"
    assume e: "length (env_stack e) < MaxStackSize"
    show "flagged (length (env_stack e)) (bind (attempt (copyReturn a bs)) (\<lambda>w. case w of Inl x \<Rightarrow> ret (Some (False, Inl x)) | Inr _ \<Rightarrow> m) e)"
    proof (cases rule: neutral_cases [OF neutral_callPieces(4), of a bs e])
      case (2 u e')
      then show ?thesis using that [unfolded flags_def, rule_format, of e'] e by (simp add: attempt_def op_simps)
    qed (simp add: attempt_def op_simps)
  qed
  have "(bind (precompiledOutcome a out) (\<lambda>r. ret (Some r)) :: ('s Environment, _) op) = bind (setReturnData bs) (\<lambda>_. bind (attempt (copyReturn a bs))
      (\<lambda>w. case w of Inl x \<Rightarrow> ret (Some (False, Inl x)) | Inr _ \<Rightarrow> bind (attempt (pushUint64 1)) (\<lambda>r. ret (Some (True, r)))))"
    by (rule ext) (simp add: Some precompiledOutcome_def op_simps split: prod.split sum.split)
  then show ?thesis by (simp only: flags_bind copy flags_push neutral_callPieces)
qed

lemma flags_none: "flags (ret None)"
  by (simp add: flags_def ret_def)

lemma flags_executePrecompiled: "flags (executePrecompiled i a input c static)"
  unfolding executePrecompiled_def case_prod_beta
  by (simp, intro conjI impI flags_none flags_outcome flags_bind neutral_modify neutral_rules neutral_callPieces; simp)

lemma eff_precompiled:
  assumes fin: "\<And>s. eff 1 1 (fin s (Inr ()))"
    and err: "\<And>s x e l. \<not> stackErr x \<Longrightarrow> leaves l (fin s (Inl x) e)"
    and child: "eff 0 1 child"
  shows "eff 0 1 (bind (executePrecompiled i a input c static) (\<lambda>p. case p of None \<Rightarrow> child | Some (s, r) \<Rightarrow> fin s r))"
proof (rule effI)
  fix b and e :: "'a Environment"
  assume e: "length (env_stack e) = b + 0" "b + 1 \<le> MaxStackSize"
  let ?m = "executePrecompiled i a input c static"
  from e flags_executePrecompiled [of i a input c static]
  have flagged: "flagged b (?m e)" unfolding flags_def by force
  obtain out e' where m: "?m e = (out, e')" by fastforce
  show "leaves (b + 1) (bind ?m (\<lambda>p. case p of None \<Rightarrow> child | Some (s, r) \<Rightarrow> fin s r) e)"
  proof (cases out)
    case (Inl x)
    with flagged m show ?thesis by (simp add: op_simps)
  next
    case (Inr p)
    show ?thesis
    proof (cases p)
      case None
      with flagged m Inr effD [OF child _ e(2), of e'] show ?thesis by (simp add: op_simps)
    next
      case (Some sr)
      obtain s r where "sr = (s, r)" by fastforce
      with flagged m Inr Some effD [OF fin _ e(2), of e' s] show ?thesis by (cases r) (simp_all add: op_simps err)
    qed
  qed
qed

lemma neutral_done: "neutral (lift_res (Inr ()))"
  by (rule neutral_lift) simp

lemma eff_enter:
  "eff 0 1 (enterCall i rn a ctx g c)" "eff 0 1 (enterStaticCall i rn a ctx c)" "eff 0 1 (enterDelegateCall i rn a ctx c)"
  "eff 0 1 (enterCallCode i rn a inp c)" "eff 0 1 (enterAuthCall i rn a ctx v c)"
  unfolding enterCall_def enterStaticCall_def enterDelegateCall_def enterCallCode_def enterAuthCall_def
  by (intro eff_atNextDepth eff_payGuard eff_withActive eff_deferring eff_precompiled eff_finishCall eff_restoreAnd eff_refuse
      eff_rules eff_neutral neutral_callPieces neutral_frames neutral_done neutral_rules;
      simp add: op_simps restoreAnd_def revertTo_def release_def)+

lemma eff_calls:
  "eff 7 1 (opCall i rn)" "eff 6 1 (opStaticCall i rn)" "eff 6 1 (opDelegateCall i rn)" "eff 7 1 (opCallCode i rn)"
  "eff 7 1 (opAuthCall i rn)"
  unfolding opCall_def opStaticCall_def opDelegateCall_def opCallCode_def opAuthCall_def payAuthCall_def
  by (rule eff_seq, rule eff_callArgs, simp,
      intro eff_rejectZeroAddrCall eff_chargeCall eff_payGuard eff_enter eff_rules neutral_callPieces neutral_rules; simp)+

lemma eff_createRefused: "eff 0 1 (createRefused i s)" "eff 0 1 (createUndone i s ts)"
  unfolding createRefused_def createUndone_def
  by (intro eff_rules neutral_callPieces neutral_modify; simp)+

lemma eff_deployCode: "eff 0 1 (deployCode i s ts addr bs logs)"
  unfolding deployCode_def
  by (intro eff_createRefused eff_rules neutral_callPieces neutral_rules neutral_modify; simp)

lemma eff_createRun: "eff 0 1 (createRun i rn s addr v bs)"
  unfolding createRun_def
  by (intro eff_deeper eff_createRefused eff_deployCode eff_rules neutral_frames neutral_callPieces neutral_rules; simp)

lemma neutral_claimAddress: "neutral (claimAddress i addr)"
  unfolding claimAddress_def by (intro neutral_rules neutral_modify; simp)

lemma eff_createAt: "eff 0 1 (createAt i rn s addr v bs)"
  unfolding createAt_def
  by (intro eff_createRun eff_createRefused eff_rules neutral_claimAddress neutral_callPieces neutral_rules; simp)

lemma eff_memoryGas:
  assumes "\<And>g. eff n q (k g)"
  shows "eff n q (bind (gets (calculateMemoryGas off sz)) (\<lambda>r. bind (lift_res r) k))"
proof -
  have "neutral (bind (gets (calculateMemoryGas off sz)) lift_res)"
    using create_errors(2) by (auto simp: neutral_def op_simps)
  from eff_bind [OF this assms] show ?thesis by simp
qed

lemma eff_creates: "eff 3 1 (opCreate i rn)" "eff 4 1 (opCreate2 i rn)"
proof -
  have later: "n = 0 \<Longrightarrow> eff n 1 (createAt i rn s addr v bs)" for n s addr v bs
    using eff_createAt by simp
  show "eff 3 1 (opCreate i rn)" "eff 4 1 (opCreate2 i rn)"
    unfolding opCreate_def opCreate2_def opCreateGeneric_def if_True if_False bind_ret
    by (intro later eff_memoryGas eff_rules neutral_rules; simp)+
qed

section \<open>The table\<close>

text \<open>What the loop lets through: \<open>DUP\<close> and \<open>SWAP\<close> leave the items they look at.\<close>

definition stackAfter :: "OpCode \<Rightarrow> OpCodeInfo \<Rightarrow> nat" where
  "stackAfter op info = (if isDupOrSwap op then StackPop info + StackPush info else StackPush info)"

definition fits :: "'s Interpreter \<Rightarrow> 's runner \<Rightarrow> OpCode \<Rightarrow> OpCodeInfo \<Rightarrow> bool" where
  "fits i rn op info \<longleftrightarrow> Name info = [] \<or> eff (StackPop info) (stackAfter op info) (executeOp i rn op)"

lemma fits_if: "fits i rn c a \<Longrightarrow> fits i rn op b \<Longrightarrow> fits i rn op (if op = c then a else b)"
  by simp

lemma eff_simple:
  "eff 0 0 stopFrame" "eff 0 0 (ret ())" "eff 0 1 (bind (gets f) pushUint64)" "eff 0 1 (bind (gets f) (\<lambda>p. pushUint64 (g p)))"
  "eff 0 0 (fail ErrInvalidOpcode)" "eff 0 1 (push 0)" "eff 1 0 (bind pop (\<lambda>_. ret ()))"
  unfolding stopFrame_def by (intro eff_rules neutral_rules neutral_modify eff_neutral; simp)+

lemma eff_opLog': "n = k + 2 \<Longrightarrow> eff n 0 (opLog k)"
  by (simp only: eff_opLog)

lemma eff_logs: "eff 2 0 (opLog 0)" "eff 3 0 (opLog 1)" "eff 4 0 (opLog 2)" "eff 5 0 (opLog 3)" "eff 6 0 (opLog 4)"
  by (rule eff_opLog', simp)+

lemmas eff_dups = eff_dup [of 1, simplified] eff_dup [of 2, simplified] eff_dup [of 3, simplified] eff_dup [of 4, simplified]
  eff_dup [of 5, simplified] eff_dup [of 6, simplified] eff_dup [of 7, simplified] eff_dup [of 8, simplified]
  eff_dup [of 9, simplified] eff_dup [of 10, simplified] eff_dup [of 11, simplified] eff_dup [of 12, simplified]
  eff_dup [of 13, simplified] eff_dup [of 14, simplified] eff_dup [of 15, simplified] eff_dup [of 16, simplified]

lemma eff_swap1: "eff 2 2 (on_stack (Stack_Swap 1))"
  using eff_swap [of 1] by (simp add: numeral_2_eq_2)

lemmas eff_swaps = eff_swap1 eff_swap [of 2, simplified] eff_swap [of 3, simplified] eff_swap [of 4, simplified]
  eff_swap [of 5, simplified] eff_swap [of 6, simplified] eff_swap [of 7, simplified] eff_swap [of 8, simplified]
  eff_swap [of 9, simplified] eff_swap [of 10, simplified] eff_swap [of 11, simplified] eff_swap [of 12, simplified]
  eff_swap [of 13, simplified] eff_swap [of 14, simplified] eff_swap [of 15, simplified] eff_swap [of 16, simplified]

lemmas eff_handlers = eff_arith eff_opExp eff_context eff_memory eff_accounts eff_extCodeCopy eff_writers eff_opSelfDestruct eff_opAuth
  eff_jumps eff_opPush eff_calls eff_creates eff_simple eff_logs eff_dups eff_swaps

lemma fits_table:
  assumes "\<And>p c x. i_decapsulate i p c = Inl x \<Longrightarrow> \<not> stackErr x"
  shows "fits i rn op (opcodeInfoTable op)"
  unfolding opcodeInfoTable_def
  apply (rule fits_if, simp add: fits_def stackAfter_def isDupOrSwap_def executeOp_def executeComputeOp_def executeContextOp_def
    executeFrameOp_def pushOps_def eff_handlers [simplified] eff_opKyberDecaps [OF assms, simplified])+
  apply (simp add: fits_def emptyInfo_def)
  done

text \<open>C10: The stack checks of the loop are enough: for every defined opcode, when the stack holds the
  number of items that the table says it pops, and has room for those it pushes, no handler fails
  with a stack underflow, a stack overflow or a bad index, and a handler that succeeds leaves
  exactly the number of items the table predicts. (Decapsulation, which is a parameter, is assumed
  not to return one of these errors.)\<close>

theorem stack_checks_suffice:
  assumes "IsValid op"
    and "StackPop (opcodeInfoTable op) \<le> Stack_Len (env_stack e)"
    and "Stack_Len (env_stack e) - (if isDupOrSwap op then 0 else StackPop (opcodeInfoTable op))
           + StackPush (opcodeInfoTable op) \<le> MaxStackSize"
    and "\<forall>p c x. i_decapsulate i p c = Inl x \<longrightarrow> x \<notin> {ErrStackUnderflow, ErrStackOverflow, ErrInvalidIndex}"
  shows "case executeOp i rn op e of
      (Inl x, _) \<Rightarrow> x \<notin> {ErrStackUnderflow, ErrStackOverflow, ErrInvalidIndex}
    | (Inr _, e') \<Rightarrow> Stack_Len (env_stack e') =
        Stack_Len (env_stack e) - (if isDupOrSwap op then 0 else StackPop (opcodeInfoTable op)) + StackPush (opcodeInfoTable op)"
proof -
  let ?info = "opcodeInfoTable op"
  have "\<And>p c x. i_decapsulate i p c = Inl x \<Longrightarrow> \<not> stackErr x"
    using assms(4) by (simp add: stackErr_def)
  then have "fits i rn op ?info" by (rule fits_table)
  with assms(1) have eff: "eff (StackPop ?info) (stackAfter op ?info) (executeOp i rn op)"
    by (simp add: fits_def IsValid_def)
  let ?b = "length (env_stack e) - StackPop ?info"
  have "length (env_stack e) = ?b + StackPop ?info" "?b + stackAfter op ?info \<le> MaxStackSize"
    using assms(2,3) by (auto simp: Stack_Len_def stackAfter_def)
  from effD [OF eff this] show ?thesis
    using assms(2) by (auto simp: leaves_def stackErr_def Stack_Len_def stackAfter_def split: prod.splits sum.splits)
qed

theorem stack_checks_suffice_witness:
  "case executeOp bareInterpreter stuck op_ADD ((bareFrame [] 100 False)\<lparr>env_stack := [1, 2, 3]\<rparr>) of
      (Inl x, _) \<Rightarrow> x \<notin> {ErrStackUnderflow, ErrStackOverflow, ErrInvalidIndex}
    | (Inr _, e') \<Rightarrow> Stack_Len (env_stack e') = 2"
proof -
  let ?e = "(bareFrame [] 100 False)\<lparr>env_stack := [1, 2, 3]\<rparr>"
  have row: "IsValid op_ADD" "StackPop (opcodeInfoTable op_ADD) = 2" "StackPush (opcodeInfoTable op_ADD) = 1" "\<not> isDupOrSwap op_ADD"
    by (simp_all add: IsValid_def opcodeInfoTable_def isDupOrSwap_def)
  have sum: "3 - 2 + 1 = (2 :: nat)" by simp
  have len: "Stack_Len (env_stack ?e) = 3" by (simp add: Stack_Len_def)
  have decaps: "\<forall>p c x. i_decapsulate bareInterpreter p c = Inl x \<longrightarrow> x \<notin> {ErrStackUnderflow, ErrStackOverflow, ErrInvalidIndex}"
    by (auto simp: bareInterpreter_def)
  have "StackPop (opcodeInfoTable op_ADD) \<le> Stack_Len (env_stack ?e)"
    "Stack_Len (env_stack ?e) - (if isDupOrSwap op_ADD then 0 else StackPop (opcodeInfoTable op_ADD))
       + StackPush (opcodeInfoTable op_ADD) \<le> MaxStackSize"
    by (simp_all only: row len, simp_all add: MaxStackSize_def)
  from stack_checks_suffice [where i = bareInterpreter and rn = stuck, OF row(1) this decaps] show ?thesis
    by (simp only: row len if_False sum)
qed

end
