(* ===== verification/RLP_Encode.thy ===== *)
theory RLP_Encode
  imports Qau_Prelude
begin

text \<open>
  \<open>src/rlp/encode.go\<close>: the encoder of the Recursive Length Prefix format. What the code sees of a Go
  value through \<open>reflect\<close> is the datatype \<open>val\<close>: strings, byte slices and byte arrays are
  byte lists, a struct is the list of its fields with the flag of exported ones, a nil pointer, nil
  interface or invalid value is \<open>VNil\<close>. Types with an \<open>EncodeRLP\<close> method of their own are not
  modelled. The reference is the datatype \<open>rlp\<close> of byte strings and lists with its encoding by the
  rules in the package documentation (\<open>src/rlp/rlp.go\<close>).
\<close>

section \<open>The encoder\<close>

datatype val =
    VBool bool
  | VInt int
  | VUint u64
  | VString "byte list"
  | VBytes "byte list"
  | VByteArray "byte list"
  | VSlice "val list"
  | VArray "val list"
  | VStruct "(bool \<times> val) list"
  | VBigInt int
  | VNil
  | VPtr val
  | VOther

text \<open>\<open>putint\<close> writes into the front of a buffer and returns the size; this is that front.\<close>

definition putintBytes :: "u64 \<Rightarrow> byte list" where
  "putintBytes i =
    (if i < 2 ^ 8 then [ucast i]
     else if i < 2 ^ 16 then [ucast (drop_bit 8 i), ucast i]
     else if i < 2 ^ 24 then [ucast (drop_bit 16 i), ucast (drop_bit 8 i), ucast i]
     else if i < 2 ^ 32 then [ucast (drop_bit 24 i), ucast (drop_bit 16 i), ucast (drop_bit 8 i), ucast i]
     else if i < 2 ^ 40 then [ucast (drop_bit 32 i), ucast (drop_bit 24 i), ucast (drop_bit 16 i), ucast (drop_bit 8 i), ucast i]
     else if i < 2 ^ 48 then [ucast (drop_bit 40 i), ucast (drop_bit 32 i), ucast (drop_bit 24 i), ucast (drop_bit 16 i),
       ucast (drop_bit 8 i), ucast i]
     else if i < 2 ^ 56 then [ucast (drop_bit 48 i), ucast (drop_bit 40 i), ucast (drop_bit 32 i), ucast (drop_bit 24 i),
       ucast (drop_bit 16 i), ucast (drop_bit 8 i), ucast i]
     else [ucast (drop_bit 56 i), ucast (drop_bit 48 i), ucast (drop_bit 40 i), ucast (drop_bit 32 i), ucast (drop_bit 24 i),
       ucast (drop_bit 16 i), ucast (drop_bit 8 i), ucast i])"

definition intsize :: "u64 \<Rightarrow> nat" where
  "intsize i =
    (if i < 2 ^ 8 then 1 else if i < 2 ^ 16 then 2 else if i < 2 ^ 24 then 3 else if i < 2 ^ 32 then 4
     else if i < 2 ^ 40 then 5 else if i < 2 ^ 48 then 6 else if i < 2 ^ 56 then 7 else 8)"

definition encodeStringHeader :: "nat \<Rightarrow> byte list" where
  "encodeStringHeader sz =
    (if sz < 56 then [0x80 + of_nat sz]
     else let sizeBytes = putintBytes (of_nat sz) in (0xB7 + of_nat (length sizeBytes)) # sizeBytes)"

definition encodeListHeader :: "nat \<Rightarrow> byte list" where
  "encodeListHeader sz =
    (if sz < 56 then [0xC0 + of_nat sz]
     else let sizeBytes = putintBytes (of_nat sz) in (0xF7 + of_nat (length sizeBytes)) # sizeBytes)"

definition encodeBytes :: "byte list \<Rightarrow> byte list" where
  "encodeBytes b =
    (if length b = 0 then [0x80]
     else if length b = 1 \<and> b ! 0 < 128 then [b ! 0]
     else encodeStringHeader (length b) @ b)"

definition encodeBool :: "bool \<Rightarrow> byte list" where
  "encodeBool b = (if b then [0x01] else [0x80])"

definition encodeUint :: "u64 \<Rightarrow> byte list" where
  "encodeUint i =
    (if i = 0 then [0x80] else if i < 128 then [ucast i] else encodeBytes (putintBytes i))"

definition encodeInt :: "int \<Rightarrow> byte list res" where
  "encodeInt i =
    (if i < 0 then Inl (Errorf ''rlp: cannot encode negative integer'') else Inr (encodeUint (word_of_int i)))"

definition encodeString :: "byte list \<Rightarrow> byte list" where
  "encodeString s = encodeBytes s"

definition encodeBigInt :: "int \<Rightarrow> byte list res" where
  "encodeBigInt i =
    (if i = 0 then Inr [0x80] else if i < 0 then Inl ErrNegativeBigInt else Inr (encodeBytes (big_Bytes i)))"

text \<open>The loop of \<open>encodeList\<close>: the elements are encoded in order and the first error ends it.\<close>

fun encodeElements :: "byte list res list \<Rightarrow> byte list \<Rightarrow> byte list res" where
  "encodeElements [] content = Inr content"
| "encodeElements (elem # elems) content =
    (case elem of Inl x \<Rightarrow> Inl x | Inr b \<Rightarrow> encodeElements elems (content @ b))"

definition encodeList :: "byte list res list \<Rightarrow> byte list res" where
  "encodeList elems =
    (case encodeElements elems [] of
       Inl x \<Rightarrow> Inl x
     | Inr content \<Rightarrow> Inr (encodeListHeader (length content) @ content))"

definition encodeSlice :: "byte list res list \<Rightarrow> byte list res" where
  "encodeSlice elems = encodeList elems"

definition encodeArray :: "byte list res list \<Rightarrow> byte list res" where
  "encodeArray elems = encodeList elems"

text \<open>The fields, with the flag of exported ones; only these are encoded.\<close>

definition encodeStruct :: "(bool \<times> byte list res) list \<Rightarrow> byte list res" where
  "encodeStruct fields = encodeList (map snd (filter fst fields))"

fun encodeValue :: "val \<Rightarrow> byte list res" where
  "encodeValue VNil = Inr [0x80]"
| "encodeValue (VPtr v) = encodeValue v"
| "encodeValue (VBool b) = Inr (encodeBool b)"
| "encodeValue (VInt i) = encodeInt i"
| "encodeValue (VUint i) = Inr (encodeUint i)"
| "encodeValue (VString s) = Inr (encodeString s)"
| "encodeValue (VBytes b) = Inr (encodeBytes b)"
| "encodeValue (VSlice vs) = encodeSlice (map encodeValue vs)"
| "encodeValue (VByteArray b) = Inr (encodeBytes b)"
| "encodeValue (VArray vs) = encodeArray (map encodeValue vs)"
| "encodeValue (VBigInt i) = encodeBigInt i"
| "encodeValue (VStruct fs) = encodeStruct (map (\<lambda>(exported, v). (exported, encodeValue v)) fs)"
| "encodeValue VOther = Inl ErrUnsupportedType"

definition EncodeToBytes :: "val \<Rightarrow> byte list res" where
  "EncodeToBytes v = encodeValue v"

definition headsize :: "u64 \<Rightarrow> nat" where
  "headsize sz = (if sz < 56 then 1 else 1 + intsize sz)"

definition ListSize :: "u64 \<Rightarrow> u64" where
  "ListSize contentSize = of_nat (headsize contentSize) + contentSize"

definition StringSize :: "byte list \<Rightarrow> u64" where
  "StringSize b =
    (if length b = 0 then 1
     else if length b = 1 \<and> b ! 0 < 128 then 1
     else if length b < 56 then of_nat (1 + length b)
     else of_nat (1 + intsize (of_nat (length b)) + length b))"

definition IntSize :: "u64 \<Rightarrow> nat" where
  "IntSize i = (if i < 128 then 1 else 1 + intsize i)"

section \<open>The format\<close>

datatype rlp = Str "byte list" | Lst "rlp list"

text \<open>The header of a string (offset 0x80) or list (offset 0xC0) with \<open>n\<close> bytes of content.\<close>

definition header :: "byte \<Rightarrow> nat \<Rightarrow> byte list" where
  "header off n =
    (if n < 56 then [off + of_nat n] else (off + 55 + of_nat (length (nat_bytes n))) # nat_bytes n)"

fun rlp_bytes :: "rlp \<Rightarrow> byte list" where
  "rlp_bytes (Str b) = (if length b = 1 \<and> hd b < 0x80 then b else header 0x80 (length b) @ b)"
| "rlp_bytes (Lst xs) = (let content = concat (map rlp_bytes xs) in header 0xC0 (length content) @ content)"

text \<open>The item that stands for a value. Unsigned integers are the shortest big-endian strings.\<close>

fun item :: "val \<Rightarrow> rlp option" where
  "item VNil = Some (Str [])"
| "item (VPtr v) = item v"
| "item (VBool b) = Some (Str (if b then [1] else []))"
| "item (VInt i) = (if i < 0 then None else Some (Str (big_Bytes i)))"
| "item (VUint i) = Some (Str (big_Bytes (uint i)))"
| "item (VString s) = Some (Str s)"
| "item (VBytes b) = Some (Str b)"
| "item (VSlice vs) = map_option Lst (those (map item vs))"
| "item (VByteArray b) = Some (Str b)"
| "item (VArray vs) = map_option Lst (those (map item vs))"
| "item (VBigInt i) = (if i < 0 then None else Some (Str (big_Bytes i)))"
| "item (VStruct fs) = map_option Lst (those (map (\<lambda>(_, v). item v) (filter (\<lambda>(exported, _). exported) fs)))"
| "item VOther = None"

text \<open>The integers of a Go value are 64-bit.\<close>

fun goVal :: "val \<Rightarrow> bool" where
  "goVal (VInt i) \<longleftrightarrow> - (2 ^ 63) \<le> i \<and> i < 2 ^ 63"
| "goVal (VSlice vs) \<longleftrightarrow> list_all goVal vs"
| "goVal (VArray vs) \<longleftrightarrow> list_all goVal vs"
| "goVal (VStruct fs) \<longleftrightarrow> list_all (\<lambda>(_, v). goVal v) fs"
| "goVal (VPtr v) \<longleftrightarrow> goVal v"
| "goVal _ \<longleftrightarrow> True"

section \<open>Shortest big-endian strings\<close>

lemma nat_bytes_eq_Nil [simp]: "nat_bytes n = [] \<longleftrightarrow> n = 0"
  using length_nat_bytes_le [of n 0] by simp

lemma hd_nat_bytes: "0 < n \<Longrightarrow> hd (nat_bytes n) \<noteq> 0"
proof (induction n rule: nat_bytes.induct)
  case (1 n)
  show ?case
  proof (cases "n div 256 = 0")
    case True
    then have "nat_bytes n = [of_nat n]" "n < 256" using 1 by (simp_all add: nat_bytes_pos)
    moreover have "unat (of_nat n :: byte) = n" using \<open>n < 256\<close> by (simp add: unat_of_nat)
    ultimately show ?thesis using 1(2) by (metis list.sel(1) neq0_conv unat_0)
  next
    case False
    then have "nat_bytes (n div 256) \<noteq> []" "hd (nat_bytes (n div 256)) \<noteq> 0" using 1 by simp_all
    with nat_bytes_pos [OF 1(2)] show ?thesis by simp
  qed
qed

lemma nat_bytes_SetBytes: "bs = [] \<or> hd bs \<noteq> 0 \<Longrightarrow> nat_bytes (nat (big_SetBytes bs)) = bs"
proof (induction bs rule: rev_induct)
  case (snoc b bs)
  let ?n = "nat (big_SetBytes bs)"
  have b: "unat b < 256" using unsigned_less [of b] by simp
  have n: "nat (big_SetBytes (bs @ [b])) = ?n * 256 + unat b"
    by (simp add: nat_add_distrib nat_mult_distrib)
  have "0 < ?n * 256 + unat b"
  proof (cases "bs = []")
    case True
    with snoc.prems show ?thesis by (simp add: unat_gt_0)
  next
    case False
    with snoc have "nat_bytes ?n = bs" by simp
    with False have "?n \<noteq> 0" by auto
    then show ?thesis by simp
  qed
  moreover have "nat_bytes ?n = bs" using snoc by (cases "bs = []") simp_all
  ultimately show ?case unfolding n using b by (simp only: nat_bytes_pos) simp
qed simp

lemma arr_bytes_nat_bytes:
  assumes "256 ^ (k - 1) \<le> unat w" "unat w < 256 ^ k" "0 < k"
  shows "arr_bytes k (w :: u64) = nat_bytes (unat w)"
proof (rule big_SetBytes_inj)
  have "\<not> length (nat_bytes (unat w)) \<le> k - 1" "length (nat_bytes (unat w)) \<le> k"
    using assms by (simp_all add: length_nat_bytes_le)
  then show "length (arr_bytes k w) = length (nat_bytes (unat w))" by simp
  have "uint w < 256 ^ k" using assms(2) by (metis of_nat_less_iff of_nat_numeral of_nat_power uint_nat)
  then show "big_SetBytes (arr_bytes k w) = big_SetBytes (nat_bytes (unat w))"
    by (simp add: big_SetBytes_arr_bytes)
qed

lemma putintBytes_nat:
  assumes "0 < i"
  shows "putintBytes i = nat_bytes (unat i)"
proof -
  have pos: "1 \<le> unat i" using assms by (simp add: word_less_nat_alt)
  consider "unat i < 256" | "256 \<le> unat i" "unat i < 65536" | "65536 \<le> unat i" "unat i < 16777216"
    | "16777216 \<le> unat i" "unat i < 4294967296" | "4294967296 \<le> unat i" "unat i < 1099511627776"
    | "1099511627776 \<le> unat i" "unat i < 281474976710656" | "281474976710656 \<le> unat i" "unat i < 72057594037927936"
    | "72057594037927936 \<le> unat i"
    by linarith
  then have "\<exists>k > 0. putintBytes i = arr_bytes k i \<and> 256 ^ (k - 1) \<le> unat i \<and> unat i < 256 ^ k"
  proof cases
    case 1
    then show ?thesis using pos by (intro exI [of _ 1]) (simp add: putintBytes_def word_less_nat_alt arr_bytes_def)
  next
    case 2
    then show ?thesis by (intro exI [of _ 2]) (simp add: putintBytes_def word_less_nat_alt arr_bytes_def upt_rec)
  next
    case 3
    then show ?thesis by (intro exI [of _ 3]) (simp add: putintBytes_def word_less_nat_alt arr_bytes_def upt_rec)
  next
    case 4
    then show ?thesis by (intro exI [of _ 4]) (simp add: putintBytes_def word_less_nat_alt arr_bytes_def upt_rec)
  next
    case 5
    then show ?thesis by (intro exI [of _ 5]) (simp add: putintBytes_def word_less_nat_alt arr_bytes_def upt_rec)
  next
    case 6
    then show ?thesis by (intro exI [of _ 6]) (simp add: putintBytes_def word_less_nat_alt arr_bytes_def upt_rec)
  next
    case 7
    then show ?thesis by (intro exI [of _ 7]) (simp add: putintBytes_def word_less_nat_alt arr_bytes_def upt_rec)
  next
    case 8
    then show ?thesis using unat_u64_bound [of i]
      by (intro exI [of _ 8]) (simp add: putintBytes_def word_less_nat_alt arr_bytes_def upt_rec del: unat_u64_bound)
  qed
  then show ?thesis using arr_bytes_nat_bytes by force
qed

lemma intsize_length: "intsize i = length (putintBytes i)"
  by (simp add: intsize_def putintBytes_def)

section \<open>The encoder follows the format\<close>

lemma encodeHeader:
  assumes "n < 2 ^ 64"
  shows "encodeStringHeader n = header 0x80 n" "encodeListHeader n = header 0xC0 n"
proof -
  have "putintBytes (of_nat n) = nat_bytes n" if "\<not> n < 56"
    using that assms putintBytes_nat [of "of_nat n"] by (simp add: word_less_nat_alt unat_of_nat)
  then show "encodeStringHeader n = header 0x80 n" "encodeListHeader n = header 0xC0 n"
    by (simp_all add: encodeStringHeader_def encodeListHeader_def header_def Let_def)
qed

lemma encodeBytes_rlp: "length b < 2 ^ 64 \<Longrightarrow> encodeBytes b = rlp_bytes (Str b)"
  by (cases b) (auto simp: encodeBytes_def encodeHeader header_def)

lemma nat_bytes_small: "0 < n \<Longrightarrow> n < 256 \<Longrightarrow> nat_bytes n = [of_nat n]"
  by (simp add: nat_bytes_pos)

lemma encodeUint_rlp: "encodeUint i = rlp_bytes (Str (big_Bytes (uint i)))"
proof -
  have bytes: "big_Bytes (uint i) = nat_bytes (unat i)" by (simp add: big_Bytes_def)
  consider "i = 0" | "0 < i" "i < 128" | "128 \<le> i" by (metis not_less word_gt_0)
  then show ?thesis
  proof cases
    case 1
    then show ?thesis by (simp add: encodeUint_def big_Bytes_def header_def)
  next
    case 2
    then have "unat i < 128" "0 < unat i" by (simp_all add: word_less_nat_alt)
    moreover have "(of_nat (unat i) :: byte) = ucast i" by simp
    moreover have "(ucast i :: byte) < 0x80" using \<open>unat i < 128\<close> by (simp add: word_less_nat_alt unsigned_ucast_eq take_bit_eq_mod)
    ultimately show ?thesis using 2 by (simp add: encodeUint_def bytes nat_bytes_small)
  next
    case 3
    then have "0 < i" "\<not> i < 128" "i \<noteq> 0" by (auto simp: word_less_nat_alt word_le_nat_alt)
    moreover have "length (nat_bytes (unat i)) \<le> 8" using unat_u64_bound [of i] by (simp add: length_nat_bytes_le del: unat_u64_bound)
    ultimately show ?thesis by (simp add: encodeUint_def bytes putintBytes_nat encodeBytes_rlp del: rlp_bytes.simps)
  qed
qed

lemma encodeElements_Inr: "encodeElements (map Inr bs) content = Inr (content @ concat bs)"
  by (induction bs arbitrary: content) simp_all

lemma encodeElements_Inl: "Inl x \<in> set elems \<Longrightarrow> \<exists>y. encodeElements elems content = Inl y"
  by (induction elems arbitrary: content) (auto split: sum.split)

lemma those_eq_Some: "those xs = Some ys \<longleftrightarrow> xs = map Some ys"
  by (induction xs arbitrary: ys) (auto split: option.splits simp: map_eq_Cons_conv)

lemma those_eq_None: "those xs = None \<longleftrightarrow> None \<in> set xs"
  by (induction xs) (auto split: option.splits)

text \<open>What the encoder returns for a value whose item is known.\<close>

definition encodesAs :: "byte list res \<Rightarrow> rlp option \<Rightarrow> bool" where
  "encodesAs r it \<longleftrightarrow> (case it of
     None \<Rightarrow> (\<exists>x. r = Inl x)
   | Some t \<Rightarrow> length (rlp_bytes t) < 2 ^ 64 \<longrightarrow> r = Inr (rlp_bytes t))"

lemma length_rlp_Lst: "t \<in> set ts \<Longrightarrow> length (rlp_bytes t) \<le> length (concat (map rlp_bytes ts))"
  by (induction ts) auto

lemma encodeList_items:
  assumes "\<And>v. v \<in> set vs \<Longrightarrow> encodesAs (encodeValue v) (item v)"
  shows "encodesAs (encodeList (map encodeValue vs)) (map_option Lst (those (map item vs)))"
proof (cases "those (map item vs)")
  case None
  then obtain v where "v \<in> set vs" "item v = None" by (auto simp: those_eq_None)
  then obtain x where "encodeValue v = Inl x" using assms [of v] by (auto simp: encodesAs_def)
  with \<open>v \<in> set vs\<close> have "Inl x \<in> set (map encodeValue vs)" by force
  from encodeElements_Inl [OF this, of "[]"] None show ?thesis by (auto simp: encodesAs_def encodeList_def)
next
  case (Some ts)
  then have items: "map item vs = map Some ts" by (simp add: those_eq_Some)
  show ?thesis
  proof (cases "length (rlp_bytes (Lst ts)) < 2 ^ 64")
    case True
    have "map encodeValue vs = map Inr (map rlp_bytes ts)"
    proof (rule nth_equalityI)
      fix k assume k: "k < length (map encodeValue vs)"
      with items have it: "item (vs ! k) = Some (ts ! k)" "k < length ts" by (metis length_map nth_map)+
      moreover have "length (rlp_bytes (ts ! k)) < 2 ^ 64"
        using length_rlp_Lst [of "ts ! k" ts] True it(2) by (simp add: Let_def)
      ultimately show "map encodeValue vs ! k = map Inr (map rlp_bytes ts) ! k"
        using assms [of "vs ! k"] k by (simp add: encodesAs_def)
    qed (use items in \<open>metis length_map\<close>)
    moreover have "length (concat (map rlp_bytes ts)) < 2 ^ 64" using True by (simp add: Let_def)
    ultimately show ?thesis
      by (simp add: Some encodesAs_def encodeList_def encodeElements_Inr encodeHeader Let_def del: map_map)
  qed (simp add: Some encodesAs_def del: rlp_bytes.simps)
qed

lemma encodesAs_Str: "encodesAs (Inr (encodeBytes b)) (Some (Str b))"
proof -
  have "length b \<le> length (rlp_bytes (Str b))" by simp
  then show ?thesis using encodeBytes_rlp [of b] by (auto simp: encodesAs_def simp del: rlp_bytes.simps)
qed

lemma header_0 [simp]: "header off 0 = [off]"
  by (simp add: header_def)

lemma encodeValue_item: "goVal v \<Longrightarrow> encodesAs (encodeValue v) (item v)"
proof (induction v rule: encodeValue.induct)
  case (4 i)
  have "uint (word_of_int i :: u64) = i" if "\<not> i < 0"
    using 4 that by (simp add: uint_word_of_int_eq take_bit_int_eq_self)
  then show ?case by (simp add: encodesAs_def encodeInt_def encodeUint_rlp del: rlp_bytes.simps)
next
  case (5 i)
  then show ?case by (simp add: encodesAs_def encodeUint_rlp del: rlp_bytes.simps)
next
  case (8 vs)
  then show ?case unfolding encodeValue.simps item.simps encodeSlice_def encodeArray_def by (intro encodeList_items) (simp add: list_all_iff)
next
  case (10 vs)
  then show ?case unfolding encodeValue.simps item.simps encodeSlice_def encodeArray_def by (intro encodeList_items) (simp add: list_all_iff)
next
  case (11 i)
  then show ?case using encodesAs_Str [of "big_Bytes i"]
    by (simp add: encodeBigInt_def) (simp add: encodesAs_def big_Bytes_def)
next
  case (12 fs)
  let ?vs = "map snd (filter fst fs)"
  have "encodesAs (encodeList (map encodeValue ?vs)) (map_option Lst (those (map item ?vs)))"
    using 12 by (intro encodeList_items) (fastforce simp: list_all_iff)
  then show ?case by (simp add: encodeStruct_def filter_map case_prod_beta' comp_def)
qed (simp_all add: encodesAs_Str encodeString_def, simp_all add: encodesAs_def encodeBool_def)

section \<open>Sizes\<close>

lemma length_encodeUint: "length (encodeUint i) = IntSize i"
proof -
  have big: "length (encodeBytes (putintBytes i)) = 1 + length (putintBytes i)" if "\<not> i < 128"
  proof -
    have i: "128 \<le> unat i" "0 < i" using that by (auto simp: word_less_nat_alt)
    have "length (nat_bytes (unat i)) \<le> 8" using unat_u64_bound [of i] by (simp add: length_nat_bytes_le del: unat_u64_bound)
    moreover have "nat_bytes (unat i) ! 0 \<ge> 128" if "length (nat_bytes (unat i)) = 1"
    proof -
      have "unat i < 256" using that length_nat_bytes_le [of "unat i" 1] by simp
      then have "nat_bytes (unat i) = [ucast i]" using i by (simp add: nat_bytes_small)
      then show ?thesis using i \<open>unat i < 256\<close> by (simp add: word_le_nat_alt unsigned_ucast_eq take_bit_eq_mod)
    qed
    ultimately show ?thesis using i by (auto simp: putintBytes_nat encodeBytes_def encodeStringHeader_def)
  qed
  have "i = 0 \<Longrightarrow> i < 128" by simp
  then show ?thesis using big by (auto simp: encodeUint_def IntSize_def intsize_length)
qed

lemma length_putintBytes: "length (putintBytes w) \<le> 8"
  by (simp add: putintBytes_def)

lemma unat_of_nat64: "n < 18446744073709551616 \<Longrightarrow> unat (of_nat n :: u64) = n"
  by (simp add: unat_of_nat)

lemma length_encodeBytes:
  assumes "length b + 9 < 2 ^ 64"
  shows "length (encodeBytes b) = unat (StringSize b)"
  using assms length_putintBytes [of "of_nat (length b)"]
  by (simp add: encodeBytes_def StringSize_def encodeStringHeader_def Let_def intsize_length unat_of_nat64 flip: of_nat_Suc of_nat_add)

lemma length_encodeList:
  assumes "length content + 9 < 2 ^ 64"
  shows "length (encodeListHeader (length content) @ content) = unat (ListSize (of_nat (length content)))"
proof -
  have "unat (of_nat (length content) :: u64) = length content" using assms by (simp add: unat_of_nat64)
  then show ?thesis
    using assms length_putintBytes [of "of_nat (length content)"]
    by (simp add: encodeListHeader_def ListSize_def headsize_def Let_def intsize_length word_less_nat_alt unat_of_nat64
        flip: of_nat_Suc of_nat_add)
qed

section \<open>Properties\<close>



end
