(* ===== verification/RLP_Stream.thy ===== *)
theory RLP_Stream
  imports RLP_Encode
begin

text \<open>
  \<open>src/rlp/decode.go\<close>: the streaming decoder. A \<open>Stream\<close> reads from a byte reader, which is the list
  of the bytes still to come; the stack of open lists keeps, for each of them, the bytes that are left
  in it, innermost last as in the slice. \<open>decodeValue\<close> decodes into a fresh variable of a type that
  \<open>rtype\<close> describes as \<open>reflect\<close> shows it; types with a \<open>DecodeRLP\<close> method of their own are not modelled.
  The field \<open>kind\<close>, -1 when no header is cached, is an option.
\<close>

unbundle bit_operations_syntax

section \<open>The stream\<close>

definition maxNestingDepth :: nat where "maxNestingDepth = 64"
definition maxSliceElements :: nat where "maxSliceElements = 1048576"
definition maxStringSize :: u64 where "maxStringSize = 16777216"
definition maxRLPSize :: u64 where "maxRLPSize = 10485760"
definition maxTotalDecodeMemory :: u64 where "maxTotalDecodeMemory = 33554432"
definition maxBytesCalls :: nat where "maxBytesCalls = 10000"

datatype Kind = KByte | KString | KList

record Stream =
  s_r :: "byte list"
  s_buf :: "byte list"
  s_byteval :: byte
  s_kind :: "Kind option"
  s_size :: u64
  s_kinderr :: "qerr option"
  s_stack :: "u64 list"
  s_limited :: bool
  s_limit :: u64
  s_totalDecoded :: u64
  s_callCount :: nat

definition NewStream :: "byte list \<Rightarrow> u64 \<Rightarrow> Stream" where
  "NewStream r inputLimit =
    \<lparr>s_r = r, s_buf = [], s_byteval = 0, s_kind = None, s_size = 0, s_kinderr = None, s_stack = [],
     s_limited = inputLimit > 0, s_limit = inputLimit, s_totalDecoded = 0, s_callCount = 0\<rparr>"

definition readByte :: "(Stream, byte) op" where
  "readByte = (\<lambda>s.
    if s_stack s \<noteq> [] \<and> last (s_stack s) = 0 then (Inl EOL, s)
    else if s_limited s \<and> s_limit s = 0 then (Inl EOF, s)
    else case s_r s of
      [] \<Rightarrow> (Inl EOF, s)
    | b # r \<Rightarrow> (Inr b, s\<lparr>s_r := r, s_stack := map (\<lambda>x. x - 1) (s_stack s),
        s_limit := (if s_limited s then s_limit s - 1 else s_limit s)\<rparr>))"

text \<open>\<open>io.ReadFull\<close>: what it read, and what is left in the reader.\<close>

definition io_ReadFull :: "nat \<Rightarrow> byte list \<Rightarrow> byte list res \<times> byte list" where
  "io_ReadFull n r =
    (if n = 0 then (Inr [], r)
     else if r = [] then (Inl EOF, r)
     else if length r < n then (Inl ErrUnexpectedEOF, [])
     else (Inr (take n r), drop n r))"

definition readFull :: "u64 \<Rightarrow> (Stream, byte list) op" where
  "readFull n = (\<lambda>s.
    if s_stack s \<noteq> [] \<and> n > last (s_stack s) then (Inl ErrElemTooLarge, s)
    else if s_limited s \<and> n > s_limit s then (Inl ErrUnexpectedEOF, s)
    else case io_ReadFull (unat n) (s_r s) of
      (Inl x, r) \<Rightarrow> (Inl x, s\<lparr>s_r := r\<rparr>)
    | (Inr b, r) \<Rightarrow> (Inr b, s\<lparr>s_r := r, s_stack := map (\<lambda>x. x - n) (s_stack s),
        s_limit := (if s_limited s then s_limit s - n else s_limit s)\<rparr>))"

definition readSize :: "byte \<Rightarrow> (Stream, u64) op" where
  "readSize sizeBytes =
    (if sizeBytes = 0 then fail (Errorf ''rlp: invalid sizeBytes=0'')
     else if sizeBytes > 8 then fail (Errorf ''rlp: sizeBytes exceeds uint64 maximum of 8'')
     else bind (readFull (ucast sizeBytes)) (\<lambda>b.
       bind (modify (\<lambda>s. s\<lparr>s_buf := s_buf s @ b\<rparr>)) (\<lambda>_.
       if b ! 0 = 0 then fail ErrCanonicalSize
       else ret (foldl (\<lambda>sz x. push_bit 8 sz OR ucast x) 0 b))))"

text \<open>The long forms of strings and lists differ only in the kind they return.\<close>

definition readLong :: "Kind \<Rightarrow> byte \<Rightarrow> (Stream, Kind \<times> u64) op" where
  "readLong k sizeBytes = bind (readSize sizeBytes) (\<lambda>sz.
     if sz < 56 then fail ErrCanonicalSize
     else if sz > maxRLPSize then fail ErrValueTooLarge
     else ret (k, sz))"

definition readKind :: "(Stream, Kind \<times> u64) op" where
  "readKind = catch readByte
    (\<lambda>x. bind (gets s_stack) (\<lambda>st. if st \<noteq> [] \<and> x = EOF then fail ErrUnexpectedEOF else fail x))
    (\<lambda>b. bind (modify (\<lambda>s. s\<lparr>s_buf := [b]\<rparr>)) (\<lambda>_.
      if b < 0x80 then bind (modify (\<lambda>s. s\<lparr>s_byteval := b\<rparr>)) (\<lambda>_. ret (KByte, 0))
      else if b < 0xB8 then ret (KString, ucast (b - 0x80))
      else if b < 0xC0 then readLong KString (b - 0xB7)
      else if b < 0xF8 then ret (KList, ucast (b - 0xC0))
      else readLong KList (b - 0xF7)))"

text \<open>\<open>Kind\<close>: the header is read once; an error is cached with kind 0, \<open>Byte\<close>.\<close>

definition Stream_Kind :: "(Stream, Kind \<times> u64) op" where
  "Stream_Kind = (\<lambda>s. case s_kind s of
      Some k \<Rightarrow> (case s_kinderr s of None \<Rightarrow> (Inr (k, s_size s), s) | Some x \<Rightarrow> (Inl x, s))
    | None \<Rightarrow> (case readKind s of
        (Inl x, s) \<Rightarrow> (Inl x, s\<lparr>s_kind := Some KByte, s_size := 0, s_kinderr := Some x\<rparr>)
      | (Inr (k, sz), s) \<Rightarrow> (Inr (k, sz), s\<lparr>s_kind := Some k, s_size := sz, s_kinderr := None\<rparr>)))"

definition rearm :: "(Stream, unit) op" where
  "rearm = modify (\<lambda>s. s\<lparr>s_kind := None\<rparr>)"

definition countDecoded :: "u64 \<Rightarrow> (Stream, unit) op" where
  "countDecoded sz = bind (gets s_totalDecoded) (\<lambda>total.
     if total + sz > maxTotalDecodeMemory then fail (Errorf ''rlp: total decoded memory exceeds budget'')
     else modify (\<lambda>s. s\<lparr>s_totalDecoded := s_totalDecoded s + sz\<rparr>))"

definition Stream_Bytes :: "(Stream, byte list) op" where
  "Stream_Bytes = bind (modify (\<lambda>s. s\<lparr>s_callCount := s_callCount s + 1\<rparr>)) (\<lambda>_.
     bind (gets s_callCount) (\<lambda>callCount.
     if callCount > maxBytesCalls then fail (Errorf ''rlp: number of Bytes() calls exceeds limit'')
     else bind Stream_Kind (\<lambda>(kind, sz). case kind of
       KByte \<Rightarrow> bind rearm (\<lambda>_. bind (gets s_byteval) (\<lambda>b. ret [b]))
     | KString \<Rightarrow>
         if sz > maxStringSize then fail (Errorf ''rlp: string size exceeds limit'')
         else bind (countDecoded sz) (\<lambda>_. bind (readFull sz) (\<lambda>b. bind rearm (\<lambda>_.
           if sz = 1 \<and> b ! 0 < 0x80 then fail ErrCanonicalSize else ret b)))
     | KList \<Rightarrow> fail ErrExpectedString)))"

definition readBuf :: "(Stream, byte list) op" where
  "readBuf = bind (gets s_buf) (\<lambda>b. bind (modify (\<lambda>s. s\<lparr>s_buf := []\<rparr>)) (\<lambda>_. ret b))"

definition Stream_Raw :: "(Stream, byte list) op" where
  "Stream_Raw = bind Stream_Kind (\<lambda>(kind, sz).
     if kind = KByte then bind rearm (\<lambda>_. bind (gets s_byteval) (\<lambda>b. ret [b]))
     else bind readBuf (\<lambda>start.
       if sz > maxStringSize then fail (Errorf ''rlp: string size exceeds limit'')
       else bind (countDecoded sz) (\<lambda>_. bind (readFull sz) (\<lambda>content. bind rearm (\<lambda>_.
         if sz = 1 \<and> content ! 0 < 0x80 then fail ErrCanonicalSize else ret (start @ content))))))"

definition Stream_uint :: "nat \<Rightarrow> (Stream, u64) op" where
  "Stream_uint maxbits = bind Stream_Kind (\<lambda>(kind, sz). case kind of
       KByte \<Rightarrow> bind rearm (\<lambda>_. bind (gets s_byteval) (\<lambda>b. if b = 0 then fail ErrCanonicalInt else ret (ucast b)))
     | KString \<Rightarrow>
         if sz > of_nat (maxbits div 8) then fail ErrValueTooLarge
         else bind (countDecoded sz) (\<lambda>_. bind (readFull sz) (\<lambda>b. bind rearm (\<lambda>_.
           if sz > 0 \<and> b ! 0 = 0 then fail ErrCanonicalInt
           else if sz = 1 \<and> b ! 0 < 0x80 then fail ErrCanonicalInt
           else ret (foldl (\<lambda>v x. push_bit 8 v OR ucast x) 0 b))))
     | KList \<Rightarrow> fail ErrExpectedString)"

definition Stream_Uint :: "(Stream, u64) op" where
  "Stream_Uint = Stream_uint 64"

definition Stream_Bool :: "(Stream, bool) op" where
  "Stream_Bool = bind (Stream_uint 8) (\<lambda>num.
     if num = 0 then ret False else if num = 1 then ret True else fail (Errorf ''rlp: invalid boolean value''))"

definition Stream_BigInt :: "(Stream, int) op" where
  "Stream_BigInt = bind Stream_Kind (\<lambda>_. bind Stream_Bytes (\<lambda>b.
     if length b > 0 \<and> b ! 0 = 0 then fail ErrCanonicalInt else ret (big_SetBytes b)))"

definition Stream_List :: "(Stream, u64) op" where
  "Stream_List = bind (gets s_stack) (\<lambda>st.
     if length st \<ge> maxNestingDepth then fail (Errorf ''rlp: nesting depth limit exceeded'')
     else bind Stream_Kind (\<lambda>(kind, sz).
       if kind \<noteq> KList then fail ErrExpectedList
       else bind (gets s_stack) (\<lambda>st.
         if st \<noteq> [] \<and> sz > last st then fail (Errorf ''rlp: child list size exceeds parent remaining'')
         else bind (modify (\<lambda>s. s\<lparr>s_stack := s_stack s @ [sz], s_kind := None\<rparr>)) (\<lambda>_. ret sz))))"

definition Stream_ListEnd :: "(Stream, unit) op" where
  "Stream_ListEnd = bind (gets s_stack) (\<lambda>st.
     if st = [] then fail (Errorf ''rlp: no list to end'')
     else bind (modify (\<lambda>s. s\<lparr>s_stack := butlast st\<rparr>)) (\<lambda>_.
       if last st > 0 then fail (Errorf ''rlp: bytes remaining in list'')
       else modify (\<lambda>s. s\<lparr>s_kind := None, s_kinderr := None\<rparr>)))"

section \<open>Decoding into typed variables\<close>

text \<open>The types, with the width of an integer type in bits (\<open>int\<close> and \<open>uint\<close> have 64).\<close>

datatype rtype =
    TBool
  | TInt nat
  | TUint nat
  | TString
  | TBytes
  | TByteArray nat
  | TSlice rtype
  | TArray nat rtype
  | TStruct "(bool \<times> rtype) list"
  | TBigInt
  | TPtr rtype
  | TInterface
  | TOther

fun zeroValue :: "rtype \<Rightarrow> val" where
  "zeroValue TBool = VBool False"
| "zeroValue (TInt _) = VInt 0"
| "zeroValue (TUint _) = VUint 0"
| "zeroValue TString = VString []"
| "zeroValue TBytes = VBytes []"
| "zeroValue (TByteArray n) = VByteArray (replicate n 0)"
| "zeroValue (TSlice _) = VSlice []"
| "zeroValue (TArray n t) = VArray (replicate n (zeroValue t))"
| "zeroValue (TStruct fs) = VStruct (map (\<lambda>(exported, t). (exported, zeroValue t)) fs)"
| "zeroValue TBigInt = VBigInt 0"
| "zeroValue (TPtr _) = VNil"
| "zeroValue TInterface = VNil"
| "zeroValue TOther = VOther"

definition maxInt :: "nat \<Rightarrow> u64" where
  "maxInt bits = (if bits = 8 then 127 else if bits = 16 then 32767 else if bits = 32 then 2147483647
     else 9223372036854775807)"

definition maxUint :: "nat \<Rightarrow> u64" where
  "maxUint bits = (if bits = 8 then 255 else if bits = 16 then 65535 else if bits = 32 then 4294967295
     else 18446744073709551615)"

definition decodeByteArray :: "nat \<Rightarrow> (Stream, val) op" where
  "decodeByteArray arrayLen = bind Stream_Kind (\<lambda>(kind, sz). case kind of
       KByte \<Rightarrow>
         if arrayLen = 0 then fail (Errorf ''rlp: cannot decode byte into zero-length array'')
         else bind rearm (\<lambda>_. bind (gets s_byteval) (\<lambda>b. ret (VByteArray (b # replicate (arrayLen - 1) 0))))
     | KString \<Rightarrow>
         if of_nat arrayLen < sz then fail (Errorf ''rlp: input string too long for array'')
         else bind (readFull sz) (\<lambda>b. bind rearm (\<lambda>_.
           if sz > 9223372036854775807 then fail ErrValueTooLarge
           else ret (VByteArray (b @ replicate (arrayLen - unat sz) 0))))
     | KList \<Rightarrow> fail ErrExpectedString)"

text \<open>The loop of \<open>decodeSlice\<close>, over the decoder of the element type.\<close>

function decodeElems :: "(Stream, val) op \<Rightarrow> val list \<Rightarrow> (Stream, val list) op" where
  "decodeElems dec elems =
    (if length elems \<ge> maxSliceElements then fail (Errorf ''rlp: slice element count exceeds limit'')
     else catch dec (\<lambda>x. if x = EOL then ret elems else fail x) (\<lambda>v. decodeElems dec (elems @ [v])))"
  by pat_completeness auto
termination by (relation "measure (\<lambda>(_, elems). maxSliceElements - length elems)") auto

declare decodeElems.simps [simp del]

fun decodeArrayElems :: "(Stream, val) op \<Rightarrow> val \<Rightarrow> nat \<Rightarrow> (Stream, val list) op" where
  "decodeArrayElems dec zero 0 = ret []"
| "decodeArrayElems dec zero (Suc n) =
    catch dec (\<lambda>x. if x = EOL then ret (replicate (Suc n) zero) else fail x)
      (\<lambda>v. bind (decodeArrayElems dec zero n) (\<lambda>vs. ret (v # vs)))"

text \<open>The fields of a struct: the flag of exported ones, the decoder, the zero value.\<close>

fun decodeFields :: "(bool \<times> (Stream, val) op \<times> val) list \<Rightarrow> (Stream, (bool \<times> val) list) op" where
  "decodeFields [] = ret []"
| "decodeFields ((exported, dec, zero) # fs) =
    (if \<not> exported then bind (decodeFields fs) (\<lambda>vs. ret ((False, zero) # vs))
     else catch dec
       (\<lambda>x. if x = EOL then ret ((True, zero) # map (\<lambda>(exported, _, zero). (exported, zero)) fs) else fail x)
       (\<lambda>v. bind (decodeFields fs) (\<lambda>vs. ret ((True, v) # vs))))"

definition decodeSlice :: "(Stream, val) op \<Rightarrow> (Stream, val) op" where
  "decodeSlice dec = bind Stream_List (\<lambda>_. bind (decodeElems dec []) (\<lambda>elems.
     bind Stream_ListEnd (\<lambda>_. ret (VSlice elems))))"

definition decodeArray :: "(Stream, val) op \<Rightarrow> val \<Rightarrow> nat \<Rightarrow> (Stream, val) op" where
  "decodeArray dec zero n = bind Stream_List (\<lambda>_. bind (decodeArrayElems dec zero n) (\<lambda>vs.
     bind Stream_ListEnd (\<lambda>_. ret (VArray vs))))"

definition decodeStruct :: "(bool \<times> (Stream, val) op \<times> val) list \<Rightarrow> (Stream, val) op" where
  "decodeStruct fs = bind Stream_List (\<lambda>_. bind (decodeFields fs) (\<lambda>vs.
     bind Stream_ListEnd (\<lambda>_. ret (VStruct vs))))"

definition decodePtr :: "(Stream, val) op \<Rightarrow> (Stream, val) op" where
  "decodePtr dec = bind Stream_Kind (\<lambda>(kind, sz).
     if kind = KString \<and> sz = 0 then bind rearm (\<lambda>_. ret VNil)
     else bind dec (\<lambda>v. ret (VPtr v)))"

definition decodeInterface :: "(Stream, val) op" where
  "decodeInterface = bind Stream_Raw (\<lambda>b. ret (VBytes b))"

fun decodeValue :: "rtype \<Rightarrow> (Stream, val) op" where
  "decodeValue TBool = bind Stream_Bool (\<lambda>b. ret (VBool b))"
| "decodeValue (TInt bits) = bind Stream_Uint (\<lambda>i.
     if i > maxInt bits then fail ErrValueTooLarge else ret (VInt (uint i)))"
| "decodeValue (TUint bits) = bind Stream_Uint (\<lambda>i.
     if i > maxUint bits then fail ErrValueTooLarge else ret (VUint i))"
| "decodeValue TString = bind Stream_Bytes (\<lambda>b. ret (VString b))"
| "decodeValue TBytes = bind Stream_Bytes (\<lambda>b. ret (VBytes b))"
| "decodeValue (TSlice t) = decodeSlice (decodeValue t)"
| "decodeValue (TByteArray n) = decodeByteArray n"
| "decodeValue (TArray n t) = decodeArray (decodeValue t) (zeroValue t) n"
| "decodeValue TBigInt = bind Stream_BigInt (\<lambda>i. ret (VBigInt i))"
| "decodeValue (TStruct fs) = decodeStruct (map (\<lambda>(exported, t). (exported, decodeValue t, zeroValue t)) fs)"
| "decodeValue (TPtr t) = decodePtr (decodeValue t)"
| "decodeValue TInterface = decodeInterface"
| "decodeValue TOther = fail (Errorf ''rlp: cannot decode'')"

definition DecodeBytes :: "byte list \<Rightarrow> rtype \<Rightarrow> val res" where
  "DecodeBytes b t =
    (if ulen b > maxRLPSize then Inl (Errorf ''rlp: input size exceeds maximum'')
     else case decodeValue t ((NewStream b (ulen b))\<lparr>s_limited := True\<rparr>) of
       (Inl x, _) \<Rightarrow> Inl x
     | (Inr v, s) \<Rightarrow> if s_r s \<noteq> [] then Inl ErrMoreThanOneValue else Inr v)"

definition Decode :: "byte list \<Rightarrow> rtype \<Rightarrow> val res" where
  "Decode r t = fst (decodeValue t (NewStream r maxRLPSize))"

section \<open>Counters\<close>

text \<open>The counters of the open lists: what is left in a list is at most what is left in the list around
  it. Every step keeps this, so a read that fits the innermost list fits them all.\<close>

definition nested :: "Stream \<Rightarrow> bool" where
  "nested s \<longleftrightarrow> sorted_wrt (\<lambda>x y. y \<le> x) (s_stack s)"

lemma nested_last: "nested s \<Longrightarrow> x \<in> set (s_stack s) \<Longrightarrow> last (s_stack s) \<le> x"
proof -
  assume "nested s" "x \<in> set (s_stack s)"
  then show ?thesis
    unfolding nested_def by (cases "s_stack s" rule: rev_cases) (auto simp: sorted_wrt_append)
qed

lemma sorted_wrt_minus:
  assumes "sorted_wrt (\<lambda>x y. y \<le> x) xs" "\<And>x. x \<in> set xs \<Longrightarrow> n \<le> x"
  shows "sorted_wrt (\<lambda>x y. y \<le> x) (map (\<lambda>x. x - n :: u64) xs)"
  using assms
proof (induction xs)
  case (Cons x xs)
  have "y - n \<le> x - n" if "y \<in> set xs" for y
    using that Cons.prems by (simp add: word_le_nat_alt unat_sub64 diff_le_mono)
  with Cons show ?case by simp
qed simp

interpretation counters: step_rel "\<lambda>s s'. nested s \<longrightarrow> nested s'" "\<lambda>_. ()"
  by unfold_locales auto

lemma word_ge_1: "x \<noteq> 0 \<Longrightarrow> 1 \<le> (x :: u64)"
  by (simp add: word_le_nat_alt unat_gt_0 Suc_le_eq)

lemma nested_readByte: "counters.keeps P readByte"
proof (rule counters.keepsI)
  fix s
  have "sorted_wrt (\<lambda>x y. y \<le> x) (map (\<lambda>x. x - 1) (s_stack s))"
    if "nested s" "s_stack s = [] \<or> last (s_stack s) \<noteq> 0"
    using that nested_last [OF that(1)]
    by (cases "s_stack s = []") (auto intro!: sorted_wrt_minus intro: order_trans [OF word_ge_1] simp: nested_def)
  then show "nested s \<longrightarrow> nested (snd (readByte s))"
    by (auto simp: readByte_def nested_def split: list.split)
qed

lemma nested_readFull: "counters.keeps P (readFull n)"
proof (rule counters.keepsI)
  fix s
  have "sorted_wrt (\<lambda>x y. y \<le> x) (map (\<lambda>x. x - n) (s_stack s))"
    if "nested s" "s_stack s = [] \<or> \<not> n > last (s_stack s)"
    using that nested_last [OF that(1)]
    by (cases "s_stack s = []") (auto intro!: sorted_wrt_minus intro: order_trans simp: nested_def not_less)
  then show "nested s \<longrightarrow> nested (snd (readFull n s))"
    by (auto simp: readFull_def nested_def split: prod.split sum.split)
qed

lemma nested_modify: "(\<And>s. s_stack (f s) = s_stack s) \<Longrightarrow> counters.keeps P (modify f)"
  by (rule counters.keepsI) (simp add: modify_def nested_def)

lemma nested_readKind: "counters.keeps P readKind"
  unfolding readKind_def readLong_def readSize_def
  by (intro counters.keeps_rules nested_readByte nested_readFull nested_modify; simp)

lemma nested_Kind: "counters.keeps P Stream_Kind"
proof (rule counters.keepsI)
  fix s
  from counters.keepsD [OF nested_readKind, of "\<lambda>_. True" s]
  show "nested s \<longrightarrow> nested (snd (Stream_Kind s))"
    by (auto simp: Stream_Kind_def nested_def split: option.split prod.split sum.split)
qed

lemma nested_Kind_case: "counters.keeps P (m a b) \<Longrightarrow> counters.keeps P (case (a, b) of (x, y) \<Rightarrow> m x y)"
  by simp

lemma nested_case_Kind:
  "counters.keeps P a \<Longrightarrow> counters.keeps P b \<Longrightarrow> counters.keeps P c \<Longrightarrow>
   counters.keeps P (case k of KByte \<Rightarrow> a | KString \<Rightarrow> b | KList \<Rightarrow> c)"
  by (cases k) simp_all

lemmas nested_rules = counters.keeps_rules nested_case_Kind nested_Kind nested_readFull nested_modify

lemma nested_strings:
  "counters.keeps P Stream_Bytes" "counters.keeps P Stream_Raw" "counters.keeps P (Stream_uint k)"
  "counters.keeps P (decodeByteArray n)"
  unfolding Stream_Bytes_def Stream_Raw_def Stream_uint_def decodeByteArray_def rearm_def countDecoded_def readBuf_def
  by (intro nested_rules; simp)+

lemma nested_numbers: "counters.keeps P Stream_Uint" "counters.keeps P Stream_Bool" "counters.keeps P Stream_BigInt"
  unfolding Stream_Uint_def Stream_Bool_def Stream_BigInt_def by (intro nested_rules nested_strings)+

lemma nested_List: "counters.keeps P Stream_List"
proof (rule counters.keepsI)
  fix s
  have kind: "nested s \<longrightarrow> nested (snd (Stream_Kind s))"
    using counters.keepsD [OF nested_Kind, of "\<lambda>_. True" s] by simp
  have push: "sorted_wrt (\<lambda>x y. y \<le> x) (st @ [sz])"
    if "sorted_wrt (\<lambda>x y. y \<le> x) st" "st = [] \<or> sz \<le> last st" for st and sz :: u64
    using that by (cases st rule: rev_cases) (auto simp: sorted_wrt_append intro: order_trans)
  show "nested s \<longrightarrow> nested (snd (Stream_List s))"
    using kind
    by (auto simp: Stream_List_def op_simps nested_def not_less intro!: push split: prod.split sum.split)
qed

lemma nested_ListEnd: "counters.keeps P Stream_ListEnd"
proof (rule counters.keepsI)
  fix s
  show "nested s \<longrightarrow> nested (snd (Stream_ListEnd s))"
    by (cases "s_stack s" rule: rev_cases)
      (auto simp: Stream_ListEnd_def op_simps nested_def sorted_wrt_append)
qed

lemma nested_decodeElems: "counters.keeps P dec \<Longrightarrow> counters.keeps P (decodeElems dec elems)"
proof (induction dec elems rule: decodeElems.induct)
  case (1 dec elems)
  show ?case by (subst decodeElems.simps) (intro nested_rules 1)
qed

lemma nested_decodeArrayElems: "counters.keeps P dec \<Longrightarrow> counters.keeps P (decodeArrayElems dec zero n)"
  by (induction n) (auto intro!: nested_rules)

lemma nested_decodeFields: "(\<And>f. f \<in> set fs \<Longrightarrow> counters.keeps P (fst (snd f))) \<Longrightarrow> counters.keeps P (decodeFields fs)"
proof (induction fs rule: decodeFields.induct)
  case (2 exported dec zero fs)
  then have "counters.keeps P dec" "counters.keeps P (decodeFields fs)" by (cases exported; force)+
  then show ?case unfolding decodeFields.simps by (intro nested_rules)
qed (simp add: counters.keeps_ret)

lemma nested_decodeValue: "counters.keeps P (decodeValue t)"
proof (induction t rule: decodeValue.induct)
  case (6 t)
  then show ?case unfolding decodeValue.simps decodeSlice_def
    by (intro nested_rules nested_List nested_ListEnd nested_decodeElems)
next
  case (8 n t)
  then show ?case unfolding decodeValue.simps decodeArray_def
    by (intro nested_rules nested_List nested_ListEnd nested_decodeArrayElems)
next
  case (10 fs)
  then have "counters.keeps P (decodeFields (map (\<lambda>(exported, t). (exported, decodeValue t, zeroValue t)) fs))"
    by (intro nested_decodeFields) force
  then show ?case unfolding decodeValue.simps decodeStruct_def
    by (intro nested_rules nested_List nested_ListEnd)
next
  case (11 t)
  then show ?case unfolding decodeValue.simps decodePtr_def rearm_def
    by (intro nested_rules; simp)
qed (auto intro!: nested_rules nested_strings nested_numbers simp: decodeInterface_def)

text \<open>The streams a client can have: a new one, and what the exported methods make of it.\<close>

inductive reachable :: "Stream \<Rightarrow> bool" where
  new: "reachable (NewStream r inputLimit)"
| limited: "reachable ((NewStream r inputLimit)\<lparr>s_limited := True\<rparr>)"
| Kind: "reachable s \<Longrightarrow> reachable (snd (Stream_Kind s))"
| Bytes: "reachable s \<Longrightarrow> reachable (snd (Stream_Bytes s))"
| Raw: "reachable s \<Longrightarrow> reachable (snd (Stream_Raw s))"
| Uint: "reachable s \<Longrightarrow> reachable (snd (Stream_Uint s))"
| Bool: "reachable s \<Longrightarrow> reachable (snd (Stream_Bool s))"
| BigInt: "reachable s \<Longrightarrow> reachable (snd (Stream_BigInt s))"
| List: "reachable s \<Longrightarrow> reachable (snd (Stream_List s))"
| ListEnd: "reachable s \<Longrightarrow> reachable (snd (Stream_ListEnd s))"
| Decode: "reachable s \<Longrightarrow> reachable (snd (decodeValue t s))"

lemmas nested_methods = nested_Kind nested_strings nested_numbers nested_List nested_ListEnd nested_decodeValue

lemma reachable_nested: "reachable s \<Longrightarrow> nested s"
proof (induction rule: reachable.induct)
  case (Kind s) then show ?case using counters.keepsD [OF nested_Kind, of "\<lambda>_. True"] by simp
next
  case (Bytes s) then show ?case using counters.keepsD [OF nested_strings(1), of "\<lambda>_. True"] by simp
next
  case (Raw s) then show ?case using counters.keepsD [OF nested_strings(2), of "\<lambda>_. True"] by simp
next
  case (Uint s) then show ?case using counters.keepsD [OF nested_numbers(1), of "\<lambda>_. True"] by simp
next
  case (Bool s) then show ?case using counters.keepsD [OF nested_numbers(2), of "\<lambda>_. True"] by simp
next
  case (BigInt s) then show ?case using counters.keepsD [OF nested_numbers(3), of "\<lambda>_. True"] by simp
next
  case (List s) then show ?case using counters.keepsD [OF nested_List, of "\<lambda>_. True"] by simp
next
  case (ListEnd s) then show ?case using counters.keepsD [OF nested_ListEnd, of "\<lambda>_. True"] by simp
next
  case (Decode s t) then show ?case using counters.keepsD [OF nested_decodeValue, of "\<lambda>_. True"] by simp
qed (simp_all add: nested_def NewStream_def)

lemma map_unat_minus:
  assumes "\<And>x. x \<in> set xs \<Longrightarrow> n \<le> x"
  shows "map unat (map (\<lambda>x. x - n :: u64) xs) = map (\<lambda>x. unat x - unat n) xs"
  using assms by (simp add: unat_sub64)

lemma readByte_Inr:
  assumes "nested s" "readByte s = (Inr b, s')"
  shows "\<forall>x \<in> set (s_stack s). 1 \<le> x" "s_stack s' = map (\<lambda>x. x - 1) (s_stack s)"
proof -
  from assms(2) show "s_stack s' = map (\<lambda>x. x - 1) (s_stack s)"
    by (auto simp: readByte_def split: if_splits list.splits)
  from assms(2) have "s_stack s = [] \<or> last (s_stack s) \<noteq> 0" by (auto simp: readByte_def split: if_splits)
  then show "\<forall>x \<in> set (s_stack s). 1 \<le> x"
    using nested_last [OF assms(1)] by (auto intro: order_trans [OF word_ge_1])
qed

lemma readFull_Inr:
  assumes "nested s" "readFull n s = (Inr bs, s')"
  shows "\<forall>x \<in> set (s_stack s). n \<le> x" "s_stack s' = map (\<lambda>x. x - n) (s_stack s)" "length bs = unat n"
proof -
  from assms(2) show "s_stack s' = map (\<lambda>x. x - n) (s_stack s)" "length bs = unat n"
    by (auto simp: readFull_def io_ReadFull_def split: if_splits prod.splits sum.splits)
  from assms(2) have "s_stack s = [] \<or> n \<le> last (s_stack s)" by (auto simp: readFull_def split: if_splits)
  then show "\<forall>x \<in> set (s_stack s). n \<le> x"
    using nested_last [OF assms(1)] by (auto intro: order_trans)
qed

section \<open>Properties\<close>

text \<open>C14: The counters of the open lists never wrap around. In every state a client can bring a stream
  to, by any sequence of its methods and whatever the input, a read that succeeds takes no more
  bytes than are left in any open list and reduces every counter by exactly that number, and what
  is left in a list is never more than what is left in the list around it.\<close>

theorem counters_never_wrap:
  assumes "reachable s"
  shows "sorted_wrt (\<lambda>x y. y \<le> x) (s_stack s) \<and>
    (\<forall>b s'. readByte s = (Inr b, s') \<longrightarrow>
       (\<forall>x \<in> set (s_stack s). 1 \<le> unat x) \<and> map unat (s_stack s') = map (\<lambda>x. unat x - 1) (s_stack s)) \<and>
    (\<forall>n bs s'. readFull n s = (Inr bs, s') \<longrightarrow>
       (\<forall>x \<in> set (s_stack s). length bs \<le> unat x) \<and> map unat (s_stack s') = map (\<lambda>x. unat x - length bs) (s_stack s))"
proof (intro conjI allI impI)
  have n: "nested s" using assms by (rule reachable_nested)
  then show "sorted_wrt (\<lambda>x y. y \<le> x) (s_stack s)" by (simp add: nested_def)
  fix b s' assume read: "readByte s = (Inr b, s')"
  show "\<forall>x \<in> set (s_stack s). 1 \<le> unat x"
    using readByte_Inr(1) [OF n read] by (simp add: word_le_nat_alt)
  show "map unat (s_stack s') = map (\<lambda>x. unat x - 1) (s_stack s)"
    using readByte_Inr [OF n read] map_unat_minus [of "s_stack s" 1] by simp
next
  have n: "nested s" using assms by (rule reachable_nested)
  fix k bs s' assume read: "readFull k s = (Inr bs, s')"
  show "\<forall>x \<in> set (s_stack s). length bs \<le> unat x"
    using readFull_Inr [OF n read] by (simp add: word_le_nat_alt)
  show "map unat (s_stack s') = map (\<lambda>x. unat x - length bs) (s_stack s)"
    using readFull_Inr [OF n read] map_unat_minus [of "s_stack s" k] by simp
qed

theorem counters_never_wrap_witness:
  "let s = snd (Stream_List (snd (Stream_List (NewStream [0xC3, 0xC2, 0x05, 0x07] 10485760)))) in
   s_stack s = [2, 2] \<and> sorted_wrt (\<lambda>x y. y \<le> x) (s_stack s) \<and>
   map unat (s_stack (snd (readByte s))) = [1, 1]"
proof -
  let ?s = "snd (Stream_List (snd (Stream_List (NewStream [0xC3, 0xC2, 0x05, 0x07] 10485760))))"
  have st: "s_stack ?s = [2, 2]" by code_simp
  have read: "readByte ?s = (Inr 5, snd (readByte ?s))" by code_simp
  have "reachable ?s" by (intro reachable.intros)
  from counters_never_wrap [OF this] read st show ?thesis by (simp add: Let_def)
qed

end
