(* ===== verification/RLP_Advance.thy ===== *)
theory RLP_Advance
  imports RLP_Stream
begin

text \<open>
  What the reads of a stream do: they advance it (\<open>adv\<close>). The lemmas ending in \<open>_room\<close> say what a
  read returns when the input, the open lists and the limit have room for it, those ending in
  \<open>_result\<close> what a successful read has consumed.
\<close>

section \<open>Advancing a stream\<close>

definition adv :: "nat \<Rightarrow> Stream \<Rightarrow> Stream" where
  "adv n s = s\<lparr>s_r := drop n (s_r s), s_stack := map (\<lambda>x. x - of_nat n) (s_stack s),
     s_limit := (if s_limited s then s_limit s - of_nat n else s_limit s)\<rparr>"

text \<open>The input, the open lists and the limit have room for \<open>n\<close> more bytes.\<close>

definition room :: "nat \<Rightarrow> Stream \<Rightarrow> bool" where
  "room n s \<longleftrightarrow> n \<le> length (s_r s) \<and> (\<forall>x \<in> set (s_stack s). n \<le> unat x) \<and> (s_limited s \<longrightarrow> n \<le> unat (s_limit s))"

lemma adv_sel [simp]:
  "s_r (adv n s) = drop n (s_r s)" "s_stack (adv n s) = map (\<lambda>x. x - of_nat n) (s_stack s)"
  "s_limited (adv n s) = s_limited s" "s_limit (adv n s) = (if s_limited s then s_limit s - of_nat n else s_limit s)"
  "s_buf (adv n s) = s_buf s" "s_byteval (adv n s) = s_byteval s" "s_kind (adv n s) = s_kind s" "s_size (adv n s) = s_size s"
  "s_kinderr (adv n s) = s_kinderr s" "s_totalDecoded (adv n s) = s_totalDecoded s" "s_callCount (adv n s) = s_callCount s"
  by (simp_all add: adv_def)

lemma adv_upd [simp]:
  "adv n (s\<lparr>s_buf := b\<rparr>) = (adv n s)\<lparr>s_buf := b\<rparr>" "adv n (s\<lparr>s_byteval := c\<rparr>) = (adv n s)\<lparr>s_byteval := c\<rparr>"
  "adv n (s\<lparr>s_kind := k\<rparr>) = (adv n s)\<lparr>s_kind := k\<rparr>" "adv n (s\<lparr>s_size := z\<rparr>) = (adv n s)\<lparr>s_size := z\<rparr>"
  "adv n (s\<lparr>s_kinderr := e\<rparr>) = (adv n s)\<lparr>s_kinderr := e\<rparr>" "adv n (s\<lparr>s_totalDecoded := d\<rparr>) = (adv n s)\<lparr>s_totalDecoded := d\<rparr>"
  "adv n (s\<lparr>s_callCount := cc\<rparr>) = (adv n s)\<lparr>s_callCount := cc\<rparr>"
  by (simp_all add: adv_def)

lemma adv_0 [simp]: "adv 0 s = s"
  by (simp add: adv_def)

lemma adv_adv [simp]: "adv m (adv n s) = adv (n + m) s"
  by (simp add: adv_def comp_def diff_diff_eq add.commute)

lemma room_upd [simp]:
  "room n (s\<lparr>s_buf := b\<rparr>) = room n s" "room n (s\<lparr>s_byteval := c\<rparr>) = room n s" "room n (s\<lparr>s_kind := k\<rparr>) = room n s"
  "room n (s\<lparr>s_size := z\<rparr>) = room n s" "room n (s\<lparr>s_kinderr := e\<rparr>) = room n s" "room n (s\<lparr>s_totalDecoded := d\<rparr>) = room n s"
  "room n (s\<lparr>s_callCount := cc\<rparr>) = room n s"
  by (simp_all add: room_def)

lemma room_mono: "room n s \<Longrightarrow> m \<le> n \<Longrightarrow> room m s"
  by (fastforce simp: room_def)

lemma unat_minus_of_nat:
  assumes "n \<le> unat x"
  shows "unat (x - of_nat n :: u64) = unat x - n"
proof -
  have "unat (of_nat n :: u64) = n" using assms unat_u64_bound [of x] by (intro unat_of_nat64) linarith
  then show ?thesis using assms unat_sub64 [of "of_nat n" x] by (simp add: word_le_nat_alt)
qed

lemma room_adv: "room (m + n) s \<Longrightarrow> room n (adv m s)"
  by (auto simp: room_def unat_minus_of_nat)

lemma room_last: "room n s \<Longrightarrow> s_stack s \<noteq> [] \<Longrightarrow> n \<le> unat (last (s_stack s))"
  using last_in_set [of "s_stack s"] by (auto simp: room_def)

text \<open>The input continues with \<open>bs\<close>.\<close>

definition starts :: "byte list \<Rightarrow> Stream \<Rightarrow> bool" where
  "starts bs s \<longleftrightarrow> take (length bs) (s_r s) = bs"

lemma starts_upd [simp]:
  "starts bs (s\<lparr>s_buf := b\<rparr>) = starts bs s" "starts bs (s\<lparr>s_byteval := c\<rparr>) = starts bs s" "starts bs (s\<lparr>s_kind := k\<rparr>) = starts bs s"
  "starts bs (s\<lparr>s_size := z\<rparr>) = starts bs s" "starts bs (s\<lparr>s_kinderr := e\<rparr>) = starts bs s"
  "starts bs (s\<lparr>s_totalDecoded := d\<rparr>) = starts bs s" "starts bs (s\<lparr>s_callCount := cc\<rparr>) = starts bs s"
  "starts bs (s\<lparr>s_stack := st\<rparr>) = starts bs s"
  by (simp_all add: starts_def)

lemma starts_Nil [simp]: "starts [] s"
  by (simp add: starts_def)

lemma starts_append: "starts (xs @ ys) s \<longleftrightarrow> starts xs s \<and> starts ys (adv (length xs) s)"
proof
  assume eq: "starts (xs @ ys) s"
  then have "length xs + length ys \<le> length (s_r s)"
    unfolding starts_def by (metis length_append length_take min.cobounded1 min.absorb_iff2)
  then show "starts xs s \<and> starts ys (adv (length xs) s)"
    using eq by (auto simp: starts_def take_add append_eq_append_conv)
qed (simp add: starts_def take_add)

lemma starts_Cons: "starts (x # ys) s \<longleftrightarrow> starts [x] s \<and> starts ys (adv 1 s)"
  using starts_append [of "[x]" ys s] by simp

lemma starts_input: "starts bs s \<Longrightarrow> s_r s = bs @ s_r (adv (length bs) s)"
  unfolding starts_def adv_sel by (metis append_take_drop_id)

lemma readByte_room:
  assumes "room 1 s" "starts [b] s"
  shows "readByte s = (Inr b, adv 1 s)"
proof -
  have r: "s_r s = b # drop 1 (s_r s)" using starts_input [OF assms(2)] by simp
  have "\<not> (s_stack s \<noteq> [] \<and> last (s_stack s) = 0)" using room_last [OF assms(1)] by (auto simp: unat_eq_zero)
  moreover have "\<not> (s_limited s \<and> s_limit s = 0)" using assms(1) by (auto simp: room_def)
  ultimately show ?thesis by (subst readByte_def, simp only: if_False, subst r) (simp add: adv_def)
qed

lemma readFull_room:
  assumes "room (length bs) s" "starts bs s" "unat n = length bs"
  shows "readFull n s = (Inr bs, adv (length bs) s)"
proof -
  have "\<not> (s_stack s \<noteq> [] \<and> n > last (s_stack s))" using room_last [OF assms(1)] assms(3) by (auto simp: word_less_nat_alt)
  moreover have "\<not> (s_limited s \<and> n > s_limit s)" using assms by (auto simp: room_def word_less_nat_alt)
  moreover have "io_ReadFull (unat n) (s_r s) = (Inr bs, drop (length bs) (s_r s))"
    using assms by (auto simp: io_ReadFull_def room_def starts_def)
  moreover have "n = of_nat (length bs)" using assms(3) by (metis of_nat_unat ucast_id)
  ultimately show ?thesis by (simp only: readFull_def if_False prod.case sum.case adv_def)
qed

lemma readByte_result: "readByte s = (Inr b, s') \<Longrightarrow> starts [b] s \<and> s' = adv 1 s"
  by (auto simp: readByte_def adv_def starts_def split: if_splits list.splits)

lemma readFull_result:
  "readFull n s = (Inr bs, s') \<Longrightarrow> starts bs s \<and> length bs = unat n \<and> s' = adv (length bs) s"
  by (auto simp: readFull_def io_ReadFull_def adv_def starts_def unat_eq_zero split: if_splits prod.splits sum.splits)

text \<open>How a sequence of steps succeeds.\<close>

named_theorems inr_simps

lemma bind_Inr [inr_simps]: "bind m k s = (Inr a, s') \<longleftrightarrow> (\<exists>x s1. m s = (Inr x, s1) \<and> k x s1 = (Inr a, s'))"
  by (simp add: op_simps split: prod.split sum.split)

lemma ret_Inr [inr_simps]: "ret x s = (Inr a, s') \<longleftrightarrow> a = x \<and> s' = s"
  by (auto simp: op_simps)

lemma fail_Inr [inr_simps]: "fail x s = (Inr a, s') \<longleftrightarrow> False"
  by (simp add: op_simps)

lemma gets_Inr [inr_simps]: "gets f s = (Inr a, s') \<longleftrightarrow> a = f s \<and> s' = s"
  by (auto simp: op_simps)

lemma modify_Inr [inr_simps]: "modify f s = (Inr a, s') \<longleftrightarrow> s' = f s"
  by (auto simp: op_simps)

lemma if_Inr [inr_simps]: "(if c then m else m') s = (Inr a, s') \<longleftrightarrow> (if c then m s = (Inr a, s') else m' s = (Inr a, s'))"
  by simp

section \<open>Headers\<close>

lemma push_bit_or_byte: "push_bit 8 v OR ucast (x :: byte) = (v * 256 + ucast x :: u64)"
proof -
  have "push_bit 8 v AND ucast x = (0 :: u64)"
    by (rule bit_eqI) (auto simp: bit_simps dest: bit_imp_le_length)
  then have "push_bit 8 v + ucast x = push_bit 8 v OR (ucast x :: u64)" by (simp add: disjunctive_add_eq_or)
  then show ?thesis by (simp add: push_bit_eq_mult)
qed

lemma fold_bytes: "foldl (\<lambda>v x. push_bit 8 v OR ucast x) 0 bs = (arr_of bs :: u64)"
proof (induction bs rule: rev_induct)
  case (snoc x bs)
  then show ?case unfolding push_bit_or_byte by (simp add: arr_of_def)
qed (simp add: arr_of_def)

lemma uint_size:
  assumes "length bs \<le> 8"
  shows "unat (arr_of bs :: u64) = nat (big_SetBytes bs)"
proof -
  have "(256 :: int) ^ length bs \<le> 256 ^ 8" using assms by (intro power_increasing) auto
  then have "uint (arr_of bs :: u64) = big_SetBytes bs" by (intro uint_arr_of) simp
  then show ?thesis by (simp flip: nat_uint_eq)
qed

lemma unat_byte: "n < 256 \<Longrightarrow> unat (of_nat n :: byte) = n"
  by (simp add: unat_of_nat)

lemma unat_ucast_byte: "unat (ucast (b :: byte) :: u64) = unat b"
proof -
  have "unat b < 256" using unsigned_less [of b] by simp
  then show ?thesis by (simp add: unsigned_ucast_eq take_bit_nat_eq_self)
qed

lemma size_bytes:
  assumes "56 \<le> n" "n \<le> 10485760"
  shows "0 < length (nat_bytes n)" "length (nat_bytes n) \<le> 3" "nat_bytes n ! 0 \<noteq> 0" "arr_of (nat_bytes n) = (of_nat n :: u64)"
proof -
  show "0 < length (nat_bytes n)" "length (nat_bytes n) \<le> 3" using assms by (simp_all add: length_nat_bytes_le)
  then show "nat_bytes n ! 0 \<noteq> 0" using hd_nat_bytes [of n] assms by (simp add: hd_conv_nth)
  show "arr_of (nat_bytes n) = (of_nat n :: u64)" by (simp add: arr_of_def)
qed

lemma readLong_room:
  assumes n: "56 \<le> n" "n \<le> 10485760" and r: "starts (nat_bytes n) s" and room: "room (length (nat_bytes n)) s"
  shows "readLong k (of_nat (length (nat_bytes n))) s
    = (Inr (k, of_nat n), (adv (length (nat_bytes n)) s)\<lparr>s_buf := s_buf s @ nat_bytes n\<rparr>)"
proof -
  let ?l = "length (nat_bytes n)" and ?b = "of_nat (length (nat_bytes n)) :: byte"
  note sz = size_bytes [OF n]
  have b: "unat ?b = ?l" using sz by (intro unat_byte) linarith
  then have "?b \<noteq> 0" "\<not> ?b > 8" using sz by (auto simp: word_less_nat_alt)
  moreover have "unat (ucast ?b :: u64) = ?l" using b by (simp only: unat_ucast_byte)
  then have "readFull (ucast ?b) s = (Inr (nat_bytes n), adv ?l s)" using room r by (intro readFull_room)
  moreover have "unat (of_nat n :: u64) = n" using n by (intro unat_of_nat64) simp
  then have "\<not> (of_nat n :: u64) < 56" "\<not> (of_nat n :: u64) > maxRLPSize"
    using n by (simp_all add: word_less_nat_alt maxRLPSize_def)
  ultimately show ?thesis
    using sz by (simp add: readLong_def readSize_def op_simps fold_bytes)
qed

lemma readLong_result:
  assumes "readLong k b s = (Inr (k', n), s')"
  shows "k' = k \<and> 56 \<le> unat n \<and> unat n \<le> 10485760 \<and> b = of_nat (length (nat_bytes (unat n))) \<and>
    starts (nat_bytes (unat n)) s \<and>
    s' = (adv (length (nat_bytes (unat n))) s)\<lparr>s_buf := s_buf s @ nat_bytes (unat n)\<rparr>"
proof -
  from assms obtain bs s1 where read: "readFull (ucast b) s = (Inr bs, s1)" and b: "b \<noteq> 0" "\<not> b > 8"
    and bs: "bs ! 0 \<noteq> 0" and n: "n = arr_of bs" "\<not> n < 56" "\<not> n > maxRLPSize" "k' = k"
    and s': "s' = s1\<lparr>s_buf := s_buf s1 @ bs\<rparr>"
    unfolding readLong_def readSize_def inr_simps fold_bytes if_bool_eq_conj simp_thms prod.inject by blast
  from readFull_result [OF read] have r: "starts bs s" "length bs = unat b" "s1 = adv (length bs) s"
    by (simp_all add: unat_ucast_byte)
  have "length bs \<le> 8" "bs \<noteq> []" using b r(2) by (auto simp: word_less_nat_alt unat_eq_zero)
  then have "nat_bytes (unat n) = bs"
    using nat_bytes_SetBytes [of bs] bs n(1) by (simp add: uint_size hd_conv_nth)
  moreover have "b = of_nat (length bs)" using r(2) by (metis of_nat_unat ucast_id)
  ultimately show ?thesis using n r s' by (auto simp: word_less_nat_alt maxRLPSize_def)
qed

text \<open>The first byte of a header, which the cases of \<open>readKind\<close> distinguish.\<close>

lemma header_short: "n < 56 \<Longrightarrow> header off n = [off + of_nat n]"
  by (simp add: header_def)

lemma header_long: "56 \<le> n \<Longrightarrow> header off n = (off + 55 + of_nat (length (nat_bytes n))) # nat_bytes n"
  by (simp add: header_def)

lemma unat_offset: "unat off + n < 256 \<Longrightarrow> unat (off + of_nat n :: byte) = unat off + n"
  by (simp add: unat_word_ariths unat_of_nat)

lemma unat_sub_byte: "unat c \<le> unat b \<Longrightarrow> unat (b - c :: byte) = unat b - unat c"
  by (simp add: unat_sub word_le_nat_alt)

lemma ucast_small: "n < 56 \<Longrightarrow> ucast (of_nat n :: byte) = (of_nat n :: u64)"
  by (simp only: word_unat_eq_iff unat_ucast_byte) (simp add: unat_of_nat)

lemma readKind_byte:
  assumes "room 1 s" "starts [b] s" "b < 0x80"
  shows "readKind s = (Inr (KByte, 0), (adv 1 s)\<lparr>s_buf := [b], s_byteval := b\<rparr>)"
  using assms by (simp add: readKind_def op_simps readByte_room)

lemma readKind_first:
  assumes "room 1 s" "starts [b] s"
  shows "128 \<le> unat b \<Longrightarrow> unat b < 184 \<Longrightarrow> readKind s = (Inr (KString, ucast (b - 0x80)), (adv 1 s)\<lparr>s_buf := [b]\<rparr>)"
    and "184 \<le> unat b \<Longrightarrow> unat b < 192 \<Longrightarrow> readKind s = readLong KString (b - 0xB7) ((adv 1 s)\<lparr>s_buf := [b]\<rparr>)"
    and "192 \<le> unat b \<Longrightarrow> unat b < 248 \<Longrightarrow> readKind s = (Inr (KList, ucast (b - 0xC0)), (adv 1 s)\<lparr>s_buf := [b]\<rparr>)"
    and "248 \<le> unat b \<Longrightarrow> readKind s = readLong KList (b - 0xF7) ((adv 1 s)\<lparr>s_buf := [b]\<rparr>)"
  using assms by (simp_all add: readKind_def op_simps readByte_room word_less_nat_alt)

text \<open>The header of a string or list of \<open>n\<close> bytes, for the kind with offset \<open>off\<close>.\<close>

definition offset :: "Kind \<Rightarrow> byte" where
  "offset k = (if k = KList then 0xC0 else 0x80)"

lemma readKind_header:
  assumes "k \<noteq> KByte" "n \<le> 10485760" "starts (header (offset k) n) s" "room (length (header (offset k) n)) s"
  shows "readKind s = (Inr (k, of_nat n), (adv (length (header (offset k) n)) s)\<lparr>s_buf := header (offset k) n\<rparr>)"
proof (cases "n < 56")
  case True
  let ?b = "offset k + of_nat n :: byte"
  have "unat ?b = unat (offset k) + n" using True by (intro unat_offset) (simp add: offset_def)
  then show ?thesis
    using assms True readKind_first(1,3) [of s ?b] by (cases k) (simp_all add: header_short offset_def ucast_small)
next
  case False
  then have n: "56 \<le> n" by simp
  let ?l = "length (nat_bytes n)" and ?b = "offset k + 55 + of_nat (length (nat_bytes n)) :: byte"
  note sz = size_bytes [OF n assms(2)]
  have "unat (offset k + 55) = unat (offset k) + 55" by (simp add: offset_def)
  then have b: "unat ?b = unat (offset k) + 55 + ?l" using sz unat_offset [of "offset k + 55" ?l] by (simp add: offset_def)
  have hdr: "header (offset k) n = ?b # nat_bytes n" by (simp add: header_long n)
  have room: "room 1 s" "room ?l ((adv 1 s)\<lparr>s_buf := [?b]\<rparr>)"
    using assms(4) room_mono [of _ s 1] room_adv [of 1 ?l s] by (simp_all add: hdr)
  have starts: "starts [?b] s" "starts (nat_bytes n) ((adv 1 s)\<lparr>s_buf := [?b]\<rparr>)"
    using assms(3) unfolding hdr starts_Cons [of ?b "nat_bytes n"] by simp_all
  have "readLong k (of_nat ?l) ((adv 1 s)\<lparr>s_buf := [?b]\<rparr>)
      = (Inr (k, of_nat n), (adv (1 + ?l) s)\<lparr>s_buf := header (offset k) n\<rparr>)"
    using readLong_room [OF n assms(2) starts(2) room(2), of k] by (simp add: hdr)
  moreover have "length (header (offset k) n) = 1 + ?l" "Suc 0 \<le> ?l" using sz(1) by (simp_all only: hdr Suc_le_eq) simp
  ultimately show ?thesis
    using assms(1) b sz(2) readKind_first(2,4) [OF room(1) starts(1)] by (cases k) (simp_all add: offset_def)
qed

text \<open>What a successful read of a header has consumed.\<close>

definition kindBytes :: "Kind \<Rightarrow> u64 \<Rightarrow> byte \<Rightarrow> byte list" where
  "kindBytes k n b = (if k = KByte then [b] else header (offset k) (unat n))"

lemma readKind_result:
  assumes "readKind s = (Inr (k, n), s')"
  shows "\<exists>b. starts (kindBytes k n b) s \<and>
    s' = (adv (length (kindBytes k n b)) s)\<lparr>s_buf := kindBytes k n b, s_byteval := (if k = KByte then b else s_byteval s)\<rparr> \<and>
    (if k = KByte then n = 0 \<and> b < 0x80 else unat n \<le> 10485760)"
proof -
  from assms obtain b s1 where read: "readByte s = (Inr b, s1)"
    by (cases "readByte s"; cases "fst (readByte s)") (auto simp: readKind_def op_simps split: if_splits)
  from readByte_result [OF read] have b: "starts [b] s" "s1 = adv 1 s" by simp_all
  let ?s = "(adv 1 s)\<lparr>s_buf := [b]\<rparr>"
  have eq: "readKind s = (if b < 0x80 then (Inr (KByte, 0), ?s\<lparr>s_byteval := b\<rparr>)
      else if b < 0xB8 then (Inr (KString, ucast (b - 0x80)), ?s)
      else if b < 0xC0 then readLong KString (b - 0xB7) ?s
      else if b < 0xF8 then (Inr (KList, ucast (b - 0xC0)), ?s)
      else readLong KList (b - 0xF7) ?s)"
    by (simp add: readKind_def op_simps read b(2))
  have short: ?thesis if "k \<noteq> KByte" "n = ucast (b - offset k)" "unat (b - offset k) < 56" "s' = ?s"
    using that b(1) by (intro exI [of _ b]) (simp add: kindBytes_def header_short unat_ucast_byte)
  have long: ?thesis if "k \<noteq> KByte" "readLong k (b - (offset k + 55)) ?s = (Inr (k, n), s')"
  proof -
    note res = readLong_result [OF that(2)]
    have "b - (offset k + 55) = of_nat (length (nat_bytes (unat n)))" using res by blast
    then have "b = offset k + 55 + of_nat (length (nat_bytes (unat n)))" by (simp only: diff_eq_eq add.commute)
    then have "header (offset k) (unat n) = b # nat_bytes (unat n)" using res by (simp add: header_long)
    then show ?thesis using res that(1) b(1) by (intro exI [of _ b]) (simp add: kindBytes_def starts_Cons [of b "nat_bytes (unat n)"])
  qed
  consider "b < 0x80" | "\<not> b < 0x80" "b < 0xB8" | "\<not> b < 0x80" "\<not> b < 0xB8" "b < 0xC0"
    | "\<not> b < 0x80" "\<not> b < 0xB8" "\<not> b < 0xC0" "b < 0xF8" | "\<not> b < 0x80" "\<not> b < 0xB8" "\<not> b < 0xC0" "\<not> b < 0xF8"
    by blast
  then show ?thesis
  proof cases
    case 1
    then show ?thesis using assms eq b by (intro exI [of _ b]) (auto simp: kindBytes_def)
  next
    case 2
    then have "unat (b - 0x80) < 56" using unat_sub_byte [of "0x80" b] by (simp add: word_less_nat_alt)
    with 2 show ?thesis using assms eq by (intro short) (auto simp: offset_def)
  next
    case 3
    then have "readLong KString (b - 0xB7) ?s = (Inr (k, n), s')" using assms eq by simp
    moreover from readLong_result [OF this] have "k = KString" by simp
    ultimately show ?thesis by (intro long) (simp_all add: offset_def)
  next
    case 4
    then have "unat (b - 0xC0) < 56" using unat_sub_byte [of "0xC0" b] by (simp add: word_less_nat_alt)
    with 4 show ?thesis using assms eq by (intro short) (auto simp: offset_def)
  next
    case 5
    then have "readLong KList (b - 0xF7) ?s = (Inr (k, n), s')" using assms eq by simp
    moreover from readLong_result [OF this] have "k = KList" by simp
    ultimately show ?thesis by (intro long) (simp_all add: offset_def)
  qed
qed

end
