(* ===== verification/RLP_Roundtrip.thy ===== *)
theory RLP_Roundtrip
  imports RLP_Advance
begin

text \<open>
  Reading encoded values: for every type of the decoder, the decoder started on the encoding of a value
  of that type returns the value and has consumed the encoding, within the limits of the stream
  (\<open>decodes_all\<close>). \<open>hasType\<close> says which values a variable of a type can have, \<open>depth\<close> and \<open>calls\<close> what
  decoding them needs of the limits.
\<close>

declare rlp_bytes.simps [simp del]

section \<open>Reading an item\<close>

text \<open>A step has taken \<open>n\<close> bytes and \<open>c\<close> calls of \<open>Bytes\<close>; the header cache, the buffer and the
  value of the last byte do not matter.\<close>

definition moved :: "nat \<Rightarrow> nat \<Rightarrow> Stream \<Rightarrow> Stream \<Rightarrow> bool" where
  "moved n c s s' \<longleftrightarrow> s_r s' = s_r (adv n s) \<and> s_stack s' = s_stack (adv n s) \<and> s_limited s' = s_limited s \<and>
     s_limit s' = s_limit (adv n s) \<and> s_callCount s' = s_callCount s + c \<and>
     unat (s_totalDecoded s') \<le> unat (s_totalDecoded s) + n"

text \<open>No header is cached, and the limits allow \<open>n\<close> bytes, \<open>c\<close> calls and \<open>d\<close> more open lists.\<close>

definition ready :: "nat \<Rightarrow> nat \<Rightarrow> nat \<Rightarrow> Stream \<Rightarrow> bool" where
  "ready n c d s \<longleftrightarrow> s_kind s = None \<and> room n s \<and> s_callCount s + c \<le> 10000 \<and>
     unat (s_totalDecoded s) + n \<le> 33554432 \<and> length (s_stack s) + d \<le> 64"

definition reads :: "byte list \<Rightarrow> nat \<Rightarrow> nat \<Rightarrow> (Stream, 'a) op \<Rightarrow> 'a \<Rightarrow> bool" where
  "reads bs c d m x \<longleftrightarrow> (\<forall>s. ready (length bs) c d s \<longrightarrow> starts bs s \<longrightarrow>
     (\<exists>s'. m s = (Inr x, s') \<and> moved (length bs) c s s' \<and> s_kind s' = None))"

lemma readsI:
  "(\<And>s. ready (length bs) c d s \<Longrightarrow> starts bs s \<Longrightarrow> \<exists>s'. m s = (Inr x, s') \<and> moved (length bs) c s s' \<and> s_kind s' = None)
   \<Longrightarrow> reads bs c d m x"
  by (simp add: reads_def)

lemma reads_bind: "reads bs c d m x \<Longrightarrow> (\<And>s. k x s = (Inr y, s)) \<Longrightarrow> reads bs c d (bind m k) y"
  by (fastforce simp: reads_def inr_simps)

lemma moved_0: "moved 0 0 s s"
  by (simp add: moved_def)

lemma moved_trans:
  assumes "moved n c s s1" "moved m c' s1 s2"
  shows "moved (n + m) (c + c') s s2"
  using assms by (auto simp: moved_def add.commute diff_diff_eq)

lemma moved_starts: "moved n c s s' \<Longrightarrow> starts bs s' = starts bs (adv n s)"
  by (simp add: moved_def starts_def)

lemma moved_room: "moved n c s s' \<Longrightarrow> room m s' = room m (adv n s)"
  by (simp add: moved_def room_def)

lemma ready_moved: "ready (n + m) (c + c') d s \<Longrightarrow> moved n c s s' \<Longrightarrow> s_kind s' = None \<Longrightarrow> ready m c' d s'"
  using room_adv [of n m s] moved_room [of n c s s' m] by (auto simp: ready_def moved_def)

lemma ready_mono: "ready n c d s \<Longrightarrow> m \<le> n \<Longrightarrow> c' \<le> c \<Longrightarrow> d' \<le> d \<Longrightarrow> ready m c' d' s"
  using room_mono [of n s m] by (auto simp: ready_def)

text \<open>The header of an item, cached.\<close>

lemma Kind_None:
  "s_kind s = None \<Longrightarrow> readKind s = (Inr (k, n), s') \<Longrightarrow>
   Stream_Kind s = (Inr (k, n), s'\<lparr>s_kind := Some k, s_size := n, s_kinderr := None\<rparr>)"
  by (simp add: Stream_Kind_def)

lemma Kind_byte:
  assumes "ready 1 c d s" "starts [b] s" "b < 0x80"
  shows "Stream_Kind s = (Inr (KByte, 0),
    (adv 1 s)\<lparr>s_buf := [b], s_byteval := b, s_kind := Some KByte, s_size := 0, s_kinderr := None\<rparr>)"
  using assms readKind_byte [of s b] by (simp add: ready_def Kind_None)

definition cached :: "Kind \<Rightarrow> nat \<Rightarrow> Stream \<Rightarrow> Stream" where
  "cached k n s = (adv (length (header (offset k) n)) s)
     \<lparr>s_buf := header (offset k) n, s_kind := Some k, s_size := of_nat n, s_kinderr := None\<rparr>"

lemma Kind_header:
  assumes "ready (length (header (offset k) n)) c d s" "starts (header (offset k) n) s" "k \<noteq> KByte" "n \<le> 10485760"
  shows "Stream_Kind s = (Inr (k, of_nat n), cached k n s)"
  using assms readKind_header [of k n s] by (simp add: ready_def Kind_None cached_def)

text \<open>Reading the content of a string after its header.\<close>

definition content :: "u64 \<Rightarrow> (Stream, byte list) op" where
  "content n = bind (countDecoded n) (\<lambda>_. bind (readFull n) (\<lambda>b. bind rearm (\<lambda>_. ret b)))"

lemma content_bind:
  "bind (countDecoded n) (\<lambda>_. bind (readFull n) (\<lambda>b. bind rearm (\<lambda>_. k b))) = bind (content n) k"
  unfolding content_def bind_assoc bind_ret ..

definition contentRead :: "nat \<Rightarrow> Stream \<Rightarrow> Stream" where
  "contentRead n s = (adv n (cached KString n s))\<lparr>s_totalDecoded := s_totalDecoded s + of_nat n, s_kind := None\<rparr>"

lemma unat_total:
  assumes "unat (x :: u64) + n \<le> 33554432"
  shows "unat (x + of_nat n) = unat x + n"
  using assms unat_add64_id [of x "of_nat n"] by (simp add: unat_of_nat64)

lemma content_read:
  assumes "ready (length (header 0x80 (length b)) + length b) c d s" "starts (header 0x80 (length b) @ b) s"
  shows "content (of_nat (length b)) (cached KString (length b) s) = (Inr b, contentRead (length b) s)"
    and "moved (length (header 0x80 (length b)) + length b) 0 s (contentRead (length b) s)"
    and "s_kind (contentRead (length b) s) = None"
proof -
  let ?n = "length b" and ?h = "length (header 0x80 (length b))"
  have lim: "unat (s_totalDecoded s) + ?n \<le> 33554432" using assms(1) by (simp add: ready_def)
  then have tot: "unat (s_totalDecoded s + of_nat ?n) = unat (s_totalDecoded s) + ?n" by (rule unat_total)
  have "room ?n (adv ?h s)" "starts b (adv ?h s)"
    using assms by (simp_all add: ready_def room_adv starts_append)
  moreover have "unat (of_nat ?n :: u64) = ?n" using lim by (intro unat_of_nat64) simp
  ultimately have "readFull (of_nat ?n) ((cached KString ?n s)\<lparr>s_totalDecoded := s_totalDecoded s + of_nat ?n\<rparr>)
      = (Inr b, adv ?n ((cached KString ?n s)\<lparr>s_totalDecoded := s_totalDecoded s + of_nat ?n\<rparr>))"
    by (intro readFull_room) (simp_all add: cached_def offset_def)
  moreover have "\<not> s_totalDecoded s + of_nat ?n > maxTotalDecodeMemory"
    using lim tot by (simp add: word_less_nat_alt maxTotalDecodeMemory_def)
  moreover have "s_totalDecoded (cached KString ?n s) = s_totalDecoded s" by (simp add: cached_def)
  ultimately show "content (of_nat ?n) (cached KString ?n s) = (Inr b, contentRead ?n s)"
    by (simp add: content_def countDecoded_def rearm_def op_simps contentRead_def)
  show "moved (?h + ?n) 0 s (contentRead ?n s)"
    using tot by (simp add: moved_def contentRead_def cached_def offset_def add.commute diff_diff_eq)
  show "s_kind (contentRead ?n s) = None" by (simp add: contentRead_def)
qed

text \<open>An item is either one small byte or has a header.\<close>

lemma Str_cases:
  obtains (byte) x where "b = [x]" "x < 0x80" "rlp_bytes (Str b) = [x]"
  | (header) "\<not> (length b = 1 \<and> b ! 0 < 0x80)" "rlp_bytes (Str b) = header 0x80 (length b) @ b"
proof (cases "length b = 1 \<and> hd b < 0x80")
  case True
  then obtain x where "b = [x]" by (cases b) auto
  with True that(1) show ?thesis by (simp add: rlp_bytes.simps)
next
  case False
  then show ?thesis by (intro that(2)) (auto simp: length_Suc_conv rlp_bytes.simps)
qed

lemma byteRead:
  assumes "ready 1 c d s"
  shows "moved 1 0 s ((adv 1 s)\<lparr>s_buf := [b], s_byteval := b, s_size := 0, s_kinderr := None, s_kind := None\<rparr>)"
  using assms by (simp add: moved_def)

lemma ready_call: "ready n (Suc c) d s \<Longrightarrow> ready n c d (s\<lparr>s_callCount := Suc (s_callCount s)\<rparr>)"
  by (simp add: ready_def)

lemma moved_call: "moved n c (s\<lparr>s_callCount := Suc (s_callCount s)\<rparr>) s' \<Longrightarrow> moved n (Suc c) s s'"
  by (simp add: moved_def)

lemma reads_Bytes:
  assumes "length (rlp_bytes (Str b)) \<le> 10485760"
  shows "reads (rlp_bytes (Str b)) 1 0 Stream_Bytes b"
proof (rule readsI)
  fix s assume s: "ready (length (rlp_bytes (Str b))) 1 0 s" "starts (rlp_bytes (Str b)) s"
  let ?s = "s\<lparr>s_callCount := Suc (s_callCount s)\<rparr>"
  have ready: "ready (length (rlp_bytes (Str b))) 0 0 ?s" using s(1) ready_call [of _ 0 0 s] by simp
  have calls: "\<not> maxBytesCalls < Suc (s_callCount s)" using s(1) by (simp add: ready_def maxBytesCalls_def)
  show "\<exists>s'. Stream_Bytes s = (Inr b, s') \<and> moved (length (rlp_bytes (Str b))) 1 s s' \<and> s_kind s' = None"
  proof (cases b rule: Str_cases)
    case (byte x)
    then show ?thesis
      using Kind_byte [of 0 0 ?s x] ready s(2) calls moved_call [OF byteRead [of 0 0 ?s x]]
      by (simp add: Stream_Bytes_def op_simps rearm_def)
  next
    case header
    let ?n = "length b"
    have n: "?n \<le> 10485760" using assms by (simp add: header)
    then have sz: "\<not> (of_nat ?n :: u64) > maxStringSize" "((of_nat ?n :: u64) = 1) = (?n = 1)"
      by (simp_all add: word_less_nat_alt maxStringSize_def unat_of_nat64 word_unat_eq_iff)
    have rd: "ready (length (header 0x80 ?n) + ?n) 0 0 ?s" "starts (header 0x80 ?n @ b) ?s"
      using ready s(2) by (simp_all add: header)
    have "Stream_Kind ?s = (Inr (KString, of_nat ?n), cached KString ?n ?s)"
      using rd n ready_mono [OF rd(1), of "length (header 0x80 ?n)" 0 0]
      by (intro Kind_header [of _ _ 0 0]) (simp_all add: offset_def starts_append)
    then have "Stream_Bytes s = (Inr b, contentRead ?n ?s)"
      using calls sz header(1) content_read(1) [OF rd] by (simp add: Stream_Bytes_def content_bind op_simps)
    then show ?thesis using content_read(2,3) [OF rd] moved_call [of _ 0 s] by (simp add: header)
  qed
qed

section \<open>Numbers and byte arrays\<close>

lemma Kind_string:
  assumes "ready (length (header 0x80 n) + m) c d s" "starts (header 0x80 n @ b) s" "n \<le> 10485760"
  shows "Stream_Kind s = (Inr (KString, of_nat n), cached KString n s)"
  using assms ready_mono [OF assms(1), of "length (header 0x80 n)" c d]
  by (intro Kind_header [of _ _ c d]) (simp_all add: offset_def starts_append)

lemma of_nat_sizes:
  assumes "n \<le> 10485760"
  shows "((of_nat n :: u64) = 1) = (n = 1)" "(0 < (of_nat n :: u64)) = (0 < n)"
    "m \<le> 10485760 \<Longrightarrow> ((of_nat m :: u64) < of_nat n) = (m < n)" "\<not> 9223372036854775807 < (of_nat n :: u64)"
  using assms by (simp_all add: word_less_nat_alt word_unat_eq_iff unat_of_nat64)

lemma reads_uint:
  assumes "length (nat_bytes (unat w)) \<le> k div 8" "k div 8 \<le> 8"
  shows "reads (rlp_bytes (Str (nat_bytes (unat w)))) 0 0 (Stream_uint k) w"
proof (rule readsI)
  let ?b = "nat_bytes (unat w)"
  fix s assume s: "ready (length (rlp_bytes (Str ?b))) 0 0 s" "starts (rlp_bytes (Str ?b)) s"
  have w: "arr_of ?b = w" by (simp add: arr_of_def)
  show "\<exists>s'. Stream_uint k s = (Inr w, s') \<and> moved (length (rlp_bytes (Str ?b))) 0 s s' \<and> s_kind s' = None"
  proof (cases ?b rule: Str_cases)
    case (byte x)
    have "0 < unat w" using byte(1) nat_bytes_eq_Nil [of "unat w"] by (cases "unat w = 0") simp_all
    from hd_nat_bytes [OF this] have "x \<noteq> 0" by (simp add: byte)
    moreover have "ucast x = w" using w byte(1) fold_bytes [of "[x]"] by simp
    ultimately show ?thesis
      using Kind_byte [of 0 0 s x] byte s byteRead [of 0 0 s x] by (simp add: Stream_uint_def op_simps rearm_def)
  next
    case header
    let ?n = "length ?b"
    have n: "?n \<le> 10485760" "\<not> of_nat (k div 8) < (of_nat ?n :: u64)"
      using assms of_nat_sizes(3) [of ?n "k div 8"] of_nat_sizes(3) [of "k div 8" ?n] by auto
    have rd: "ready (length (header 0x80 ?n) + ?n) 0 0 s" "starts (header 0x80 ?n @ ?b) s" using s by (simp_all add: header)
    have "\<not> (0 < ?n \<and> ?b ! 0 = 0)" using hd_nat_bytes [of "unat w"] by (auto simp: hd_conv_nth)
    then have "Stream_uint k s = (Inr w, contentRead ?n s)"
      using n header(1) of_nat_sizes [OF n(1)] Kind_string [OF rd n(1)] content_read(1) [OF rd] w
      by (simp add: Stream_uint_def content_bind op_simps fold_bytes)
    then show ?thesis using content_read(2,3) [OF rd] by (simp add: header)
  qed
qed

lemma reads_ByteArray:
  assumes "length (rlp_bytes (Str b)) \<le> 10485760"
  shows "reads (rlp_bytes (Str b)) 0 0 (decodeByteArray (length b)) (VByteArray b)"
proof (rule readsI)
  fix s assume s: "ready (length (rlp_bytes (Str b))) 0 0 s" "starts (rlp_bytes (Str b)) s"
  show "\<exists>s'. decodeByteArray (length b) s = (Inr (VByteArray b), s') \<and> moved (length (rlp_bytes (Str b))) 0 s s' \<and> s_kind s' = None"
  proof (cases b rule: Str_cases)
    case (byte x)
    then show ?thesis
      using Kind_byte [of 0 0 s x] s byteRead [of 0 0 s x] by (simp add: decodeByteArray_def op_simps rearm_def)
  next
    case header
    let ?n = "length b" and ?h = "length (header 0x80 (length b))"
    have n: "?n \<le> 10485760" using assms by (simp add: header)
    have rd: "ready (?h + ?n) 0 0 s" "starts (header 0x80 ?n @ b) s" using s by (simp_all add: header)
    have u: "unat (of_nat ?n :: u64) = ?n" using n by (intro unat_of_nat64) simp
    have "room ?n (adv ?h s)" "starts b (adv ?h s)" using rd by (simp_all add: ready_def room_adv starts_append)
    then have "readFull (of_nat ?n) (cached KString ?n s) = (Inr b, adv ?n (cached KString ?n s))"
      using u by (intro readFull_room) (simp_all add: cached_def offset_def)
    then have "decodeByteArray ?n s = (Inr (VByteArray b), (adv ?n (cached KString ?n s))\<lparr>s_kind := None\<rparr>)"
      using Kind_string [OF rd n] of_nat_sizes(4) [OF n] u by (simp add: decodeByteArray_def op_simps rearm_def)
    moreover have "moved (?h + ?n) 0 s ((adv ?n (cached KString ?n s))\<lparr>s_kind := None\<rparr>)"
      by (simp add: moved_def cached_def offset_def add.commute diff_diff_eq)
    ultimately show ?thesis by (simp add: header)
  qed
qed

section \<open>Reading ahead\<close>

text \<open>\<open>Kind\<close> only caches: reading a value after a look at its header is reading the value.\<close>

lemma readByte_call: "readByte (s\<lparr>s_callCount := c\<rparr>) = (fst (readByte s), (snd (readByte s))\<lparr>s_callCount := c\<rparr>)"
  by (auto simp: readByte_def split: list.split)

lemma readFull_call: "readFull n (s\<lparr>s_callCount := c\<rparr>) = (fst (readFull n s), (snd (readFull n s))\<lparr>s_callCount := c\<rparr>)"
  by (auto simp: readFull_def split: prod.split sum.split)

lemma readLong_call: "readLong k b (s\<lparr>s_callCount := c\<rparr>) = (fst (readLong k b s), (snd (readLong k b s))\<lparr>s_callCount := c\<rparr>)"
  by (auto simp: readLong_def readSize_def op_simps readFull_call split: prod.split sum.split)

lemma readKind_call: "readKind (s\<lparr>s_callCount := c\<rparr>) = (fst (readKind s), (snd (readKind s))\<lparr>s_callCount := c\<rparr>)"
proof -
  have buf: "readLong k b (s\<lparr>s_callCount := c, s_buf := x\<rparr>)
      = (fst (readLong k b (s\<lparr>s_buf := x\<rparr>)), (snd (readLong k b (s\<lparr>s_buf := x\<rparr>)))\<lparr>s_callCount := c\<rparr>)" for k b x s
  proof -
    have "s\<lparr>s_callCount := c, s_buf := x\<rparr> = s\<lparr>s_buf := x, s_callCount := c\<rparr>" by simp
    then show ?thesis by (simp only: readLong_call)
  qed
  show ?thesis by (auto simp: readKind_def op_simps readByte_call buf split: prod.split sum.split)
qed

lemma Kind_call: "Stream_Kind (s\<lparr>s_callCount := c\<rparr>) = (fst (Stream_Kind s), (snd (Stream_Kind s))\<lparr>s_callCount := c\<rparr>)"
  by (auto simp: Stream_Kind_def readKind_call split: option.split prod.split sum.split)

lemma Kind_idem: "Stream_Kind s = (r, s1) \<Longrightarrow> Stream_Kind s1 = (r, s1)"
  by (auto simp: Stream_Kind_def split: option.splits prod.splits sum.splits)

lemma Bytes_peek:
  assumes "Stream_Kind s = (r, s1)" "s_callCount s < 10000"
  shows "Stream_Bytes s1 = Stream_Bytes s"
proof -
  have "s\<lparr>s_callCount := s_callCount s\<rparr> = s" by simp
  then have "s1 = s1\<lparr>s_callCount := s_callCount s\<rparr>" using Kind_call [of "s_callCount s" s] assms(1) by simp
  then have "s_callCount s1 = s_callCount (s1\<lparr>s_callCount := s_callCount s\<rparr>)" by (rule arg_cong)
  then have "s_callCount s1 = s_callCount s" by simp
  moreover have "Stream_Kind (s1\<lparr>s_callCount := c\<rparr>) = Stream_Kind (s\<lparr>s_callCount := c\<rparr>)" for c
    using Kind_idem [OF assms(1)] assms(1) by (simp add: Kind_call)
  ultimately show ?thesis using assms(2) by (simp add: Stream_Bytes_def maxBytesCalls_def op_simps)
qed

lemma List_peek:
  assumes "Stream_Kind s = (Inr r, s1)" "s_kind s = None" "length (s_stack s) < 64"
  shows "Stream_List s1 = Stream_List s"
proof -
  obtain k n s' where "readKind s = (Inr (k, n), s')" and s1: "s_stack s1 = s_stack s'"
    using assms(1,2) by (auto simp: Stream_Kind_def split: prod.splits sum.splits)
  then have "length (s_stack s1) = length (s_stack s)" using readKind_result [of s k n s'] by auto
  then show ?thesis
    using assms Kind_idem [OF assms(1)] by (simp add: Stream_List_def maxNestingDepth_def op_simps split: prod.split)
qed

section \<open>Lists\<close>

text \<open>The innermost open list has \<open>n\<close> bytes left.\<close>

definition inside :: "nat \<Rightarrow> Stream \<Rightarrow> bool" where
  "inside n s \<longleftrightarrow> s_stack s \<noteq> [] \<and> unat (last (s_stack s)) = n"

lemma inside_moved: "inside (n + m) s \<Longrightarrow> moved n c s s' \<Longrightarrow> inside m s'"
  by (simp add: inside_def moved_def last_map unat_minus_of_nat)

definition opened :: "nat \<Rightarrow> Stream \<Rightarrow> Stream" where
  "opened n s = (cached KList n s)\<lparr>s_stack := s_stack (cached KList n s) @ [of_nat n], s_kind := None\<rparr>"

lemma List_opens:
  assumes "ready (length (header 0xC0 n) + n) c (Suc d) s" "starts (header 0xC0 n @ bs) s" "length bs = n" "n \<le> 10485760"
  shows "Stream_List s = (Inr (of_nat n), opened n s)" "ready n c d (opened n s)" "starts bs (opened n s)" "inside n (opened n s)"
proof -
  let ?h = "length (header 0xC0 n)"
  have u: "unat (of_nat n :: u64) = n" using assms(4) by (intro unat_of_nat64) simp
  have kind: "Stream_Kind s = (Inr (KList, of_nat n), cached KList n s)"
    using assms ready_mono [OF assms(1), of ?h c "Suc d"]
    by (intro Kind_header [of _ _ c "Suc d"]) (simp_all add: offset_def starts_append)
  have room: "room n (adv ?h s)" using assms(1) by (simp add: ready_def room_adv)
  have st: "s_stack (cached KList n s) = s_stack (adv ?h s)" by (simp add: cached_def offset_def)
  then have "\<not> (s_stack (cached KList n s) \<noteq> [] \<and> of_nat n > last (s_stack (cached KList n s)))"
    using room_last [OF room] u by (auto simp: word_less_nat_alt not_less)
  then show "Stream_List s = (Inr (of_nat n), opened n s)"
    using kind assms(1) by (simp add: Stream_List_def op_simps ready_def maxNestingDepth_def opened_def del: last_map)
  show "ready n c d (opened n s)"
    using room assms(1) u by (auto simp: ready_def room_def opened_def cached_def offset_def)
  show "starts bs (opened n s)" using assms(2) by (simp add: starts_append opened_def cached_def offset_def)
  show "inside n (opened n s)" using u by (simp add: inside_def opened_def)
qed

lemma List_closes:
  assumes "moved n c (opened n s) s'"
  obtains s'' where "Stream_ListEnd s' = (Inr (), s'')" "moved (length (header 0xC0 n) + n) c s s''" "s_kind s'' = None"
proof
  have st: "s_stack s' = map (\<lambda>x. x - of_nat n) (s_stack (adv (length (header 0xC0 n)) s)) @ [0]"
    using assms by (simp add: moved_def opened_def cached_def offset_def)
  let ?s = "s'\<lparr>s_stack := butlast (s_stack s'), s_kind := None, s_kinderr := None\<rparr>"
  show "Stream_ListEnd s' = (Inr (), ?s)" by (simp add: Stream_ListEnd_def op_simps st)
  show "moved (length (header 0xC0 n) + n) c s ?s"
    using assms st by (auto simp: moved_def opened_def cached_def offset_def add.commute diff_diff_eq)
  show "s_kind ?s = None" by simp
qed

text \<open>A list is read when its body is; the body need not leave the cache empty.\<close>

lemma reads_List:
  assumes "length bs \<le> 10485760"
    and "\<And>s. ready (length bs) c d s \<Longrightarrow> starts bs s \<Longrightarrow> inside (length bs) s \<Longrightarrow>
      \<exists>s'. body s = (Inr x, s') \<and> moved (length bs) c s s'"
  shows "reads (header 0xC0 (length bs) @ bs) c (Suc d)
    (bind Stream_List (\<lambda>_. bind body (\<lambda>x. bind Stream_ListEnd (\<lambda>_. ret (f x))))) (f x)"
proof (rule readsI)
  let ?n = "length bs"
  fix s assume "ready (length (header 0xC0 ?n @ bs)) c (Suc d) s" and st: "starts (header 0xC0 ?n @ bs) s"
  then have rd: "ready (length (header 0xC0 ?n) + ?n) c (Suc d) s" by simp
  note opens = List_opens [OF rd st refl assms(1)]
  from assms(2) [OF opens(2-4)] obtain s' where body: "body (opened ?n s) = (Inr x, s')" "moved ?n c (opened ?n s) s'" by blast
  from List_closes [OF body(2)] obtain s'' where
    "Stream_ListEnd s' = (Inr (), s'')" "moved (length (header 0xC0 ?n) + ?n) c s s''" "s_kind s'' = None" .
  then show "\<exists>s'. bind Stream_List (\<lambda>_. bind body (\<lambda>x. bind Stream_ListEnd (\<lambda>_. ret (f x)))) s = (Inr (f x), s') \<and>
      moved (length (header 0xC0 ?n @ bs)) c s s' \<and> s_kind s' = None"
    using opens(1) body(1) by (simp add: op_simps)
qed

text \<open>One element, and what the rest of the list sees.\<close>

lemma reads_next:
  assumes "reads bs c d dec v" "ready (length bs + n) (c + c') d s" "starts (bs @ bs') s" "inside (length bs + n) s"
  obtains s' where "dec s = (Inr v, s')" "moved (length bs) c s s'" "ready n c' d s'" "starts bs' s'" "inside n s'"
proof -
  have "ready (length bs) c d s" "starts bs s" using assms(2,3) ready_mono [OF assms(2)] by (simp_all add: starts_append)
  with assms(1) obtain s' where s': "dec s = (Inr v, s')" "moved (length bs) c s s'" "s_kind s' = None"
    unfolding reads_def by blast
  with assms show ?thesis
    by (intro that [OF s'(1,2) ready_moved [OF assms(2) s'(2,3)]]) (auto simp: moved_starts starts_append intro: inside_moved)
qed

lemma reads_Elems:
  assumes "\<And>v. v \<in> set vs \<Longrightarrow> reads (enc v) (cost v) d dec v"
    and "\<And>s. ready 0 e d s \<Longrightarrow> inside 0 s \<Longrightarrow> \<exists>s'. dec s = (Inl EOL, s') \<and> moved 0 e s s'"
    and "length elems + length vs < 1048576" "ready (length (concat (map enc vs))) (sum_list (map cost vs) + e) d s"
    and "starts (concat (map enc vs)) s" "inside (length (concat (map enc vs))) s"
  shows "\<exists>s'. decodeElems dec elems s = (Inr (elems @ vs), s') \<and>
    moved (length (concat (map enc vs))) (sum_list (map cost vs) + e) s s'"
  using assms
proof (induction vs arbitrary: elems s)
  case Nil
  then obtain s' where "dec s = (Inl EOL, s')" "moved 0 e s s'" by fastforce
  then show ?case using Nil(3) by (subst decodeElems.simps) (simp add: op_simps maxSliceElements_def)
next
  case (Cons v vs)
  let ?n = "length (concat (map enc vs))" and ?c = "sum_list (map cost vs) + e"
  have "reads (enc v) (cost v) d dec v" using Cons.prems(1) by simp
  moreover have "ready (length (enc v) + ?n) (cost v + ?c) d s" "starts (enc v @ concat (map enc vs)) s" "inside (length (enc v) + ?n) s"
    using Cons.prems(4-6) by (simp_all add: add.assoc)
  ultimately obtain s1 where s1: "dec s = (Inr v, s1)" "moved (length (enc v)) (cost v) s s1"
      "ready ?n ?c d s1" "starts (concat (map enc vs)) s1" "inside ?n s1"
    by (rule reads_next)
  then obtain s2 where "decodeElems dec (elems @ [v]) s1 = (Inr ((elems @ [v]) @ vs), s2)" "moved ?n ?c s1 s2"
    using Cons.IH [of "elems @ [v]" s1] Cons.prems(1-3) by auto
  moreover from moved_trans [OF s1(2) this(2)] have "moved (length (concat (map enc (v # vs)))) (sum_list (map cost (v # vs)) + e) s s2"
    by (simp add: add.assoc)
  ultimately show ?case using Cons.prems(3) s1(1) by (subst decodeElems.simps) (simp add: op_simps maxSliceElements_def)
qed

lemma reads_ArrayElems:
  assumes "\<And>v. v \<in> set vs \<Longrightarrow> reads (enc v) (cost v) d dec v"
    and "ready (length (concat (map enc vs))) (sum_list (map cost vs)) d s"
    and "starts (concat (map enc vs)) s" "inside (length (concat (map enc vs))) s"
  shows "\<exists>s'. decodeArrayElems dec zero (length vs) s = (Inr vs, s') \<and>
    moved (length (concat (map enc vs))) (sum_list (map cost vs)) s s'"
  using assms
proof (induction vs arbitrary: s)
  case Nil
  then show ?case by (simp add: op_simps moved_0)
next
  case (Cons v vs)
  let ?n = "length (concat (map enc vs))" and ?c = "sum_list (map cost vs)"
  have "reads (enc v) (cost v) d dec v" using Cons.prems(1) by simp
  moreover have "ready (length (enc v) + ?n) (cost v + ?c) d s" "starts (enc v @ concat (map enc vs)) s" "inside (length (enc v) + ?n) s"
    using Cons.prems(2-4) by simp_all
  ultimately obtain s1 where s1: "dec s = (Inr v, s1)" "moved (length (enc v)) (cost v) s s1"
      "ready ?n ?c d s1" "starts (concat (map enc vs)) s1" "inside ?n s1"
    by (rule reads_next)
  then obtain s2 where "decodeArrayElems dec zero (length vs) s1 = (Inr vs, s2)" "moved ?n ?c s1 s2"
    using Cons.IH [of s1] Cons.prems(1) by auto
  with moved_trans [OF s1(2) this(2)] s1(1) show ?case by (simp add: op_simps)
qed

section \<open>The types and their values\<close>

text \<open>The lists a type opens, and the calls of \<open>Bytes\<close>: the failing one at the end of a slice, and those for a value.\<close>

fun depth :: "rtype \<Rightarrow> nat" where
  "depth (TSlice t) = Suc (depth t)"
| "depth (TArray n t) = Suc (depth t)"
| "depth (TStruct fs) = Suc (fold max (map (\<lambda>(_, t). depth t) fs) 0)"
| "depth (TPtr t) = depth t"
| "depth _ = 0"

definition endCalls :: "rtype \<Rightarrow> nat" where
  "endCalls t = (case t of TString \<Rightarrow> 1 | TBytes \<Rightarrow> 1 | _ \<Rightarrow> 0)"

fun calls :: "rtype \<Rightarrow> val \<Rightarrow> nat" where
  "calls (TSlice t) = (\<lambda>v. case v of VSlice vs \<Rightarrow> sum_list (map (calls t) vs) + endCalls t | _ \<Rightarrow> 0)"
| "calls (TArray n t) = (\<lambda>v. case v of VArray vs \<Rightarrow> sum_list (map (calls t) vs) | _ \<Rightarrow> 0)"
| "calls (TStruct fs) = (\<lambda>v. case v of
     VStruct vs \<Rightarrow> sum_list (map2 (\<lambda>f (exported, v). if exported then f v else 0) (map (\<lambda>(_, t). calls t) fs) vs)
   | _ \<Rightarrow> 0)"
| "calls (TPtr t) = (\<lambda>v. case v of VPtr v \<Rightarrow> calls t v | _ \<Rightarrow> 0)"
| "calls TString = (\<lambda>_. 1)"
| "calls TBytes = (\<lambda>_. 1)"
| "calls TBigInt = (\<lambda>_. 1)"
| "calls _ = (\<lambda>_. 0)"

text \<open>The values of a type that a decoded variable can have: no negative integers, fewer elements than the
  limit, unexported fields zero, no pointer to a value with the encoding of a nil pointer.\<close>

fun hasType :: "rtype \<Rightarrow> val \<Rightarrow> bool" where
  "hasType TBool = (\<lambda>v. case v of VBool b \<Rightarrow> True | _ \<Rightarrow> False)"
| "hasType (TInt bits) = (\<lambda>v. case v of VInt i \<Rightarrow> 0 \<le> i \<and> i \<le> uint (maxInt bits) | _ \<Rightarrow> False)"
| "hasType (TUint bits) = (\<lambda>v. case v of VUint w \<Rightarrow> w \<le> maxUint bits | _ \<Rightarrow> False)"
| "hasType TString = (\<lambda>v. case v of VString b \<Rightarrow> True | _ \<Rightarrow> False)"
| "hasType TBytes = (\<lambda>v. case v of VBytes b \<Rightarrow> True | _ \<Rightarrow> False)"
| "hasType (TByteArray n) = (\<lambda>v. case v of VByteArray b \<Rightarrow> length b = n | _ \<Rightarrow> False)"
| "hasType (TSlice t) = (\<lambda>v. case v of
     VSlice vs \<Rightarrow> t \<noteq> TOther \<and> list_all (hasType t) vs \<and> length vs < maxSliceElements | _ \<Rightarrow> False)"
| "hasType (TArray n t) = (\<lambda>v. case v of VArray vs \<Rightarrow> list_all (hasType t) vs \<and> length vs = n | _ \<Rightarrow> False)"
| "hasType (TStruct fs) = (\<lambda>v. case v of
     VStruct vs \<Rightarrow> list_all2 (\<lambda>(exported, has, zero) (exported', v). exported' = exported \<and>
         (if exported then has v else v = zero))
       (map (\<lambda>(exported, t). (exported, hasType t, zeroValue t)) fs) vs
   | _ \<Rightarrow> False)"
| "hasType TBigInt = (\<lambda>v. case v of VBigInt i \<Rightarrow> 0 \<le> i | _ \<Rightarrow> False)"
| "hasType (TPtr t) = (\<lambda>v. case v of
     VNil \<Rightarrow> True | VPtr v \<Rightarrow> hasType t v \<and> item v \<noteq> Some (Str []) | _ \<Rightarrow> False)"
| "hasType TInterface = (\<lambda>_. False)"
| "hasType TOther = (\<lambda>_. False)"

text \<open>The encoding of a value.\<close>

definition enc :: "val \<Rightarrow> byte list" where
  "enc v = rlp_bytes (the (item v))"

text \<open>The fields of a struct; unexported ones keep their zero value.\<close>

definition exportedBytes :: "(bool \<times> val) list \<Rightarrow> byte list" where
  "exportedBytes vs = concat (map (\<lambda>(exported, v). if exported then enc v else []) vs)"

lemma reads_Fields:
  assumes "list_all2 (\<lambda>(exported, t) (exported', v). exported' = exported \<and>
      (if exported then reads (enc v) (calls t v) d (decodeValue t) v else v = zeroValue t)) fs vs"
    and "ready (length (exportedBytes vs)) (calls (TStruct fs) (VStruct vs)) d s"
    and "starts (exportedBytes vs) s" "inside (length (exportedBytes vs)) s"
  shows "\<exists>s'. decodeFields (map (\<lambda>(exported, t). (exported, decodeValue t, zeroValue t)) fs) s = (Inr vs, s') \<and>
    moved (length (exportedBytes vs)) (calls (TStruct fs) (VStruct vs)) s s'"
  using assms
proof (induction fs vs arbitrary: s rule: list_all2_induct)
  case Nil
  then show ?case by (simp add: op_simps moved_0 exportedBytes_def)
next
  case (Cons f fs p vs)
  obtain exported t v where f: "f = (exported, t)" "p = (exported, v)" using Cons.hyps(1) by (cases f; cases p) auto
  let ?bs = "exportedBytes vs" and ?c = "calls (TStruct fs) (VStruct vs)"
  have bs: "exportedBytes (p # vs) = (if exported then enc v else []) @ ?bs" by (simp add: exportedBytes_def f)
  have c: "calls (TStruct (f # fs)) (VStruct (p # vs)) = (if exported then calls t v else 0) + ?c" by (simp add: f)
  show ?case
  proof (cases exported)
    case True
    have "reads (enc v) (calls t v) d (decodeValue t) v" using Cons.hyps(1) f True by simp
    moreover have "ready (length (enc v) + length ?bs) (calls t v + ?c) d s" "starts (enc v @ ?bs) s" "inside (length (enc v) + length ?bs) s"
      using Cons.prems unfolding bs c if_P [OF True] length_append by (simp_all del: calls.simps)
    ultimately obtain s1 where s1: "decodeValue t s = (Inr v, s1)" "moved (length (enc v)) (calls t v) s s1"
        "ready (length ?bs) ?c d s1" "starts ?bs s1" "inside (length ?bs) s1"
      by (rule reads_next)
    then obtain s2 where s2: "decodeFields (map (\<lambda>(exported, t). (exported, decodeValue t, zeroValue t)) fs) s1 = (Inr vs, s2)"
        "moved (length ?bs) ?c s1 s2"
      using Cons.IH [of s1] by blast
    from s1(1) s2(1) True have "decodeFields (map (\<lambda>(exported, t). (exported, decodeValue t, zeroValue t)) (f # fs)) s = (Inr (p # vs), s2)"
      by (simp add: f op_simps)
    with moved_trans [OF s1(2) s2(2)] show ?thesis unfolding bs c if_P [OF True] length_append by blast
  next
    case False
    with Cons.prems Cons.IH [of s] bs c obtain s2 where
      s2: "decodeFields (map (\<lambda>(exported, t). (exported, decodeValue t, zeroValue t)) fs) s = (Inr vs, s2)" "moved (length ?bs) ?c s s2"
      by (auto simp del: calls.simps)
    from s2(1) False Cons.hyps(1) have "decodeFields (map (\<lambda>(exported, t). (exported, decodeValue t, zeroValue t)) (f # fs)) s = (Inr (p # vs), s2)"
      by (simp add: f op_simps)
    with s2(2) show ?thesis unfolding bs c if_not_P [OF False] by auto
  qed
qed

section \<open>The round trip\<close>

lemma Kind_end:
  assumes "s_kind s = None" "inside 0 s"
  shows "Stream_Kind s = (Inl EOL, s\<lparr>s_kind := Some KByte, s_size := 0, s_kinderr := Some EOL\<rparr>)"
proof -
  have "readByte s = (Inl EOL, s)" using assms(2) by (auto simp: inside_def readByte_def unat_eq_zero)
  then show ?thesis using assms(1) by (simp add: Stream_Kind_def readKind_def op_simps)
qed

text \<open>At the end of a list every decoder finds it.\<close>

lemma decode_end:
  assumes "t \<noteq> TOther" "ready 0 (endCalls t) (depth t) s" "inside 0 s"
  shows "\<exists>s'. decodeValue t s = (Inl EOL, s') \<and> moved 0 (endCalls t) s s'"
proof -
  have kind: "Stream_Kind s = (Inl EOL, s\<lparr>s_kind := Some KByte, s_size := 0, s_kinderr := Some EOL\<rparr>)"
    using assms by (intro Kind_end) (simp_all add: ready_def)
  have bytes: "Stream_Bytes s = (Inl EOL,
      s\<lparr>s_callCount := Suc (s_callCount s), s_kind := Some KByte, s_size := 0, s_kinderr := Some EOL\<rparr>)"
    if "s_callCount s < 10000"
    using that Kind_end [of "s\<lparr>s_callCount := Suc (s_callCount s)\<rparr>"] assms
    by (simp add: Stream_Bytes_def op_simps maxBytesCalls_def ready_def inside_def)
  have list: "Stream_List s = (Inl EOL, s\<lparr>s_kind := Some KByte, s_size := 0, s_kinderr := Some EOL\<rparr>)"
    if "length (s_stack s) < 64"
    using that kind by (simp add: Stream_List_def op_simps maxNestingDepth_def)
  show ?thesis
    using assms(1,2) kind bytes list
    by (cases t) (simp_all add: op_simps endCalls_def moved_def ready_def Stream_Bool_def Stream_Uint_def Stream_uint_def
        Stream_BigInt_def decodeByteArray_def decodeSlice_def decodeArray_def decodeStruct_def decodePtr_def decodeInterface_def Stream_Raw_def)
qed

lemma decode_peek:
  assumes "t \<noteq> TOther" "Stream_Kind s = (Inr r, s1)" "s_kind s = None" "s_callCount s + endCalls t \<le> 10000"
    "length (s_stack s) + depth t \<le> 64"
  shows "decodeValue t s1 = decodeValue t s"
proof -
  have list: "Stream_List s1 = Stream_List s" if "length (s_stack s) < 64" using List_peek [OF assms(2,3) that] .
  have bytes: "Stream_Bytes s1 = Stream_Bytes s" if "s_callCount s < 10000" using Bytes_peek [OF assms(2) that] .
  show ?thesis
    using assms(1,2,4,5) list bytes Kind_idem [OF assms(2)]
    by (cases t) (simp_all add: op_simps endCalls_def Stream_Bool_def Stream_Uint_def Stream_uint_def
        Stream_BigInt_def decodeByteArray_def decodeSlice_def decodeArray_def decodeStruct_def decodePtr_def decodeInterface_def Stream_Raw_def)
qed

lemma reads_mono: "reads bs c d m x \<Longrightarrow> d \<le> d' \<Longrightarrow> reads bs c d' m x"
  unfolding reads_def by (meson order_refl ready_mono)

lemma Kind_item:
  assumes "ready (length (rlp_bytes it)) c d s" "starts (rlp_bytes it) s" "length (rlp_bytes it) \<le> 10485760"
  shows "\<exists>k n s1. Stream_Kind s = (Inr (k, n), s1) \<and> (k = KString \<and> n = 0 \<longrightarrow> it = Str [])"
proof (cases it)
  case (Str b)
  show ?thesis
  proof (cases b rule: Str_cases)
    case (byte x)
    with assms show ?thesis using Kind_byte [of c d s x] by (simp add: Str)
  next
    case header
    with assms(3) have n: "length b \<le> 10485760" by (simp add: Str)
    then have "(of_nat (length b) :: u64) = 0 \<longleftrightarrow> b = []" by (simp add: word_unat_eq_iff unat_of_nat64)
    then show ?thesis using assms header Kind_string [of "length b" "length b" c d s b] n by (simp add: Str)
  qed
next
  case (Lst xs)
  let ?bs = "concat (map rlp_bytes xs)"
  have it: "rlp_bytes it = header 0xC0 (length ?bs) @ ?bs" by (simp add: Lst rlp_bytes.simps Let_def)
  have "Stream_Kind s = (Inr (KList, of_nat (length ?bs)), cached KList (length ?bs) s)"
    using assms ready_mono [OF assms(1), of "length (header 0xC0 (length ?bs))" c d]
    by (intro Kind_header [of _ _ c d]) (simp_all add: it offset_def starts_append)
  then show ?thesis by simp
qed

lemma those_the: "(\<And>x. x \<in> set xs \<Longrightarrow> f x \<noteq> None) \<Longrightarrow> those (map f xs) = Some (map (\<lambda>x. the (f x)) xs)"
  by (simp add: those_eq_Some)

lemma enc_list:
  assumes "\<And>v. v \<in> set vs \<Longrightarrow> item v \<noteq> None"
  shows "enc (VSlice vs) = header 0xC0 (length (concat (map enc vs))) @ concat (map enc vs)"
    "enc (VArray vs) = header 0xC0 (length (concat (map enc vs))) @ concat (map enc vs)"
  using those_the [of vs item, OF assms] by (simp_all add: enc_def [abs_def] rlp_bytes.simps Let_def comp_def)

lemma enc_struct:
  assumes "\<And>v. (True, v) \<in> set vs \<Longrightarrow> item v \<noteq> None"
  shows "enc (VStruct vs) = header 0xC0 (length (exportedBytes vs)) @ exportedBytes vs"
proof -
  let ?xs = "filter (\<lambda>(exported, _). exported) vs"
  have "those (map (\<lambda>(_, v). item v) ?xs) = Some (map (\<lambda>x. the (case x of (_, v) \<Rightarrow> item v)) ?xs)"
    using assms by (intro those_the) auto
  moreover have "concat (map (\<lambda>x. rlp_bytes (the (case x of (_, v) \<Rightarrow> item v))) ?xs) = exportedBytes vs"
    by (induction vs) (auto simp: exportedBytes_def enc_def)
  ultimately show ?thesis by (simp add: enc_def rlp_bytes.simps Let_def comp_def)
qed

lemma hasType_struct:
  "hasType (TStruct fs) (VStruct vs) \<longleftrightarrow> list_all2 (\<lambda>(exported, t) (exported', v). exported' = exported \<and>
     (if exported then hasType t v else v = zeroValue t)) fs vs"
  by (simp add: list_all2_map1 case_prod_beta')

lemma hasType_field:
  assumes "hasType (TStruct fs) (VStruct vs)" "(True, v) \<in> set vs"
  obtains t where "(True, t) \<in> set fs" "hasType t v"
proof -
  from assms(2) obtain k where k: "k < length vs" "vs ! k = (True, v)" by (auto simp: in_set_conv_nth)
  obtain b t where f: "fs ! k = (b, t)" by (cases "fs ! k")
  with assms(1) k have "b" "hasType t v" "k < length fs" by (auto simp: hasType_struct list_all2_conv_all_nth)
  with f nth_mem [of k fs] that show ?thesis by simp
qed

lemma hasType_item: "hasType t v \<Longrightarrow> item v \<noteq> None"
proof (induction t arbitrary: v rule: hasType.induct)
  case (7 t)
  then obtain vs where "v = VSlice vs" "\<And>w. w \<in> set vs \<Longrightarrow> hasType t w" by (auto simp: list_all_iff split: val.splits)
  with 7(1) those_the [of vs item] show ?case by force
next
  case (8 n t)
  then obtain vs where "v = VArray vs" "\<And>w. w \<in> set vs \<Longrightarrow> hasType t w" by (auto simp: list_all_iff split: val.splits)
  with 8(1) those_the [of vs item] show ?case by force
next
  case (9 fs)
  then obtain vs where v: "v = VStruct vs" by (auto split: val.splits)
  have "item w \<noteq> None" if "(True, w) \<in> set vs" for w
    using hasType_field [OF 9(2) [unfolded v] that] 9(1) by metis
  then have "those (map (\<lambda>(_, v). item v) (filter (\<lambda>(exported, _). exported) vs)) \<noteq> None"
    by (subst those_the) auto
  then show ?case by (simp add: v)
qed (auto split: val.splits)

lemma concat_bound: "v \<in> set vs \<Longrightarrow> length (enc v) \<le> length (concat (map enc vs))"
  by (induction vs) auto

lemma exported_bound: "(True, v) \<in> set vs \<Longrightarrow> length (enc v) \<le> length (exportedBytes vs)"
  by (induction vs) (auto simp: exportedBytes_def)

lemma fold_max_ge: "x \<in> set xs \<Longrightarrow> x \<le> fold max xs (m :: nat)" "m \<le> fold max xs m"
proof (induction xs arbitrary: m)
  case (Cons y ys)
  { case 1 then show ?case using Cons.IH(1) [of "max y m"] Cons.IH(2) [of "max y m"] by auto }
  { case 2 then show ?case using Cons.IH(2) [of "max y m"] by simp }
qed simp_all

lemma reads_ptr:
  assumes "hasType (TPtr t) v" "length (enc v) \<le> 10485760"
    and "\<And>w. hasType t w \<Longrightarrow> length (enc w) \<le> 10485760 \<Longrightarrow> reads (enc w) (calls t w) (depth t) (decodeValue t) w"
  shows "reads (enc v) (calls (TPtr t) v) (depth t) (decodePtr (decodeValue t)) v"
proof (cases v)
  case VNil
  have kind: "Stream_Kind s = (Inr (KString, 0), cached KString 0 s)" if "ready 1 0 d s" "starts [0x80] s" for s d
    using that Kind_header [of KString 0 0 d s] by (simp add: offset_def)
  show ?thesis
    using kind by (auto intro!: readsI simp: VNil enc_def rlp_bytes.simps decodePtr_def op_simps rearm_def moved_def cached_def offset_def)
next
  case (VPtr w)
  have w: "hasType t w" "item w \<noteq> Some (Str [])" "enc v = enc w" "t \<noteq> TOther" using assms(1) by (auto simp: VPtr enc_def)
  obtain it where it: "item w = Some it" using hasType_item [OF w(1)] by blast
  then have enc: "enc w = rlp_bytes it" by (simp add: enc_def)
  have ends: "endCalls t \<le> calls t w" by (cases t) (simp_all add: endCalls_def)
  show ?thesis
  proof (rule readsI)
    fix s assume s: "ready (length (enc v)) (calls (TPtr t) v) (depth t) s" "starts (enc v) s"
    then have "\<exists>k n s1. Stream_Kind s = (Inr (k, n), s1) \<and> (k = KString \<and> n = 0 \<longrightarrow> it = Str [])"
      using assms(2) unfolding w(3) enc by (rule Kind_item)
    then obtain k n s1 where kind: "Stream_Kind s = (Inr (k, n), s1)" "\<not> (k = KString \<and> n = 0)" using it w(2) by auto
    moreover have "decodeValue t s1 = decodeValue t s"
      using s(1) ends by (intro decode_peek [OF w(4) kind(1)]) (simp_all add: ready_def VPtr)
    moreover obtain s' where "decodeValue t s = (Inr w, s')" "moved (length (enc v)) (calls t w) s s'" "s_kind s' = None"
      using assms(2,3) w s unfolding reads_def VPtr calls.simps val.case by metis
    ultimately show "\<exists>s'. decodePtr (decodeValue t) s = (Inr v, s') \<and> moved (length (enc v)) (calls (TPtr t) v) s s' \<and> s_kind s' = None"
      by (auto simp: decodePtr_def op_simps VPtr)
  qed
qed (use assms(1) in simp_all)

lemma reads_ret: "reads bs c d m x \<Longrightarrow> reads bs c d (bind m (\<lambda>x. ret (f x))) (f x)"
  by (rule reads_bind) (simp_all add: op_simps)

lemma reads_uint_value:
  assumes "item v = Some (Str (nat_bytes (unat w)))" "\<And>s. k w s = (Inr v, s)"
  shows "reads (enc v) 0 0 (bind Stream_Uint k) v"
proof -
  have "length (nat_bytes (unat w)) \<le> 8" using unat_u64_bound [of w] by (simp add: length_nat_bytes_le del: unat_u64_bound)
  then have "reads (rlp_bytes (Str (nat_bytes (unat w)))) 0 0 (Stream_uint 64) w" by (intro reads_uint) simp_all
  then show ?thesis using assms by (simp add: Stream_Uint_def enc_def reads_bind)
qed

lemma reads_Bool: "reads (enc (VBool b)) 0 0 Stream_Bool b"
proof -
  let ?w = "if b then 1 else 0 :: u64"
  have bytes: "nat_bytes (unat ?w) = (if b then [1] else [])" by (simp add: nat_bytes_small)
  have "reads (rlp_bytes (Str (nat_bytes (unat ?w)))) 0 0 (Stream_uint 8) ?w" by (intro reads_uint) (simp_all add: bytes)
  then have "reads (enc (VBool b)) 0 0 (Stream_uint 8) ?w" unfolding bytes by (simp add: enc_def)
  then show ?thesis unfolding Stream_Bool_def by (rule reads_bind) (simp add: op_simps)
qed

lemma reads_BigInt:
  assumes "0 \<le> i" "length (rlp_bytes (Str (big_Bytes i))) \<le> 10485760"
  shows "reads (rlp_bytes (Str (big_Bytes i))) 1 0 Stream_BigInt i"
proof (rule readsI)
  let ?b = "big_Bytes i"
  fix s assume s: "ready (length (rlp_bytes (Str ?b))) 1 0 s" "starts (rlp_bytes (Str ?b)) s"
  from Kind_item [OF s assms(2)] obtain r s1 where kind: "Stream_Kind s = (Inr r, s1)" by blast
  have "Stream_Bytes s1 = Stream_Bytes s" using s(1) by (intro Bytes_peek [OF kind]) (simp add: ready_def)
  moreover obtain s' where s': "Stream_Bytes s = (Inr ?b, s')" "moved (length (rlp_bytes (Str ?b))) 1 s s'" "s_kind s' = None"
    using reads_Bytes [OF assms(2)] s unfolding reads_def by blast
  moreover have "\<not> (length ?b > 0 \<and> ?b ! 0 = 0)"
    using hd_nat_bytes [of "nat i"] assms(1) by (auto simp: big_Bytes_def hd_conv_nth)
  moreover have "big_SetBytes ?b = i" using assms(1) by simp
  ultimately show "\<exists>s'. Stream_BigInt s = (Inr i, s') \<and> moved (length (rlp_bytes (Str ?b))) 1 s s' \<and> s_kind s' = None"
    using kind by (simp add: Stream_BigInt_def op_simps)
qed

text \<open>The composite types, given that the values of their parts are read.\<close>

definition decodes :: "rtype \<Rightarrow> bool" where
  "decodes t \<longleftrightarrow> (\<forall>v. hasType t v \<longrightarrow> length (enc v) \<le> 10485760 \<longrightarrow> reads (enc v) (calls t v) (depth t) (decodeValue t) v)"

lemma decodesI:
  "(\<And>v. hasType t v \<Longrightarrow> length (enc v) \<le> 10485760 \<Longrightarrow> reads (enc v) (calls t v) (depth t) (decodeValue t) v) \<Longrightarrow> decodes t"
  by (simp add: decodes_def)

lemma decodesD: "decodes t \<Longrightarrow> hasType t v \<Longrightarrow> length (enc v) \<le> 10485760 \<Longrightarrow> reads (enc v) (calls t v) (depth t) (decodeValue t) v"
  by (simp add: decodes_def)

lemma decodes_slice: "decodes t \<Longrightarrow> decodes (TSlice t)"
proof (rule decodesI)
  fix v assume t: "decodes t" and "hasType (TSlice t) v" and len: "length (enc v) \<le> 10485760"
  then obtain vs where v: "v = VSlice vs" "t \<noteq> TOther" "\<And>w. w \<in> set vs \<Longrightarrow> hasType t w" "length vs < 1048576"
    by (auto simp: list_all_iff maxSliceElements_def split: val.splits)
  let ?bs = "concat (map enc vs)"
  have enc: "enc v = header 0xC0 (length ?bs) @ ?bs" unfolding v(1) using v(3) by (intro enc_list hasType_item)
  have elems: "reads (enc w) (calls t w) (depth t) (decodeValue t) w" if "w \<in> set vs" for w
    using decodesD [OF t v(3) [OF that]] concat_bound [OF that] len enc by simp
  have "\<exists>s'. decodeElems (decodeValue t) [] s = (Inr vs, s') \<and> moved (length ?bs) (calls (TSlice t) v) s s'"
    if "ready (length ?bs) (calls (TSlice t) v) (depth t) s" "starts ?bs s" "inside (length ?bs) s" for s
    using reads_Elems [OF elems decode_end [OF v(2)], where elems = "[]" and s = s and vs = vs] that v(1,4) by simp
  then have "reads (enc v) (calls (TSlice t) v) (Suc (depth t)) (decodeSlice (decodeValue t)) (VSlice vs)"
    unfolding decodeSlice_def enc using len enc by (intro reads_List) simp_all
  then show "reads (enc v) (calls (TSlice t) v) (depth (TSlice t)) (decodeValue (TSlice t)) v" by (simp add: v(1))
qed

lemma decodes_array: "decodes t \<Longrightarrow> decodes (TArray n t)"
proof (rule decodesI)
  fix v assume t: "decodes t" and "hasType (TArray n t) v" and len: "length (enc v) \<le> 10485760"
  then obtain vs where v: "v = VArray vs" "\<And>w. w \<in> set vs \<Longrightarrow> hasType t w" "length vs = n"
    by (auto simp: list_all_iff split: val.splits)
  let ?bs = "concat (map enc vs)"
  have enc: "enc v = header 0xC0 (length ?bs) @ ?bs" unfolding v(1) using v(2) by (intro enc_list hasType_item)
  have elems: "reads (enc w) (calls t w) (depth t) (decodeValue t) w" if "w \<in> set vs" for w
    using decodesD [OF t v(2) [OF that]] concat_bound [OF that] len enc by simp
  have "\<exists>s'. decodeArrayElems (decodeValue t) (zeroValue t) n s = (Inr vs, s') \<and> moved (length ?bs) (calls (TArray n t) v) s s'"
    if "ready (length ?bs) (calls (TArray n t) v) (depth t) s" "starts ?bs s" "inside (length ?bs) s" for s
    using reads_ArrayElems [OF elems, where zero = "zeroValue t" and s = s and vs = vs] that v(1,3) by simp
  then have "reads (enc v) (calls (TArray n t) v) (Suc (depth t)) (decodeArray (decodeValue t) (zeroValue t) n) (VArray vs)"
    unfolding decodeArray_def enc using len enc by (intro reads_List) simp_all
  then show "reads (enc v) (calls (TArray n t) v) (depth (TArray n t)) (decodeValue (TArray n t)) v" by (simp add: v(1))
qed

lemma decodes_struct: "(\<And>exported t. (exported, t) \<in> set fs \<Longrightarrow> decodes t) \<Longrightarrow> decodes (TStruct fs)"
proof (rule decodesI)
  fix v assume t: "\<And>exported t. (exported, t) \<in> set fs \<Longrightarrow> decodes t"
    and ty: "hasType (TStruct fs) v" and len: "length (enc v) \<le> 10485760"
  then obtain vs where v: "v = VStruct vs" by (auto split: val.splits)
  note ty = ty [unfolded v]
  have "item w \<noteq> None" if "(True, w) \<in> set vs" for w
    using hasType_field [OF ty that] hasType_item by metis
  then have enc: "enc v = header 0xC0 (length (exportedBytes vs)) @ exportedBytes vs" unfolding v by (intro enc_struct)
  let ?d = "fold max (map (\<lambda>(_, t). depth t) fs) 0"
  have field: "reads (enc w) (calls t w) ?d (decodeValue t) w"
    if "(exported, t) \<in> set fs" "(True, w) \<in> set vs" "hasType t w" for exported t w
  proof -
    have "depth t \<le> ?d" using that(1) by (intro fold_max_ge) force
    moreover have "length (enc w) \<le> 10485760" using exported_bound [OF that(2)] len enc by simp
    ultimately show ?thesis using decodesD [OF t [OF that(1)] that(3)] by (blast intro: reads_mono)
  qed
  have "list_all2 (\<lambda>(exported, t) (exported', v). exported' = exported \<and>
      (if exported then reads (enc v) (calls t v) ?d (decodeValue t) v else v = zeroValue t)) fs vs"
    by (rule list.rel_mono_strong [OF ty [unfolded hasType_struct]]) (auto intro: field)
  from reads_Fields [OF this]
  have "\<exists>s'. decodeFields (map (\<lambda>(exported, t). (exported, decodeValue t, zeroValue t)) fs) s = (Inr vs, s') \<and>
      moved (length (exportedBytes vs)) (calls (TStruct fs) v) s s'"
    if "ready (length (exportedBytes vs)) (calls (TStruct fs) v) ?d s" "starts (exportedBytes vs) s" "inside (length (exportedBytes vs)) s" for s
    using that unfolding v .
  then have "reads (enc v) (calls (TStruct fs) v) (Suc ?d)
      (decodeStruct (map (\<lambda>(exported, t). (exported, decodeValue t, zeroValue t)) fs)) (VStruct vs)"
    unfolding decodeStruct_def enc using len enc by (intro reads_List) (simp_all del: calls.simps)
  then show "reads (enc v) (calls (TStruct fs) v) (depth (TStruct fs)) (decodeValue (TStruct fs)) v"
    by (simp add: v del: calls.simps)
qed

lemma decodes_int: "decodes (TInt bits)"
proof (rule decodesI)
  fix v assume "hasType (TInt bits) v"
  then obtain i where v: "v = VInt i" "0 \<le> i" "i \<le> uint (maxInt bits)" by (auto split: val.splits)
  then have u: "uint (word_of_int i :: u64) = i" using uint_lt2p [of "maxInt bits"] by (simp add: uint_word_of_int_eq take_bit_int_eq_self)
  then have n: "unat (word_of_int i :: u64) = nat i" by (simp flip: nat_uint_eq)
  have "reads (enc v) 0 0 (bind Stream_Uint (\<lambda>i. if i > maxInt bits then fail ErrValueTooLarge else ret (VInt (uint i)))) v"
    using v u n by (intro reads_uint_value [of _ "word_of_int i"]) (simp_all add: op_simps word_less_def big_Bytes_def)
  then show "reads (enc v) (calls (TInt bits) v) (depth (TInt bits)) (decodeValue (TInt bits)) v" by simp
qed

lemma decodes_uint: "decodes (TUint bits)"
proof (rule decodesI)
  fix v assume "hasType (TUint bits) v"
  then obtain w where v: "v = VUint w" "w \<le> maxUint bits" by (auto split: val.splits)
  have "reads (enc v) 0 0 (bind Stream_Uint (\<lambda>i. if i > maxUint bits then fail ErrValueTooLarge else ret (VUint i))) v"
    using v by (intro reads_uint_value [of _ w]) (simp_all add: op_simps big_Bytes_def not_less)
  then show "reads (enc v) (calls (TUint bits) v) (depth (TUint bits)) (decodeValue (TUint bits)) v" by simp
qed

lemma decodes_strings: "decodes TString" "decodes TBytes" "decodes TBigInt" "decodes (TByteArray n)"
  by (auto simp: decodes_def enc_def intro!: reads_ret reads_Bytes [unfolded One_nat_def] reads_BigInt [unfolded One_nat_def]
      reads_ByteArray split: val.splits)

lemma decodes_bool: "decodes TBool"
  by (auto simp: decodes_def intro!: reads_ret reads_Bool split: val.splits)

lemma decodes_ptr: "decodes t \<Longrightarrow> decodes (TPtr t)"
  using reads_ptr [of t] unfolding decodes_def decodeValue.simps depth.simps by blast

lemma decodes_all: "decodes t"
proof (induction t rule: decodeValue.induct)
  case (10 fs)
  then show ?case by (intro decodes_struct) blast
qed (simp_all add: decodes_bool decodes_int decodes_uint decodes_strings decodes_slice decodes_array decodes_ptr,
    simp_all add: decodes_def)

end
