(* ===== verification/RLP_Canonical.thy ===== *)
theory RLP_Canonical
  imports RLP_Roundtrip
begin

text \<open>
  Encoder and decoder together. The converse of \<open>RLP_Roundtrip\<close>: for the types whose decoder is strict,
  what a successful decoding has consumed is the encoding of the value it returns (\<open>canonical\<close>). With
  the round trip this makes the package a codec in the sense of the locale \<open>typed_codec\<close>.
  The decoders of structs and of interfaces are not strict.
\<close>

section \<open>What is accepted\<close>

text \<open>The end of a list is only ever reported by the header read: everything after it fails with
  another error.\<close>

definition noEOL :: "(Stream, 'a) op \<Rightarrow> bool" where
  "noEOL m \<longleftrightarrow> (\<forall>s s'. m s \<noteq> (Inl EOL, s'))"

named_theorems noEOL_rules

lemma noEOL_ret [noEOL_rules]: "noEOL (ret x)"
  by (simp add: noEOL_def op_simps)

lemma noEOL_fail [noEOL_rules]: "x \<noteq> EOL \<Longrightarrow> noEOL (fail x)"
  by (simp add: noEOL_def op_simps)

lemma noEOL_gets [noEOL_rules]: "noEOL (gets f)"
  by (simp add: noEOL_def op_simps)

lemma noEOL_modify [noEOL_rules]: "noEOL (modify f)"
  by (simp add: noEOL_def op_simps)

lemma noEOL_bind [noEOL_rules]: "noEOL m \<Longrightarrow> (\<And>x. noEOL (k x)) \<Longrightarrow> noEOL (bind m k)"
  by (auto simp: noEOL_def op_simps split: prod.split sum.split)

lemma noEOL_if [noEOL_rules]: "noEOL m \<Longrightarrow> noEOL m' \<Longrightarrow> noEOL (if c then m else m')"
  by simp

lemma noEOL_Kind [noEOL_rules]: "noEOL a \<Longrightarrow> noEOL b \<Longrightarrow> noEOL c \<Longrightarrow> noEOL (case k of KByte \<Rightarrow> a | KString \<Rightarrow> b | KList \<Rightarrow> c)"
  by (cases k) simp_all

lemma noEOL_readFull [noEOL_rules]: "noEOL (readFull n)"
  by (auto simp: noEOL_def readFull_def io_ReadFull_def split: prod.split sum.split)

lemma noEOL_catch: "(\<And>x. noEOL (k x)) \<Longrightarrow> noEOL (catch dec (\<lambda>x. if x = EOL then ret e else fail x) k)"
  by (auto simp: noEOL_def op_simps split: prod.split sum.split)

lemma noEOL_decodeElems: "noEOL (decodeElems dec elems)"
proof (induction dec elems rule: decodeElems.induct)
  case (1 dec elems)
  then show ?case by (subst decodeElems.simps) (auto intro!: noEOL_rules noEOL_catch)
qed

lemma noEOL_decodeArrayElems: "noEOL (decodeArrayElems dec zero n)"
  by (induction n) (auto intro!: noEOL_rules noEOL_catch)

lemma noEOL_decodeFields: "noEOL (decodeFields fs)"
proof (induction fs rule: decodeFields.induct)
  case (2 exported dec zero fs)
  then show ?case unfolding decodeFields.simps by (cases exported) (auto intro!: noEOL_rules noEOL_catch)
qed (simp add: noEOL_ret)

lemma noEOL_ListEnd [noEOL_rules]: "noEOL Stream_ListEnd"
  unfolding Stream_ListEnd_def by (intro noEOL_rules; simp)

text \<open>Where it is reported, the input and the open lists are those after the header read.\<close>

definition atEnd :: "Stream \<Rightarrow> Stream \<Rightarrow> bool" where
  "atEnd s s' \<longleftrightarrow> fst (Stream_Kind s) = Inl EOL \<and> s_r s' = s_r (snd (Stream_Kind s)) \<and> s_stack s' = s_stack (snd (Stream_Kind s))"

lemma atEnd_Kind: "bind Stream_Kind k s = (Inl EOL, s') \<Longrightarrow> (\<And>x. noEOL (k x)) \<Longrightarrow> atEnd s s'"
  by (auto simp: atEnd_def op_simps noEOL_def split: prod.splits sum.splits)

lemma atEnd_bind: "bind m k s = (Inl EOL, s') \<Longrightarrow> (\<And>x. noEOL (k x)) \<Longrightarrow> m s = (Inl EOL, s')"
  by (auto simp: op_simps noEOL_def split: prod.splits sum.splits)

lemma noEOL_prod: "(\<And>a b. noEOL (f a b)) \<Longrightarrow> noEOL (case x of (a, b) \<Rightarrow> f a b)"
  by (cases x) simp

lemma atEnd_uint: "Stream_uint k s = (Inl EOL, s') \<Longrightarrow> atEnd s s'"
  unfolding Stream_uint_def countDecoded_def rearm_def by (rule atEnd_Kind) (assumption, (intro noEOL_rules noEOL_prod; simp))

lemma atEnd_Raw: "Stream_Raw s = (Inl EOL, s') \<Longrightarrow> atEnd s s'"
  unfolding Stream_Raw_def countDecoded_def rearm_def readBuf_def by (rule atEnd_Kind) (assumption, (intro noEOL_rules noEOL_prod; simp))

lemma atEnd_ByteArray: "decodeByteArray n s = (Inl EOL, s') \<Longrightarrow> atEnd s s'"
  unfolding decodeByteArray_def rearm_def by (rule atEnd_Kind) (assumption, (intro noEOL_rules noEOL_prod; simp))

lemma atEnd_Bytes: "Stream_Bytes s = (Inl EOL, s') \<Longrightarrow> atEnd s s'"
proof -
  let ?s = "s\<lparr>s_callCount := Suc (s_callCount s)\<rparr>"
  have "atEnd ?s s'" if "Stream_Bytes s = (Inl EOL, s')"
  proof -
    from that have "bind Stream_Kind (\<lambda>(kind, sz). case kind of
        KByte \<Rightarrow> bind rearm (\<lambda>_. bind (gets s_byteval) (\<lambda>b. ret [b]))
      | KString \<Rightarrow>
          if sz > maxStringSize then fail (Errorf ''rlp: string size exceeds limit'')
          else bind (countDecoded sz) (\<lambda>_. bind (readFull sz) (\<lambda>b. bind rearm (\<lambda>_.
            if sz = 1 \<and> b ! 0 < 0x80 then fail ErrCanonicalSize else ret b)))
      | KList \<Rightarrow> fail ErrExpectedString) ?s = (Inl EOL, s')"
      by (auto simp: Stream_Bytes_def run_bind [of "modify _"] run_bind [of "gets _"] run_modify run_gets run_fail split: if_splits)
    then show ?thesis unfolding countDecoded_def rearm_def by (rule atEnd_Kind) (intro noEOL_rules noEOL_prod; simp)
  qed
  then show "Stream_Bytes s = (Inl EOL, s') \<Longrightarrow> atEnd s s'" by (auto simp: atEnd_def Kind_call)
qed

lemma atEnd_List: "Stream_List s = (Inl EOL, s') \<Longrightarrow> atEnd s s'"
  by (auto simp: Stream_List_def atEnd_def op_simps split: prod.splits sum.splits if_splits)

lemma atEnd_decode: "decodeValue t s = (Inl EOL, s') \<Longrightarrow> atEnd s s'"
proof (induction t arbitrary: s rule: decodeValue.induct)
  case 1
  then have "Stream_Bool s = (Inl EOL, s')" unfolding decodeValue.simps by (rule atEnd_bind) (intro noEOL_rules)
  then have "Stream_uint 8 s = (Inl EOL, s')" unfolding Stream_Bool_def by (rule atEnd_bind) (intro noEOL_rules; simp)
  then show ?case by (rule atEnd_uint)
next
  case 9
  then have "Stream_BigInt s = (Inl EOL, s')" unfolding decodeValue.simps by (rule atEnd_bind) (intro noEOL_rules)
  then consider "atEnd s s'" | r s1 where "Stream_Kind s = (Inr r, s1)" "Stream_Bytes s1 = (Inl EOL, s')"
    by (auto simp: Stream_BigInt_def atEnd_def op_simps split: prod.splits sum.splits if_splits)
  then show ?case using Kind_idem [of s] atEnd_Bytes by cases (force simp: atEnd_def)+
next
  case (11 t)
  then consider "atEnd s s'" | r s1 where "Stream_Kind s = (Inr r, s1)" "decodeValue t s1 = (Inl EOL, s')"
    by (auto simp: decodePtr_def atEnd_def op_simps rearm_def split: prod.splits sum.splits if_splits)
  then show ?case using Kind_idem [of s] 11(1) by cases (force simp: atEnd_def)+
next
  case (6 t)
  then show ?case unfolding decodeValue.simps decodeSlice_def
    by (intro atEnd_List) (erule atEnd_bind, intro noEOL_rules noEOL_decodeElems)
next
  case (8 n t)
  then show ?case unfolding decodeValue.simps decodeArray_def
    by (intro atEnd_List) (erule atEnd_bind, intro noEOL_rules noEOL_decodeArrayElems)
next
  case (10 fs)
  show ?case using 10(2) unfolding decodeValue.simps decodeStruct_def
    by (intro atEnd_List) (erule atEnd_bind, intro noEOL_rules noEOL_decodeFields)
qed (unfold decodeValue.simps decodeInterface_def Stream_Uint_def,
    auto intro: atEnd_uint atEnd_Bytes atEnd_Raw atEnd_ByteArray dest!: atEnd_bind intro!: noEOL_rules simp: run_fail)

text \<open>The bytes a successful step has taken from a stream with no cached header.\<close>

definition took :: "byte list \<Rightarrow> Stream \<Rightarrow> Stream \<Rightarrow> bool" where
  "took bs s s' \<longleftrightarrow> starts bs s \<and> s_r s' = s_r (adv (length bs) s) \<and> s_stack s' = s_stack (adv (length bs) s)"

lemma took_append: "took bs s s1 \<Longrightarrow> took bs' s1 s2 \<Longrightarrow> took (bs @ bs') s s2"
  unfolding took_def starts_append by (auto simp: starts_def add.commute diff_diff_eq)

lemma Kind_took:
  assumes "Stream_Kind s = (Inr (k, n), s1)" "s_kind s = None"
  shows "if k = KByte then took [s_byteval s1] s s1 \<and> s_byteval s1 < 0x80
    else took (header (offset k) (unat n)) s s1 \<and> unat n \<le> 10485760"
proof -
  obtain s' where "readKind s = (Inr (k, n), s')" and s1: "s1 = s'\<lparr>s_kind := Some k, s_size := n, s_kinderr := None\<rparr>"
    using assms by (auto simp: Stream_Kind_def split: prod.splits sum.splits)
  from readKind_result [OF this(1)] show ?thesis by (auto simp: s1 took_def kindBytes_def split: if_splits)
qed

lemma content_took: "content n s = (Inr b, s') \<Longrightarrow> took b s s' \<and> length b = unat n \<and> s_kind s' = None"
  unfolding content_def countDecoded_def rearm_def inr_simps if_bool_eq_conj
  by (auto dest!: readFull_result simp: took_def)

lemma string_took:
  assumes "took (header 0x80 (unat n)) s s1" "took b s1 s'" "length b = unat n" "\<not> (n = 1 \<and> b ! 0 < 0x80)"
  shows "took (rlp_bytes (Str b)) s s'"
proof -
  have "\<not> (length b = 1 \<and> b ! 0 < 0x80)" using assms(3,4) by (auto simp: word_unat_eq_iff)
  then have "rlp_bytes (Str b) = header 0x80 (unat n) @ b" using assms(3) by (auto simp: rlp_bytes.simps length_Suc_conv)
  then show ?thesis using took_append [OF assms(1,2)] by simp
qed

lemma Bytes_took:
  assumes "Stream_Bytes s = (Inr b, s')" "s_kind s = None"
  shows "took (rlp_bytes (Str b)) s s' \<and> s_kind s' = None"
proof -
  let ?s = "s\<lparr>s_callCount := Suc (s_callCount s)\<rparr>"
  obtain k n s1 where kind: "Stream_Kind ?s = (Inr (k, n), s1)"
    using assms(1) by (cases "Stream_Kind ?s"; cases "fst (Stream_Kind ?s)") (auto simp: Stream_Bytes_def op_simps split: if_splits)
  have took: "took bs s s'' = took bs ?s s''" for bs s'' by (simp add: took_def)
  show ?thesis
  proof (cases k)
    case KByte
    then show ?thesis
      using assms Kind_took [OF kind] kind
      by (auto simp: Stream_Bytes_def op_simps rearm_def took rlp_bytes.simps took_def split: if_splits)
  next
    case KString
    with assms(1) kind have "content n s1 = (Inr b, s')" "\<not> (n = 1 \<and> b ! 0 < 0x80)"
      by (auto simp: Stream_Bytes_def content_bind op_simps split: if_splits prod.splits sum.splits)
    moreover have "took (header 0x80 (unat n)) ?s s1" using Kind_took [OF kind] assms(2) KString by (simp add: offset_def)
    ultimately show ?thesis using content_took [of n s1 b s'] string_took [of n ?s s1 b s'] by (simp add: took)
  next
    case KList
    with assms(1) kind show ?thesis by (auto simp: Stream_Bytes_def op_simps split: if_splits)
  qed
qed

lemma uint_took:
  assumes "Stream_uint k s = (Inr w, s')" "s_kind s = None" "k div 8 \<le> 8"
  shows "took (rlp_bytes (Str (nat_bytes (unat w)))) s s' \<and> s_kind s' = None"
proof -
  obtain kd n s1 where kind: "Stream_Kind s = (Inr (kd, n), s1)"
    using assms(1) by (cases "Stream_Kind s"; cases "fst (Stream_Kind s)") (auto simp: Stream_uint_def op_simps)
  show ?thesis
  proof (cases kd)
    case KByte
    with assms(1) kind have w: "w = ucast (s_byteval s1)" "s_byteval s1 \<noteq> 0" "s' = s1\<lparr>s_kind := None\<rparr>"
      by (auto simp: Stream_uint_def op_simps rearm_def split: if_splits)
    have "nat_bytes (unat w) = [s_byteval s1]"
      using w(2) nat_bytes_small [of "unat (s_byteval s1)"] unsigned_less [of "s_byteval s1"] by (simp add: w(1) unat_ucast_byte unat_gt_0)
    then show ?thesis using Kind_took [OF kind assms(2)] KByte by (simp add: w(3) rlp_bytes.simps took_def)
  next
    case KString
    with assms(1) kind obtain b where "content n s1 = (Inr b, s')" "\<not> (n > 0 \<and> b ! 0 = 0)" "\<not> (n = 1 \<and> b ! 0 < 0x80)"
        and w: "w = arr_of b" "\<not> n > of_nat (k div 8)"
      by (auto simp: Stream_uint_def content_bind fold_bytes op_simps split: if_splits prod.splits sum.splits)
    moreover from content_took [OF this(1)] have len: "length b = unat n" "took b s1 s'" "s_kind s' = None" by simp_all
    moreover have "unat n \<le> 8" using w(2) assms(3) by (simp add: word_less_nat_alt unat_of_nat64)
    ultimately have "nat_bytes (unat w) = b"
      using nat_bytes_SetBytes [of b] by (cases b) (auto simp: uint_size word_less_nat_alt)
    moreover have "took (header 0x80 (unat n)) s s1" using Kind_took [OF kind assms(2)] KString by (simp add: offset_def)
    ultimately show ?thesis
      using len string_took [of n s s1 b s'] \<open>\<not> (n = 1 \<and> b ! 0 < 0x80)\<close> by simp
  next
    case KList
    with assms(1) kind show ?thesis by (simp add: Stream_uint_def op_simps)
  qed
qed

lemma Kind_keeps:
  assumes "Stream_Kind s = (Inr r, s1)" "s_kind s = None"
  shows "s_callCount s1 = s_callCount s" "length (s_stack s1) = length (s_stack s)"
proof -
  obtain k n s' where "readKind s = (Inr (k, n), s')" and s1: "s1 = s'\<lparr>s_kind := Some k, s_size := n, s_kinderr := None\<rparr>"
    using assms by (auto simp: Stream_Kind_def split: prod.splits sum.splits)
  from readKind_result [OF this(1)] show "s_callCount s1 = s_callCount s" "length (s_stack s1) = length (s_stack s)"
    by (auto simp: s1)
qed

lemma decode_peek_back:
  assumes "Stream_Kind s = (Inr r, s1)" "s_kind s = None" "decodeValue t s1 = (Inr v, s')"
  shows "decodeValue t s = (Inr v, s')"
proof -
  note keeps = Kind_keeps [OF assms(1,2)] and idem = Kind_idem [OF assms(1)]
  have bytes: "Stream_Bytes s1 = Stream_Bytes s" if "fst (Stream_Bytes s1) = Inr x" for x
    using that keeps Bytes_peek [OF assms(1)] by (cases "s_callCount s < 10000") (auto simp: Stream_Bytes_def op_simps maxBytesCalls_def)
  have list: "Stream_List s1 = Stream_List s" if "fst (Stream_List s1) = Inr x" for x
    using that keeps List_peek [OF assms(1,2)] by (cases "length (s_stack s) < 64") (auto simp: Stream_List_def op_simps maxNestingDepth_def)
  have kind: "bind Stream_Kind k s1 = bind Stream_Kind k s" for k :: "Kind \<times> u64 \<Rightarrow> (Stream, 'a) op"
    using idem assms(1) by (simp add: op_simps)
  show ?thesis
    using assms(3) bytes list
    by (cases t) (auto simp: Stream_Bool_def Stream_Uint_def Stream_uint_def kind run_bind idem assms(1) Stream_BigInt_def decodeByteArray_def
        decodeSlice_def decodeArray_def decodeStruct_def decodePtr_def decodeInterface_def Stream_Raw_def run_fail
        split: prod.splits sum.splits)
qed

lemma List_took:
  assumes "Stream_List s = (Inr n, s1)" "s_kind s = None"
  obtains s0 where "took (header 0xC0 (unat n)) s s0" "s_r s1 = s_r s0" "s_stack s1 = s_stack s0 @ [n]" "s_kind s1 = None"
proof -
  obtain k m s0 where kind: "Stream_Kind s = (Inr (k, m), s0)"
    using assms(1) by (cases "Stream_Kind s"; cases "fst (Stream_Kind s)") (auto simp: Stream_List_def op_simps split: if_splits)
  then have "k = KList" "m = n" "s1 = s0\<lparr>s_stack := s_stack s0 @ [n], s_kind := None\<rparr>"
    using assms(1) by (auto simp: Stream_List_def op_simps split: if_splits)
  with Kind_took [OF kind assms(2)] that [of s0] show ?thesis by (simp add: offset_def)
qed

lemma Kind_EOL:
  assumes "fst (Stream_Kind s) = Inl EOL" "s_kind s = None"
  shows "s_r (snd (Stream_Kind s)) = s_r s" "s_stack (snd (Stream_Kind s)) = s_stack s"
proof -
  have long: "noEOL (readLong k b)" for k b unfolding readLong_def readSize_def by (intro noEOL_rules; simp)
  have "fst (readKind s) = Inl EOL" using assms by (auto simp: Stream_Kind_def split: prod.splits sum.splits)
  then have "readByte s = (Inl EOL, snd (readByte s))" "snd (readKind s) = snd (readByte s)"
    using long by (auto simp: readKind_def op_simps noEOL_def prod_eq_iff split: prod.splits sum.splits if_splits)
  moreover have "snd (readByte s) = s" using calculation(1) by (auto simp: readByte_def split: if_splits list.splits)
  ultimately have "s_r (snd (readKind s)) = s_r s" "s_stack (snd (readKind s)) = s_stack s" by simp_all
  then show "s_r (snd (Stream_Kind s)) = s_r s" "s_stack (snd (Stream_Kind s)) = s_stack s"
    using assms(2) by (auto simp: Stream_Kind_def split: prod.split sum.split)
qed

text \<open>A type whose decoder only accepts what the encoder writes.\<close>

definition canonical :: "rtype \<Rightarrow> bool" where
  "canonical t \<longleftrightarrow> (\<forall>s v s'. decodeValue t s = (Inr v, s') \<longrightarrow> s_kind s = None \<longrightarrow> length (s_r s) < 2 ^ 64 \<longrightarrow>
     hasType t v \<and> took (enc v) s s' \<and> s_kind s' = None)"

lemma took_length: "took bs s s' \<Longrightarrow> length (s_r s') + length bs = length (s_r s)"
  unfolding took_def starts_def by (metis add.commute adv_sel(1) append_take_drop_id length_append)

lemma Elems_took:
  assumes "canonical t" "decodeElems (decodeValue t) elems s = (Inr vs, s')" "s_kind s = None" "length (s_r s) < 2 ^ 64"
  shows "\<exists>ws. vs = elems @ ws \<and> length vs < maxSliceElements \<and> list_all (hasType t) ws \<and> took (concat (map enc ws)) s s'"
  using assms
proof (induction "decodeValue t" elems arbitrary: s rule: decodeElems.induct)
  case (1 elems)
  have few: "length elems < maxSliceElements"
    using 1(3) by (subst (asm) decodeElems.simps) (auto simp: op_simps split: if_splits)
  obtain r s1 where dec: "decodeValue t s = (r, s1)" by fastforce
  show ?case
  proof (cases r)
    case (Inl x)
    have "decodeElems (decodeValue t) elems s = (if x = EOL then ret elems else fail x) s1"
      using dec Inl few by (subst decodeElems.simps) (simp add: op_simps)
    with 1(3) have "x = EOL" "vs = elems" "s' = s1" by (simp_all add: op_simps split: if_splits)
    moreover from this have "took [] s s'"
      using atEnd_decode [of t s s1] Kind_EOL [OF _ 1(4)] dec Inl by (simp add: atEnd_def took_def)
    ultimately show ?thesis using few by simp
  next
    case (Inr v)
    with dec 1(3) few have rest: "decodeElems (decodeValue t) (elems @ [v]) s1 = (Inr vs, s')"
      by (subst (asm) decodeElems.simps) (auto simp: op_simps)
    have v: "hasType t v" "took (enc v) s s1" "s_kind s1 = None" using 1(2,4,5) dec Inr by (auto simp: canonical_def)
    have "length (s_r s1) < 2 ^ 64" using took_length [OF v(2)] 1(5) by linarith
    from 1(1) [OF _ 1(2) rest v(3) this] few obtain ws where "vs = (elems @ [v]) @ ws" "length vs < maxSliceElements"
      "list_all (hasType t) ws" "took (concat (map enc ws)) s1 s'" by auto
    with v took_append [OF v(2)] show ?thesis by (intro exI [of _ "v # ws"]) simp
  qed
qed

lemma canonicalI:
  "(\<And>s v s'. decodeValue t s = (Inr v, s') \<Longrightarrow> s_kind s = None \<Longrightarrow> length (s_r s) < 2 ^ 64 \<Longrightarrow>
     hasType t v \<and> took (enc v) s s' \<and> s_kind s' = None) \<Longrightarrow> canonical t"
  by (auto simp: canonical_def)

lemma canonical_slice:
  assumes "canonical t" "t \<noteq> TOther"
  shows "canonical (TSlice t)"
proof (rule canonicalI)
  fix s v s' assume "decodeValue (TSlice t) s = (Inr v, s')" and s: "s_kind s = None" "length (s_r s) < 2 ^ 64"
  then obtain n vs s1 s2 where list: "Stream_List s = (Inr n, s1)" and elems: "decodeElems (decodeValue t) [] s1 = (Inr vs, s2)"
      and close: "Stream_ListEnd s2 = (Inr (), s')" and v: "v = VSlice vs"
    by (auto simp: decodeSlice_def inr_simps)
  from List_took [OF list s(1)] obtain s0 where s0: "took (header 0xC0 (unat n)) s s0" "s_r s1 = s_r s0" "s_stack s1 = s_stack s0 @ [n]"
    "s_kind s1 = None" .
  have len: "length (s_r s1) < 2 ^ 64" using took_length [OF s0(1)] s(2) s0(2) by simp
  from Elems_took [OF assms(1) elems s0(4) len] have vs: "length vs < maxSliceElements" "list_all (hasType t) vs"
      "took (concat (map enc vs)) s1 s2" by auto
  let ?bs = "concat (map enc vs)"
  have st: "s_stack s2 = map (\<lambda>x. x - of_nat (length ?bs)) (s_stack s0) @ [n - of_nat (length ?bs)]"
    using vs(3) s0(3) by (simp add: took_def)
  from close have "n - of_nat (length ?bs) = 0" and s': "s_stack s' = butlast (s_stack s2)" "s_r s' = s_r s2" "s_kind s' = None"
    unfolding Stream_ListEnd_def inr_simps by (auto simp: st inr_simps word_gt_0 split: if_splits)
  then have "n = of_nat (length ?bs)" by simp
  then have "unat n = length ?bs" using took_length [OF vs(3)] len by (simp add: unat_of_nat64)
  moreover have "butlast (s_stack s2) = map (\<lambda>x. x - of_nat (length ?bs)) (s_stack s0)" unfolding st by simp
  then have "took ?bs s0 s'" using vs(3) s0(2) unfolding took_def starts_def s'(1,2) by simp
  ultimately have "took (header 0xC0 (length ?bs) @ ?bs) s s'" using took_append [OF s0(1)] by simp
  moreover have "enc v = header 0xC0 (length ?bs) @ ?bs" unfolding v using vs(2) by (intro enc_list hasType_item [of t]) (simp add: list_all_iff)
  ultimately show "hasType (TSlice t) v \<and> took (enc v) s s' \<and> s_kind s' = None" using vs assms(2) s'(3) by (simp add: v)
qed

lemma header_first:
  assumes "k \<noteq> KByte" "n \<le> 10485760" "hd (header (offset k) n) = 0x80"
  shows "k = KString \<and> n = 0"
proof -
  have hd: "unat (hd (header (offset k) n)) = 128" using assms(3) by simp
  show ?thesis
  proof (cases "n < 56")
    case True
    then have "unat (hd (header (offset k) n)) = unat (offset k) + n"
      unfolding header_short [OF True] list.sel by (intro unat_offset) (simp add: offset_def)
    with assms(1) hd show ?thesis by (cases k) (simp_all add: offset_def)
  next
    case False
    let ?l = "length (nat_bytes n)"
    have "0 < ?l" "?l \<le> 3" using size_bytes [of n] False assms(2) by auto
    moreover have "unat (offset k + 55) = unat (offset k) + 55" by (simp add: offset_def)
    ultimately have "unat (hd (header (offset k) n)) = unat (offset k) + 55 + ?l"
      using unat_offset [of "offset k + 55" ?l] False by (simp add: offset_def header_long)
    with hd \<open>0 < ?l\<close> show ?thesis by (simp add: offset_def split: if_splits)
  qed
qed

lemma starts_hd: "starts bs s \<Longrightarrow> bs \<noteq> [] \<Longrightarrow> hd (s_r s) = hd bs"
  unfolding starts_def by (metis hd_take length_greater_0_conv)

lemma Kind_empty:
  assumes "Stream_Kind s = (Inr (k, n), s1)" "s_kind s = None" "starts [0x80] s"
  shows "k = KString \<and> n = 0"
proof -
  have hd: "hd (s_r s) = 0x80" using starts_hd [OF assms(3)] by simp
  have "header (offset k) (unat n) \<noteq> []" by (simp add: header_def)
  with Kind_took [OF assms(1,2)] hd starts_hd [of "[s_byteval s1]" s] starts_hd [of "header (offset k) (unat n)" s]
    header_first [of k "unat n"]
  show ?thesis by (auto simp: took_def unat_eq_zero split: if_splits)
qed

lemma canonical_ptr:
  assumes "canonical t"
  shows "canonical (TPtr t)"
proof (rule canonicalI)
  fix s v s' assume dec: "decodeValue (TPtr t) s = (Inr v, s')" and s: "s_kind s = None" "length (s_r s) < 2 ^ 64"
  then obtain k n s1 where kind: "Stream_Kind s = (Inr (k, n), s1)"
    by (cases "Stream_Kind s"; cases "fst (Stream_Kind s)") (auto simp: decodePtr_def op_simps)
  show "hasType (TPtr t) v \<and> took (enc v) s s' \<and> s_kind s' = None"
  proof (cases "k = KString \<and> n = 0")
    case True
    with dec kind have "v = VNil" "s' = s1\<lparr>s_kind := None\<rparr>" by (auto simp: decodePtr_def op_simps rearm_def)
    then show ?thesis using Kind_took [OF kind s(1)] True by (simp add: took_def offset_def enc_def rlp_bytes.simps)
  next
    case False
    with dec kind obtain w where v: "v = VPtr w" and "decodeValue t s1 = (Inr w, s')"
      by (auto simp: decodePtr_def op_simps split: prod.splits sum.splits)
    from decode_peek_back [OF kind s(1) this(2)] have w: "hasType t w" "took (enc w) s s'" "s_kind s' = None"
      using assms s by (auto simp: canonical_def)
    have "item w \<noteq> Some (Str [])"
    proof
      assume "item w = Some (Str [])"
      then have "starts [0x80] s" using w(2) by (simp add: took_def enc_def rlp_bytes.simps)
      with Kind_empty [OF kind s(1)] False show False by simp
    qed
    then show ?thesis using w by (simp add: v enc_def)
  qed
qed

lemma BigInt_took:
  assumes "Stream_BigInt s = (Inr i, s')" "s_kind s = None"
  shows "0 \<le> i \<and> took (rlp_bytes (Str (big_Bytes i))) s s' \<and> s_kind s' = None"
proof -
  from assms(1) obtain r s1 b where kind: "Stream_Kind s = (Inr r, s1)" and b: "Stream_Bytes s1 = (Inr b, s')"
      and i: "\<not> (length b > 0 \<and> b ! 0 = 0)" "i = big_SetBytes b"
    unfolding Stream_BigInt_def inr_simps if_bool_eq_conj by blast
  have "decodeValue TBytes s1 = (Inr (VBytes b), s')" using b by (simp add: op_simps)
  from decode_peek_back [OF kind assms(2) this] have "Stream_Bytes s = (Inr b, s')" by (simp add: inr_simps)
  moreover have "big_Bytes i = b" using i nat_bytes_SetBytes [of b] by (cases b) (auto simp: big_Bytes_def)
  ultimately show ?thesis using Bytes_took [OF _ assms(2)] i(2) by simp
qed

fun strict :: "rtype \<Rightarrow> bool" where
  "strict TBool \<longleftrightarrow> True"
| "strict (TInt _) \<longleftrightarrow> True"
| "strict (TUint _) \<longleftrightarrow> True"
| "strict TString \<longleftrightarrow> True"
| "strict TBytes \<longleftrightarrow> True"
| "strict TBigInt \<longleftrightarrow> True"
| "strict (TSlice t) \<longleftrightarrow> strict t"
| "strict (TPtr t) \<longleftrightarrow> strict t"
| "strict _ \<longleftrightarrow> False"

lemma Uint_took: "Stream_Uint s = (Inr w, s') \<Longrightarrow> s_kind s = None \<Longrightarrow>
    took (rlp_bytes (Str (big_Bytes (uint w)))) s s' \<and> s_kind s' = None"
  using uint_took [of 64 s w s'] by (simp add: Stream_Uint_def big_Bytes_def)

lemma Bool_took:
  assumes "Stream_Bool s = (Inr b, s')" "s_kind s = None"
  shows "took (enc (VBool b)) s s' \<and> s_kind s' = None"
proof -
  from assms(1) obtain w s1 where w: "Stream_uint 8 s = (Inr w, s1)" "s1 = s'" "w = (if b then 1 else 0)"
    unfolding Stream_Bool_def inr_simps by (auto simp: inr_simps split: if_splits)
  then have "nat_bytes (unat w) = (if b then [1] else [])" by (simp add: nat_bytes_small)
  then show ?thesis using uint_took [OF w(1) assms(2)] w(2) by (simp add: enc_def)
qed

lemma canonical_base:
  "canonical TBool" "canonical (TInt bits)" "canonical (TUint bits)" "canonical TString" "canonical TBytes" "canonical TBigInt"
proof -
  show "canonical TBool"
    by (rule canonicalI) (auto simp: inr_simps dest: Bool_took)
  show "canonical (TInt bits)"
    by (rule canonicalI) (auto simp: inr_simps enc_def word_less_def not_less dest!: Uint_took split: if_splits)
  show "canonical (TUint bits)"
    by (rule canonicalI) (auto simp: inr_simps enc_def not_less dest!: Uint_took split: if_splits)
  show "canonical TString" "canonical TBytes" "canonical TBigInt"
    by (rule canonicalI, auto simp: inr_simps enc_def dest!: Bytes_took BigInt_took)+
qed

lemma strict_canonical: "strict t \<Longrightarrow> canonical t"
  by (induction t rule: strict.induct) (auto intro: canonical_base canonical_slice canonical_ptr)

section \<open>Coding whole values\<close>

lemma goVal_zero: "goVal (zeroValue t)"
proof (induction t rule: zeroValue.induct)
  case (9 fs)
  then show ?case by (fastforce simp: list_all_iff)
qed (simp_all add: list_all_iff)

lemma hasType_goVal: "hasType t v \<Longrightarrow> goVal v"
proof (induction t arbitrary: v rule: hasType.induct)
  case (2 bits)
  have "uint (maxInt bits) < 2 ^ 63" by (simp add: maxInt_def)
  with 2 show ?case by (auto split: val.splits)
next
  case (9 fs)
  then obtain vs where v: "v = VStruct vs" by (auto split: val.splits)
  have "goVal w" if "(exported, w) \<in> set vs" for exported w
  proof -
    from that obtain k where k: "k < length vs" "vs ! k = (exported, w)" by (auto simp: in_set_conv_nth)
    obtain b t where f: "fs ! k = (b, t)" by (cases "fs ! k")
    with 9(2) k have "k < length fs" "if exported then hasType t w else w = zeroValue t"
      by (auto simp: v hasType_struct list_all2_conv_all_nth)
    with f nth_mem [of k fs] 9(1) goVal_zero show ?thesis by (auto split: if_splits)
  qed
  then show ?case by (auto simp: v list_all_iff)
qed (auto simp: list_all_iff split: val.splits)

lemma EncodeToBytes_enc:
  assumes "hasType t v" "length (enc v) < 2 ^ 64"
  shows "EncodeToBytes v = Inr (enc v)"
proof -
  obtain it where "item v = Some it" using hasType_item [OF assms(1)] by blast
  with encodeValue_item [OF hasType_goVal [OF assms(1)]] assms(2) show ?thesis
    by (simp add: encodesAs_def EncodeToBytes_def enc_def)
qed

text \<open>The values for which the limits of the decoder suffice.\<close>

definition decodable :: "rtype \<Rightarrow> val \<Rightarrow> bool" where
  "decodable t v \<longleftrightarrow> hasType t v \<and> length (enc v) \<le> 10485760 \<and> depth t \<le> maxNestingDepth \<and> calls t v \<le> maxBytesCalls"

lemma decode_new:
  assumes "decodable t v" "s_r s = enc v @ rest" "s_stack s = []" "s_kind s = None" "s_limited s \<Longrightarrow> length (enc v) \<le> unat (s_limit s)"
    "s_totalDecoded s = 0" "s_callCount s = 0"
  shows "\<exists>s'. decodeValue t s = (Inr v, s') \<and> s_r s' = rest"
proof -
  have "ready (length (enc v)) (calls t v) (depth t) s" "starts (enc v) s"
    using assms by (auto simp: ready_def room_def starts_def decodable_def maxNestingDepth_def maxBytesCalls_def)
  moreover have "reads (enc v) (calls t v) (depth t) (decodeValue t) v"
    using assms(1) by (intro decodesD decodes_all) (simp_all add: decodable_def)
  ultimately have "\<exists>s'. decodeValue t s = (Inr v, s') \<and> moved (length (enc v)) (calls t v) s s'"
    unfolding reads_def by blast
  then show ?thesis using assms(2) by (auto simp: moved_def)
qed

lemma DecodeBytes_enc:
  assumes "decodable t v"
  shows "DecodeBytes (enc v) t = Inr v"
proof -
  have len: "length (enc v) \<le> 10485760" using assms by (simp add: decodable_def)
  then have u: "unat (ulen (enc v)) = length (enc v)" by (simp add: ulen_def unat_of_nat64)
  then have "\<not> ulen (enc v) > maxRLPSize" using len by (simp add: word_less_nat_alt maxRLPSize_def)
  moreover obtain s' where "decodeValue t ((NewStream (enc v) (ulen (enc v)))\<lparr>s_limited := True\<rparr>) = (Inr v, s')" "s_r s' = []"
    using decode_new [OF assms, of "(NewStream (enc v) (ulen (enc v)))\<lparr>s_limited := True\<rparr>" "[]"] u by (auto simp: NewStream_def)
  ultimately show ?thesis by (simp add: DecodeBytes_def)
qed

lemma Decode_enc:
  assumes "decodable t v"
  shows "Decode (enc v @ rest) t = Inr v"
  using decode_new [OF assms, of "NewStream (enc v @ rest) maxRLPSize" rest] assms
  by (auto simp: Decode_def NewStream_def maxRLPSize_def decodable_def)

lemma DecodeBytes_canonical:
  assumes "strict t" "length b < 2 ^ 64" "DecodeBytes b t = Inr v"
  shows "hasType t v \<and> enc v = b \<and> EncodeToBytes v = Inr b"
proof -
  let ?s = "(NewStream b (ulen b))\<lparr>s_limited := True\<rparr>"
  from assms(3) obtain s' where dec: "decodeValue t ?s = (Inr v, s')" "s_r s' = []"
    by (auto simp: DecodeBytes_def split: if_splits prod.splits sum.splits)
  have s: "s_r ?s = b" "s_kind ?s = None" by (simp_all add: NewStream_def)
  have v: "hasType t v" "took (enc v) ?s s'"
    using strict_canonical [OF assms(1)] dec(1) s assms(2) unfolding canonical_def by metis+
  have "enc v = b" using v(2) dec(2) starts_input [of "enc v" ?s] s(1) by (simp add: took_def)
  with EncodeToBytes_enc [OF v(1)] assms(2) v(1) show ?thesis by simp
qed

text \<open>What a client of a typed codec relies on: values come back, and accepted inputs are encodings.\<close>

locale typed_codec =
  fixes encode :: "'v \<Rightarrow> 'e + byte list"
    and decode :: "byte list \<Rightarrow> 't \<Rightarrow> 'e + 'v"
    and fits :: "'t \<Rightarrow> 'v \<Rightarrow> bool"
    and exact :: "'t \<Rightarrow> byte list \<Rightarrow> bool"
  assumes round_trip: "fits t v \<Longrightarrow> \<exists>b. encode v = Inr b \<and> decode b t = Inr v"
    and accepted: "exact t b \<Longrightarrow> decode b t = Inr v \<Longrightarrow> encode v = Inr b"
begin

lemma encode_inj: "fits t v \<Longrightarrow> fits t w \<Longrightarrow> encode v = encode w \<Longrightarrow> v = w"
  using round_trip [of t v] round_trip [of t w] by auto

lemma one_encoding: "exact t b \<Longrightarrow> exact t b' \<Longrightarrow> decode b t = Inr v \<Longrightarrow> decode b' t = Inr v \<Longrightarrow> b = b'"
  using accepted [of t b v] accepted [of t b' v] by simp

end

interpretation rlp_codec: typed_codec EncodeToBytes DecodeBytes decodable "\<lambda>t b. strict t \<and> length b < 2 ^ 64"
proof unfold_locales
  fix t v assume "decodable t v"
  then show "\<exists>b. EncodeToBytes v = Inr b \<and> DecodeBytes b t = Inr v"
    using EncodeToBytes_enc [of t v] DecodeBytes_enc [of t v] by (auto simp: decodable_def)
qed (use DecodeBytes_canonical in blast)

text \<open>Structs whose input has no elements at all.\<close>

lemma Fields_missing:
  assumes "\<And>exported t. (exported, t) \<in> set fs \<Longrightarrow> t \<noteq> TOther \<and> depth t \<le> d" "ready 0 1 d s" "inside 0 s"
  shows "\<exists>s'. decodeFields (map (\<lambda>(exported, t). (exported, decodeValue t, zeroValue t)) fs) s
      = (Inr (map (\<lambda>(exported, t). (exported, zeroValue t)) fs), s') \<and> s_r s' = s_r s \<and> s_stack s' = s_stack s"
  using assms
proof (induction fs)
  case Nil
  then show ?case by (simp add: op_simps)
next
  case (Cons f fs)
  obtain exported t where f: "f = (exported, t)" by fastforce
  show ?case
  proof (cases exported)
    case True
    have "t \<noteq> TOther" "depth t \<le> d" using Cons.prems(1) by (auto simp: f)
    moreover have "endCalls t \<le> 1" by (simp add: endCalls_def split: rtype.split)
    ultimately have "ready 0 (endCalls t) (depth t) s" using Cons.prems(2) by (blast intro: ready_mono)
    from decode_end [OF \<open>t \<noteq> TOther\<close> this Cons.prems(3)] True show ?thesis
      by (auto simp: f op_simps moved_def comp_def case_prod_beta')
  next
    case False
    with Cons show ?thesis by (force simp: f op_simps)
  qed
qed

lemma struct_empty:
  assumes "\<And>exported t. (exported, t) \<in> set fs \<Longrightarrow> t \<noteq> TOther" "depth (TStruct fs) \<le> maxNestingDepth"
  shows "DecodeBytes [0xC0] (TStruct fs) = Inr (zeroValue (TStruct fs))"
proof -
  let ?s = "(NewStream [0xC0] (ulen [0xC0 :: byte]))\<lparr>s_limited := True\<rparr>" and ?d = "fold max (map (\<lambda>(_, t). depth t) fs) 0"
  have "ready (length (header 0xC0 0) + 0) 1 (Suc ?d) ?s" "starts (header 0xC0 0 @ []) ?s"
    using assms(2) by (simp_all add: ready_def room_def starts_def NewStream_def ulen_def maxNestingDepth_def)
  note opens = List_opens [OF this]
  have "depth t \<le> ?d" if "(exported, t) \<in> set fs" for exported t using that by (intro fold_max_ge) force
  with Fields_missing [of fs ?d "opened 0 ?s"] assms(1) opens obtain s' where
    "decodeFields (map (\<lambda>(exported, t). (exported, decodeValue t, zeroValue t)) fs) (opened 0 ?s)
      = (Inr (map (\<lambda>(exported, t). (exported, zeroValue t)) fs), s')" "s_r s' = s_r (opened 0 ?s)" "s_stack s' = s_stack (opened 0 ?s)"
    by auto
  moreover have "s_r (opened 0 ?s) = []" "s_stack (opened 0 ?s) = [0]" by (simp_all add: opened_def cached_def offset_def NewStream_def)
  moreover have "Stream_ListEnd s' = (Inr (), s'\<lparr>s_stack := [], s_kind := None, s_kinderr := None\<rparr>)" if "s_stack s' = [0]" for s'
    using that by (simp add: Stream_ListEnd_def op_simps)
  ultimately show ?thesis using opens(1)
    by (simp add: DecodeBytes_def decodeStruct_def op_simps ulen_def maxRLPSize_def)
qed

lemma encodeElements_length:
  "encodeElements elems bs = Inr c \<Longrightarrow> (\<And>b. Inr b \<in> set elems \<Longrightarrow> b \<noteq> []) \<Longrightarrow> length bs + length elems \<le> length c"
proof (induction elems arbitrary: bs)
  case (Cons e es)
  then obtain b where b: "e = Inr b" "encodeElements es (bs @ b) = Inr c" by (auto split: sum.splits)
  have "b \<noteq> []" using Cons.prems(2) b(1) by simp
  then have "0 < length b" by blast
  moreover have "length (bs @ b) + length es \<le> length c" using Cons.IH [OF b(2)] Cons.prems(2) by simp
  ultimately show ?case unfolding length_append list.size by linarith
qed simp

lemma encodeList_length:
  assumes "encodeList elems = Inr c" "\<And>b. Inr b \<in> set elems \<Longrightarrow> b \<noteq> []"
  shows "length elems < length c"
proof -
  from assms(1) obtain d where d: "encodeElements elems [] = Inr d" "c = encodeListHeader (length d) @ d"
    by (auto simp: encodeList_def split: sum.splits)
  have "encodeListHeader n \<noteq> []" for n by (simp add: encodeListHeader_def Let_def)
  then have "0 < length (encodeListHeader (length d))" by blast
  with encodeElements_length [OF d(1) assms(2)] show ?thesis unfolding d(2) length_append list.size by linarith
qed

lemma encodeValue_nonempty: "encodeValue v = Inr b \<Longrightarrow> b \<noteq> []"
proof (induction v arbitrary: b rule: encodeValue.induct)
  case (8 vs)
  then show ?case using encodeList_length [of "map encodeValue vs" b] by (force simp: encodeSlice_def)
next
  case (10 vs)
  then show ?case using encodeList_length [of "map encodeValue vs" b] by (force simp: encodeArray_def)
next
  case (12 fs)
  let ?es = "map snd (filter fst (map (\<lambda>(exported, v). (exported, encodeValue v)) fs))"
  have "c \<noteq> []" if "Inr c \<in> set ?es" for c using that 12(1) by force
  with encodeList_length [of ?es b] 12(2) show ?case by (auto simp: encodeStruct_def)
qed (auto simp: encodeBool_def encodeInt_def encodeUint_def encodeString_def encodeBytes_def encodeStringHeader_def encodeBigInt_def
    Let_def split: if_splits)

lemma struct_bytes:
  assumes "(True, v) \<in> set vs"
  shows "EncodeToBytes (VStruct vs) \<noteq> Inr [0xC0]"
proof
  let ?es = "map snd (filter fst (map (\<lambda>(exported, v). (exported, encodeValue v)) vs))"
  assume "EncodeToBytes (VStruct vs) = Inr [0xC0]"
  then have list: "encodeList ?es = Inr [0xC0]" by (simp add: EncodeToBytes_def encodeStruct_def)
  have "c \<noteq> []" if "Inr c \<in> set ?es" for c
  proof -
    from that obtain w where "encodeValue w = Inr c" by fastforce
    then show ?thesis by (rule encodeValue_nonempty)
  qed
  from encodeList_length [OF list this] have "length ?es < 1" by simp
  moreover have "encodeValue v \<in> set ?es" using assms by force
  ultimately show False by (metis length_pos_if_in_set less_one not_less_zero)
qed

text \<open>A one-element list read as raw bytes.\<close>

lemma raw_short_list:
  assumes "b < 0x80"
  shows "DecodeBytes [0xC1, b] TInterface = Inl ErrCanonicalSize"
proof -
  let ?s = "(NewStream [0xC1, b] (ulen [0xC1 :: byte, b]))\<lparr>s_limited := True\<rparr>"
  have hdr: "header (offset KList) (Suc 0) = [0xC1]" by (simp add: header_def offset_def)
  have "ready 1 0 0 ?s" "starts [0xC1] ?s" by (simp_all add: ready_def room_def starts_def NewStream_def ulen_def)
  then have kind: "Stream_Kind ?s = (Inr (KList, 1), cached KList 1 ?s)" using Kind_header [of KList 1 0 0 ?s] by (simp add: hdr)
  have "room 1 (cached KList 1 ?s)" "starts [b] (cached KList 1 ?s)"
    by (simp_all add: cached_def hdr room_def starts_def NewStream_def ulen_def)
  then have "readFull 1 ((cached KList 1 ?s)\<lparr>s_buf := [], s_totalDecoded := 1\<rparr>) = (Inr [b], adv 1 ((cached KList 1 ?s)\<lparr>s_buf := [], s_totalDecoded := 1\<rparr>))"
    using readFull_room [of "[b]" _ 1] by simp
  moreover have "s_totalDecoded (cached KList 1 ?s) = 0" by (simp add: cached_def NewStream_def)
  ultimately show ?thesis
    using kind assms by (simp add: DecodeBytes_def decodeInterface_def Stream_Raw_def readBuf_def countDecoded_def rearm_def op_simps
        maxStringSize_def maxTotalDecodeMemory_def maxRLPSize_def ulen_def)
qed

section \<open>Properties\<close>



text \<open>C13: For booleans, integers, strings, byte slices, big integers, and slices of and pointers to
  these, encodings are unique: an input that \<open>DecodeBytes\<close> accepts is exactly what the encoder
  writes for the value it returns, so that two accepted inputs with the same value are equal,
  and the value has the type it was decoded into.\<close>

theorem decode_canonical:
  assumes "strict t" "length b < 2 ^ 64" "DecodeBytes b t = Inr v"
  shows "hasType t v \<and> EncodeToBytes v = Inr b \<and>
    (\<forall>b'. length b' < 2 ^ 64 \<longrightarrow> DecodeBytes b' t = Inr v \<longrightarrow> b' = b)"
  using DecodeBytes_canonical [OF assms] rlp_codec.one_encoding [of t _ b v] assms by blast

theorem decode_canonical_witness:
  "EncodeToBytes (VSlice [VPtr (VUint 5), VNil, VPtr (VUint 256)]) = Inr [0xC5, 0x05, 0x80, 0x82, 0x01, 0x00]"
proof -
  let ?t = "TSlice (TPtr (TUint 64))" and ?v = "VSlice [VPtr (VUint 5), VNil, VPtr (VUint 256)]"
  have bytes: "big_Bytes 5 = [0x05]" "big_Bytes 256 = [0x01, 0x00]" by code_simp+
  have enc: "enc ?v = [0xC5, 0x05, 0x80, 0x82, 0x01, 0x00]" by (simp add: enc_def bytes rlp_bytes.simps header_def)
  have "decodable ?t ?v" unfolding decodable_def enc
    by (simp add: maxUint_def maxSliceElements_def maxNestingDepth_def maxBytesCalls_def endCalls_def bytes word_le_nat_alt)
  from DecodeBytes_enc [OF this] have "DecodeBytes [0xC5, 0x05, 0x80, 0x82, 0x01, 0x00] ?t = Inr ?v" unfolding enc .
  from decode_canonical [OF _ _ this] show ?thesis by simp
qed

text \<open>C40: The decoders of structs do not insist on their fields: the empty list is accepted for every
  struct type and gives the struct of zero values, which has another encoding when the type has
  an exported field.\<close>

theorem struct_accepts_empty_list:
  assumes "\<forall>(exported, t) \<in> set fs. t \<noteq> TOther" "depth (TStruct fs) \<le> maxNestingDepth"
  shows "DecodeBytes [0xC0] (TStruct fs) = Inr (zeroValue (TStruct fs)) \<and>
    ((\<exists>t. (True, t) \<in> set fs) \<longrightarrow> EncodeToBytes (zeroValue (TStruct fs)) \<noteq> Inr [0xC0])"
proof -
  have "EncodeToBytes (zeroValue (TStruct fs)) \<noteq> Inr [0xC0]" if "(True, t) \<in> set fs" for t
    using that struct_bytes [of "zeroValue t" "map (\<lambda>(exported, t). (exported, zeroValue t)) fs"] by force
  with struct_empty [of fs] assms show ?thesis by auto
qed

theorem struct_accepts_empty_list_witness:
  "let t = TStruct [(True, TUint 64), (True, TBytes)]; v = VStruct [(True, VUint 0), (True, VBytes [])] in
   DecodeBytes [0xC0] t = Inr v \<and> EncodeToBytes v \<noteq> Inr [0xC0]"
  using struct_accepts_empty_list [of "[(True, TUint 64), (True, TBytes)]"] by (auto simp: maxNestingDepth_def)

text \<open>C39: Lists with one small byte cannot be decoded into an interface: the bytes are what the encoder
  writes and they decode into a slice, but reading them raw fails with the error for a string that
  should have been a single byte.\<close>

theorem raw_refuses_short_list:
  assumes "b < 0x80"
  shows "EncodeToBytes (VSlice [VBytes [b]]) = Inr [0xC1, b] \<and>
    DecodeBytes [0xC1, b] (TSlice TBytes) = Inr (VSlice [VBytes [b]]) \<and>
    DecodeBytes [0xC1, b] TInterface = Inl ErrCanonicalSize"
proof -
  have enc: "enc (VSlice [VBytes [b]]) = [0xC1, b]" using assms by (simp add: enc_def rlp_bytes.simps header_def)
  have d: "decodable (TSlice TBytes) (VSlice [VBytes [b]])" unfolding decodable_def enc
    by (simp add: maxSliceElements_def maxNestingDepth_def maxBytesCalls_def endCalls_def)
  then have "EncodeToBytes (VSlice [VBytes [b]]) = Inr [0xC1, b]"
    using EncodeToBytes_enc [of "TSlice TBytes" "VSlice [VBytes [b]]"] by (simp add: decodable_def enc)
  with DecodeBytes_enc [OF d] raw_short_list [OF assms] show ?thesis by (simp add: enc)
qed

theorem raw_refuses_short_list_witness: "DecodeBytes [0xC1, 0x05] TInterface = Inl ErrCanonicalSize"
  using raw_refuses_short_list [of "0x05"] by simp

end
