(* ===== verification/RLP_Safe.thy ===== *)
theory RLP_Safe
  imports RLP_Stream
begin

text \<open>
  \<open>src/rlp/safe_decoder.go\<close>: the validation that the safe decoder runs before decoding, and the stream
  with a budget. Go's \<open>int\<close> is an integer with the wrap-around of 64-bit two's complement written
  out (\<open>wrap64\<close>); a negative index is the panic of the slice expression. The errors that the code wraps
  with a position are their sentinel values.
\<close>

unbundle bit_operations_syntax

section \<open>The validator\<close>

record SafeDecoderConfig =
  MaxSize :: u64
  MaxDepth :: int
  MaxListLen :: int
  StrictMode :: bool

definition DefaultSafeDecoderConfig :: SafeDecoderConfig where
  "DefaultSafeDecoderConfig =
    \<lparr>MaxSize = maxRLPSize, MaxDepth = int maxNestingDepth, MaxListLen = int maxSliceElements, StrictMode = True\<rparr>"

definition NewSafeDecoder :: "SafeDecoderConfig \<Rightarrow> SafeDecoderConfig" where
  "NewSafeDecoder config =
    (let config = (if MaxSize config = 0 then config\<lparr>MaxSize := maxRLPSize\<rparr> else config);
         config = (if MaxDepth config = 0 then config\<lparr>MaxDepth := int maxNestingDepth\<rparr> else config)
     in if MaxListLen config = 0 then config\<lparr>MaxListLen := int maxSliceElements\<rparr> else config)"

definition NewDefaultSafeDecoder :: SafeDecoderConfig where
  "NewDefaultSafeDecoder = NewSafeDecoder DefaultSafeDecoderConfig"

definition MaxInt64 :: int where "MaxInt64 = 9223372036854775807"

definition wrap64 :: "int \<Rightarrow> int" where
  "wrap64 x = signed_take_bit 63 x"

definition safe_readSize :: "SafeDecoderConfig \<Rightarrow> byte list \<Rightarrow> u64 res" where
  "safe_readSize d b =
    (if length b = 0 then Inl ErrInvalidInput
     else if StrictMode d \<and> b ! 0 = 0 then Inl ErrCanonicalSize
     else Inr (foldl (\<lambda>sz x. push_bit 8 sz OR ucast x) 0 b))"

text \<open>The size of a long string or list, whose header checks are the same.\<close>

definition longSize :: "SafeDecoderConfig \<Rightarrow> byte list \<Rightarrow> int \<Rightarrow> int \<Rightarrow> u64 res" where
  "longSize d input offset sizeBytes =
    (if wrap64 (offset + 1 + sizeBytes) > int (length input) then Inl ErrInvalidInput
     else case safe_readSize d (slice input (nat (offset + 1)) (nat (offset + 1 + sizeBytes))) of
       Inl x \<Rightarrow> Inl x
     | Inr sz \<Rightarrow> if StrictMode d \<and> sz < 56 then Inl ErrCanonicalSize else Inr sz)"

text \<open>An element, the contents of a list, and the loop over them, with the end and the number of the elements seen.\<close>

function validateElement :: "SafeDecoderConfig \<Rightarrow> byte list \<Rightarrow> int \<Rightarrow> int \<Rightarrow> int res"
  and validateListContents :: "SafeDecoderConfig \<Rightarrow> byte list \<Rightarrow> int \<Rightarrow> int \<Rightarrow> int \<Rightarrow> unit res"
  and validateElements :: "SafeDecoderConfig \<Rightarrow> byte list \<Rightarrow> int \<Rightarrow> int \<Rightarrow> int \<Rightarrow> int \<Rightarrow> unit res" where
  "validateElement d input offset depth =
    (if depth \<ge> MaxDepth d then Inl ErrMaxDepthExceeded
     else if offset \<ge> int (length input) then Inl ErrInvalidInput
     else if offset < 0 then Inl (Panic ''index out of range'')
     else let b = input ! nat offset in
       if b < 0x80 then Inr 1
       else if b < 0xB8 then
         (let sz = uint (b - 0x80); totalSize = 1 + sz in
          if wrap64 (offset + totalSize) > int (length input) then Inl ErrInvalidInput
          else if StrictMode d \<and> sz = 1 \<and> input ! nat (offset + 1) < 0x80 then Inl ErrCanonicalSize
          else Inr totalSize)
       else if b < 0xC0 then
         (let sizeBytes = uint (b - 0xB7) in
          case longSize d input offset sizeBytes of
            Inl x \<Rightarrow> Inl x
          | Inr sz \<Rightarrow>
            if sz > word_of_int (MaxInt64 - 1 - sizeBytes) then Inl ErrInvalidInput
            else let totalSize = 1 + sizeBytes + uint sz in
              if wrap64 (offset + totalSize) > int (length input) then Inl ErrInvalidInput
              else if sz > MaxSize d then Inl ErrMaxSizeExceeded
              else Inr totalSize)
       else if b < 0xF8 then
         (let sz = uint (b - 0xC0) in
          if wrap64 (offset + 1 + sz) > int (length input) then Inl ErrInvalidInput
          else (case validateListContents d input (offset + 1) sz (depth + 1) of
              Inl x \<Rightarrow> Inl x
            | Inr _ \<Rightarrow> Inr (1 + sz)))
       else
         (let sizeBytes = uint (b - 0xF7) in
          case longSize d input offset sizeBytes of
            Inl x \<Rightarrow> Inl x
          | Inr sz \<Rightarrow>
            let headerSize = 1 + sizeBytes in
            if sz > word_of_int MaxInt64 then Inl ErrInvalidInput
            else if wrap64 (offset + headerSize + uint sz) > int (length input) then Inl ErrInvalidInput
            else if sz > MaxSize d then Inl ErrMaxSizeExceeded
            else (case validateListContents d input (offset + headerSize) (uint sz) (depth + 1) of
                Inl x \<Rightarrow> Inl x
              | Inr _ \<Rightarrow> Inr (wrap64 (headerSize + uint sz)))))"
| "validateListContents d input start sz depth =
    validateElements d input start (wrap64 (start + sz)) 0 depth"
| "validateElements d input pos fin elementCount depth =
    (if pos < fin then
       if elementCount + 1 > MaxListLen d then Inl ErrMaxListLenExceeded
       else case validateElement d input pos depth of
         Inl x \<Rightarrow> Inl x
       | Inr consumed \<Rightarrow> validateElements d input (wrap64 (pos + consumed)) fin (elementCount + 1) depth
     else if pos \<noteq> fin then Inl ErrInvalidInput
     else Inr ())"
  by pat_completeness auto
termination
  by (relation "measures
      [\<lambda>x. case x of Inl (d, _, _, depth) \<Rightarrow> nat (MaxDepth d - depth)
         | Inr (Inl (d, _, _, _, depth)) \<Rightarrow> nat (MaxDepth d - depth)
         | Inr (Inr (d, _, _, _, _, depth)) \<Rightarrow> nat (MaxDepth d - depth),
       \<lambda>x. case x of Inl _ \<Rightarrow> 0
         | Inr (Inl (d, _, _, _, _)) \<Rightarrow> Suc (Suc (nat (MaxListLen d)))
         | Inr (Inr (d, _, _, _, elementCount, _)) \<Rightarrow> Suc (nat (MaxListLen d - elementCount))]") auto

declare validateElement.simps [simp del] validateListContents.simps [simp del] validateElements.simps [simp del]

definition validateInput :: "SafeDecoderConfig \<Rightarrow> byte list \<Rightarrow> unit res" where
  "validateInput d input =
    (if length input = 0 then Inr ()
     else case validateElement d input 0 0 of Inl x \<Rightarrow> Inl x | Inr _ \<Rightarrow> Inr ())"

text \<open>The entry points; \<open>None\<close> is a nil slice or reader.\<close>

definition SafeDecoder_DecodeBytes :: "SafeDecoderConfig \<Rightarrow> byte list option \<Rightarrow> rtype \<Rightarrow> val res" where
  "SafeDecoder_DecodeBytes d input t = (case input of
      None \<Rightarrow> Inl ErrNilInput
    | Some input \<Rightarrow>
        if ulen input > MaxSize d then Inl ErrMaxSizeExceeded
        else case validateInput d input of Inl x \<Rightarrow> Inl x | Inr _ \<Rightarrow> DecodeBytes input t)"

definition SafeDecoder_Decode :: "SafeDecoderConfig \<Rightarrow> byte list option \<Rightarrow> rtype \<Rightarrow> val res" where
  "SafeDecoder_Decode d r t = (case r of
      None \<Rightarrow> Inl ErrNilInput
    | Some r \<Rightarrow>
        let maxSize = (if MaxSize d > word_of_int MaxInt64 then word_of_int MaxInt64 else MaxSize d)
        in SafeDecoder_DecodeBytes d (Some (take (unat maxSize) r)) t)"

definition SafeDecodeBytes :: "byte list option \<Rightarrow> rtype \<Rightarrow> val res" where
  "SafeDecodeBytes = SafeDecoder_DecodeBytes NewDefaultSafeDecoder"

definition SafeDecode :: "byte list option \<Rightarrow> rtype \<Rightarrow> val res" where
  "SafeDecode = SafeDecoder_Decode NewDefaultSafeDecoder"

definition SafeDecodeWithLimit :: "byte list option \<Rightarrow> rtype \<Rightarrow> u64 \<Rightarrow> val res" where
  "SafeDecodeWithLimit input t maxSize =
    SafeDecoder_DecodeBytes (NewSafeDecoder (DefaultSafeDecoderConfig\<lparr>MaxSize := maxSize\<rparr>)) input t"

definition ValidateRLPStructure :: "byte list \<Rightarrow> unit res" where
  "ValidateRLPStructure = validateInput NewDefaultSafeDecoder"

definition ValidateRLPStructureWithConfig :: "byte list \<Rightarrow> SafeDecoderConfig \<Rightarrow> unit res" where
  "ValidateRLPStructureWithConfig input config = validateInput (NewSafeDecoder config) input"

section \<open>The stream with a budget\<close>

text \<open>\<open>SafeStream\<close> embeds a \<open>Stream\<close>; its own \<open>List\<close>, \<open>ListEnd\<close> and \<open>Bytes\<close> hide those of the stream.\<close>

record SafeStream =
  ss_Stream :: Stream
  ss_config :: SafeDecoderConfig
  ss_depthStack :: "int list"
  ss_totalRead :: u64

definition on_Stream :: "(Stream, 'a) op \<Rightarrow> (SafeStream, 'a) op" where
  "on_Stream m = zoom ss_Stream (\<lambda>st s. s\<lparr>ss_Stream := st\<rparr>) m"

definition NewSafeStream :: "byte list \<Rightarrow> SafeDecoderConfig \<Rightarrow> SafeStream" where
  "NewSafeStream r config =
    (let config = NewSafeDecoder config;
         streamInputLimit = (if MaxSize config > maxRLPSize then MaxSize config else maxRLPSize)
     in \<lparr>ss_Stream = NewStream r streamInputLimit, ss_config = config, ss_depthStack = [], ss_totalRead = 0\<rparr>)"

definition NewSafeStreamFromBytes :: "byte list \<Rightarrow> SafeDecoderConfig \<Rightarrow> SafeStream" where
  "NewSafeStreamFromBytes input config = NewSafeStream input config"

definition SafeStream_List :: "(SafeStream, u64) op" where
  "SafeStream_List = bind (gets (\<lambda>s. int (length (ss_depthStack s)) \<ge> MaxDepth (ss_config s))) (\<lambda>deep.
     if deep then fail ErrMaxDepthExceeded
     else bind (on_Stream Stream_List) (\<lambda>sz.
       bind (modify (\<lambda>s. s\<lparr>ss_depthStack := ss_depthStack s @ [0]\<rparr>)) (\<lambda>_. ret sz)))"

definition SafeStream_ListEnd :: "(SafeStream, unit) op" where
  "SafeStream_ListEnd = bind (on_Stream Stream_ListEnd) (\<lambda>_.
     modify (\<lambda>s. if length (ss_depthStack s) > 0 then s\<lparr>ss_depthStack := butlast (ss_depthStack s)\<rparr> else s))"

definition SafeStream_Bytes :: "(SafeStream, byte list) op" where
  "SafeStream_Bytes = bind (on_Stream Stream_Kind) (\<lambda>(kind, sz).
     bind (gets (\<lambda>s. (MaxSize (ss_config s), ss_totalRead s))) (\<lambda>(maxSize, totalRead).
     if kind = KString \<and> sz > maxSize then fail ErrMaxSizeExceeded
     else if kind = KString \<and> totalRead + sz < totalRead then fail ErrMaxSizeExceeded
     else if kind = KString \<and> totalRead + sz > maxSize then fail ErrMaxSizeExceeded
     else bind (on_Stream Stream_Bytes) (\<lambda>b.
       bind (modify (\<lambda>s. if kind = KString then s\<lparr>ss_totalRead := ss_totalRead s + ulen b\<rparr> else s)) (\<lambda>_. ret b))))"

definition TotalRead :: "SafeStream \<Rightarrow> u64" where
  "TotalRead s = ss_totalRead s"

end
