(* ===== verification/RLP_Validate.thy ===== *)
theory RLP_Validate
  imports RLP_Canonical RLP_Safe
begin

text \<open>
  What the validator of the safe decoder accepts: in strict mode exactly the inputs that begin with
  the encoding of an item within the limits (\<open>fitsLimits\<close>), as long as the limits are small enough for the
  sums of offsets and sizes not to wrap around; and the budget of the safe stream.
\<close>

declare rlp_bytes.simps [simp del]

section \<open>Positions\<close>

lemma wrap64_id: "- 9223372036854775808 \<le> x \<Longrightarrow> x < 9223372036854775808 \<Longrightarrow> wrap64 x = x"
  by (simp add: wrap64_def signed_take_bit_int_eq_self_iff)

lemma wrap64_big:
  assumes "9223372036854775808 \<le> x" "x < 18446744073709551616"
  shows "wrap64 x = x - 18446744073709551616"
proof -
  have "signed_take_bit 63 x = signed_take_bit 63 (x - 2 ^ 64)"
    by (simp add: signed_take_bit_eq_iff_take_bit_eq take_bit_eq_mod)
  also have "\<dots> = x - 2 ^ 64" using assms by (subst signed_take_bit_int_eq_self_iff) simp
  finally show ?thesis by (simp add: wrap64_def)
qed

text \<open>The bytes \<open>bs\<close> stand at position \<open>k\<close>.\<close>

definition occurs :: "byte list \<Rightarrow> nat \<Rightarrow> byte list \<Rightarrow> bool" where
  "occurs input k bs \<longleftrightarrow> take (length bs) (drop k input) = bs"

lemma occurs_Nil [simp]: "occurs input k []"
  by (simp add: occurs_def)

lemma occurs_append: "occurs input k (xs @ ys) \<longleftrightarrow> occurs input k xs \<and> occurs input (k + length xs) ys"
  using starts_append [of xs ys "NewStream (drop k input) 0"]
  by (simp add: occurs_def starts_def NewStream_def add.commute)

lemma occurs_length:
  assumes "occurs input k bs" "bs \<noteq> []"
  shows "k + length bs \<le> length input"
proof -
  have "length bs \<le> length (drop k input)" using arg_cong [OF assms(1) [unfolded occurs_def], of length] by simp
  moreover have "0 < length bs" using assms(2) by blast
  ultimately show ?thesis unfolding length_drop by linarith
qed

lemma occurs_single: "occurs input k [x] \<longleftrightarrow> k < length input \<and> input ! k = x"
  by (cases "k < length input") (auto simp: occurs_def take_Suc_conv_app_nth Cons_nth_drop_Suc [symmetric])

text \<open>The limits leave room for the sums of positions and sizes.\<close>

definition roomy :: "SafeDecoderConfig \<Rightarrow> byte list \<Rightarrow> bool" where
  "roomy d input \<longleftrightarrow> length input + unat (MaxSize d) + 64 < 2 ^ 63"

lemma wrap64_pos: "roomy d input \<Longrightarrow> n \<le> length input + unat (MaxSize d) + 64 \<Longrightarrow> wrap64 (int n) = int n"
  by (intro wrap64_id) (simp_all add: roomy_def)

section \<open>Headers\<close>

lemma length_nat_bytes_pos: "56 \<le> n \<Longrightarrow> n < 2 ^ 64 \<Longrightarrow> 1 \<le> length (nat_bytes n) \<and> length (nat_bytes n) \<le> 8"
  using length_nat_bytes_le [of n 8] nat_bytes_eq_Nil [of n] by (cases "nat_bytes n") auto

lemma header_parts:
  assumes "off = 0x80 \<or> off = 0xC0" "n < 2 ^ 64"
  shows "header off n = hd (header off n) # (if n < 56 then [] else nat_bytes n)"
    "unat (hd (header off n)) = unat off + (if n < 56 then n else 55 + length (nat_bytes n))"
proof -
  show "header off n = hd (header off n) # (if n < 56 then [] else nat_bytes n)" by (simp add: header_def)
  show "unat (hd (header off n)) = unat off + (if n < 56 then n else 55 + length (nat_bytes n))"
  proof (cases "n < 56")
    case True
    then show ?thesis using assms unat_offset [of off n] by (auto simp: header_def)
  next
    case False
    then have l: "length (nat_bytes n) \<le> 8" using length_nat_bytes_pos assms by simp
    have "unat (off + 55) = unat off + 55" using assms(1) by auto
    then show ?thesis using False l assms(1) unat_offset [of "off + 55" "length (nat_bytes n)"] by (auto simp: header_def)
  qed
qed

lemma occurs_header:
  assumes "off = 0x80 \<or> off = 0xC0" "n < 2 ^ 64"
  shows "occurs input k (header off n) \<longleftrightarrow> k < length input \<and>
    unat (input ! k) = unat off + (if n < 56 then n else 55 + length (nat_bytes n)) \<and>
    (56 \<le> n \<longrightarrow> occurs input (k + 1) (nat_bytes n))"
proof -
  note parts = header_parts [OF assms]
  have "occurs input k (header off n) \<longleftrightarrow> occurs input k [hd (header off n)] \<and> occurs input (k + 1) (if n < 56 then [] else nat_bytes n)"
    using occurs_append [of input k "[hd (header off n)]" "if n < 56 then [] else nat_bytes n"] parts(1) by simp
  also have "occurs input k [hd (header off n)] \<longleftrightarrow> k < length input \<and> unat (input ! k) = unat (hd (header off n))"
    by (simp add: occurs_single word_unat_eq_iff)
  finally show ?thesis unfolding parts(2) by auto
qed

lemma longSize_iff:
  assumes "StrictMode d" "1 \<le> m" "m \<le> 8" "k < length input" "roomy d input"
  shows "longSize d input (int k) (int m) = Inr sz \<longleftrightarrow>
    occurs input (k + 1) (nat_bytes (unat sz)) \<and> length (nat_bytes (unat sz)) = m \<and> 56 \<le> unat sz"
proof -
  have wrap: "wrap64 (int k + 1 + int m) = int (k + 1 + m)"
    using wrap64_pos [OF assms(5), of "k + 1 + m"] assms(3,4) by (simp add: algebra_simps)
  show ?thesis
  proof (cases "k + 1 + m \<le> length input")
    case False
    then have "longSize d input (int k) (int m) = Inl ErrInvalidInput" unfolding longSize_def wrap by simp
    moreover have "\<not> (occurs input (k + 1) (nat_bytes (unat sz)) \<and> length (nat_bytes (unat sz)) = m \<and> 56 \<le> unat sz)"
      using False occurs_length [of input "k + 1" "nat_bytes (unat sz)"] by auto
    ultimately show ?thesis by simp
  next
    case True
    define bs where "bs = take m (drop (k + 1) input)"
    have len: "length bs = m" using True by (simp add: bs_def)
    have sl: "slice input (nat (int k + 1)) (nat (int k + 1 + int m)) = bs"
      by (simp add: slice_def bs_def nat_add_distrib)
    have "bs \<noteq> []" using len assms(2) by auto
    then have bs0: "bs ! 0 = hd bs" "bs \<noteq> []" by (simp_all add: hd_conv_nth)
    have "longSize d input (int k) (int m) = Inr sz \<longleftrightarrow> hd bs \<noteq> 0 \<and> sz = arr_of bs \<and> 56 \<le> unat sz"
      unfolding longSize_def wrap sl safe_readSize_def fold_bytes using True assms(1) bs0
      by (auto simp: word_less_nat_alt)
    also have "\<dots> \<longleftrightarrow> nat_bytes (unat sz) = bs \<and> 56 \<le> unat sz"
    proof
      assume "hd bs \<noteq> 0 \<and> sz = arr_of bs \<and> 56 \<le> unat sz"
      then show "nat_bytes (unat sz) = bs \<and> 56 \<le> unat sz"
        using nat_bytes_SetBytes [of bs] uint_size [of bs] len assms(3) by auto
    next
      assume eq: "nat_bytes (unat sz) = bs \<and> 56 \<le> unat sz"
      then have "arr_of bs = sz" by (auto simp: arr_of_def)
      with eq hd_nat_bytes [of "unat sz"] show "hd bs \<noteq> 0 \<and> sz = arr_of bs \<and> 56 \<le> unat sz" by auto
    qed
    also have "\<dots> \<longleftrightarrow> occurs input (k + 1) (nat_bytes (unat sz)) \<and> length (nat_bytes (unat sz)) = m \<and> 56 \<le> unat sz"
      using len by (auto simp: occurs_def bs_def)
    finally show ?thesis .
  qed
qed

section \<open>Elements\<close>

lemma uint_minus_byte: "unat c \<le> unat b \<Longrightarrow> uint (b - c :: byte) = int (unat b - unat c)"
  by (simp only: uint_nat unat_sub_byte)

lemma u64_ex:
  assumes "\<And>n. P n \<Longrightarrow> n < 2 ^ 64"
  shows "(\<exists>sz :: u64. P (unat sz)) \<longleftrightarrow> (\<exists>n. P n)"
proof
  assume "\<exists>n. P n"
  then obtain n where "P n" by blast
  moreover have "unat (of_nat n :: u64) = n" using assms [OF \<open>P n\<close>] by (intro unat_of_nat64) simp
  ultimately show "\<exists>sz :: u64. P (unat sz)" by metis
qed blast

text \<open>The checks of a long size: a sum that wraps around passes the check against the length of the input,
  and then fails the one against \<open>MaxSize\<close>.\<close>

lemma long_checks:
  assumes "roomy d input" "k < length input" "m \<le> 8" "unat (MaxSize d) \<le> unat lim" "unat lim < 2 ^ 63"
  shows "(if sz > lim then Inl x else if wrap64 (int k + 1 + int m + uint sz) > int (length input) then Inl y
      else if sz > MaxSize d then Inl z else f) = Inr r \<longleftrightarrow>
    unat sz \<le> unat (MaxSize d) \<and> k + 1 + m + unat sz \<le> length input \<and> f = Inr r"
proof -
  let ?n = "k + 1 + m + unat sz"
  have n: "int k + 1 + int m + uint sz = int ?n" by simp
  show ?thesis
  proof (cases "unat sz \<le> unat (MaxSize d)")
    case True
    then have wrap: "wrap64 (int ?n) = int ?n" using assms(2,3) by (intro wrap64_pos [OF assms(1)]) linarith
    have "\<not> sz > lim" "\<not> sz > MaxSize d" using True assms(4) by (simp_all add: word_less_nat_alt)
    with True show ?thesis unfolding n wrap of_nat_less_iff by auto
  next
    case False
    then show ?thesis by (auto simp: word_less_nat_alt)
  qed
qed

lemma unat_int: "n < 18446744073709551616 \<Longrightarrow> unat (word_of_int (int n) :: u64) = n"
  by (simp add: unat_of_nat64)

lemma limits_MaxInt:
  assumes "roomy d input" "m \<le> 8"
  shows "unat (MaxSize d) \<le> unat (word_of_int (MaxInt64 - 1 - int m) :: u64)" "unat (word_of_int (MaxInt64 - 1 - int m) :: u64) < 2 ^ 63"
    "unat (MaxSize d) \<le> unat (word_of_int MaxInt64 :: u64)" "unat (word_of_int MaxInt64 :: u64) < 2 ^ 63"
proof -
  have eq: "MaxInt64 - 1 - int m = int (9223372036854775806 - m)" using assms(2) by (simp add: MaxInt64_def)
  have "unat (word_of_int (int (9223372036854775806 - m)) :: u64) = 9223372036854775806 - m" by (rule unat_int) simp
  then show "unat (MaxSize d) \<le> unat (word_of_int (MaxInt64 - 1 - int m) :: u64)" "unat (word_of_int (MaxInt64 - 1 - int m) :: u64) < 2 ^ 63"
    using assms unfolding eq by (simp_all only: roomy_def) simp_all
  show "unat (MaxSize d) \<le> unat (word_of_int MaxInt64 :: u64)" "unat (word_of_int MaxInt64 :: u64) < 2 ^ 63"
    using assms by (simp_all add: roomy_def MaxInt64_def)
qed

text \<open>What each kind of element must satisfy to be accepted.\<close>

lemma Element_bounds:
  assumes "validateElement d input (int k) dep = Inr r"
  shows "k < length input" "dep < MaxDepth d"
  using assms by (subst (asm) validateElement.simps; auto split: if_splits)+

lemma Element_byte:
  assumes "k < length input" "dep < MaxDepth d" "unat (input ! k) < 128"
  shows "validateElement d input (int k) dep = Inr 1"
  using assms by (subst validateElement.simps) (simp add: word_less_nat_alt Let_def)

lemma Element_short:
  assumes "k < length input" "dep < MaxDepth d" "roomy d input" "StrictMode d" "unat (input ! k) = 128 + n" "n < 56"
  shows "validateElement d input (int k) dep = Inr r \<longleftrightarrow>
    k + 1 + n \<le> length input \<and> \<not> (n = 1 \<and> input ! (k + 1) < 0x80) \<and> r = int (1 + n)"
proof -
  have sz: "uint (input ! k - 0x80) = int n" using uint_minus_byte [of "0x80" "input ! k"] assms(5) by simp
  have "int k + (1 + int n) = int (k + 1 + n)" by simp
  moreover have "wrap64 (int (k + 1 + n)) = int (k + 1 + n)" using assms(1,6) by (intro wrap64_pos [OF assms(3)]) linarith
  ultimately have wrap: "wrap64 (int k + (1 + int n)) = int (k + 1 + n)" by (simp only:)
  have "nat (int k + 1) = k + 1" by simp
  then show ?thesis using assms sz wrap
    by (subst validateElement.simps) (auto simp: word_less_nat_alt Let_def)
qed

lemma long_iff:
  assumes "StrictMode d" "1 \<le> m" "m \<le> 8" "k < length input" "roomy d input" "unat (MaxSize d) \<le> unat lim" "unat lim < 2 ^ 63"
  shows "(case longSize d input (int k) (int m) of Inl x \<Rightarrow> Inl x
      | Inr sz \<Rightarrow> if sz > lim then Inl ErrInvalidInput
          else if wrap64 (int k + 1 + int m + uint sz) > int (length input) then Inl ErrInvalidInput
          else if sz > MaxSize d then Inl ErrMaxSizeExceeded else f (uint sz)) = Inr r \<longleftrightarrow>
    (\<exists>n. occurs input (k + 1) (nat_bytes n) \<and> length (nat_bytes n) = m \<and> 56 \<le> n \<and> n \<le> unat (MaxSize d) \<and>
      k + 1 + m + n \<le> length input \<and> f (int n) = Inr r)" (is "?lhs \<longleftrightarrow> ?rhs")
proof -
  note checks = long_checks [OF assms(5,4,3,6,7)]
  have "?lhs \<longleftrightarrow> (\<exists>sz. longSize d input (int k) (int m) = Inr sz \<and> unat sz \<le> unat (MaxSize d) \<and>
      k + 1 + m + unat sz \<le> length input \<and> f (uint sz) = Inr r)"
  proof (cases "longSize d input (int k) (int m)")
    case (Inr sz)
    show ?thesis unfolding Inr sum.case checks sum.inject by blast
  qed simp
  also have "\<dots> \<longleftrightarrow> (\<exists>sz :: u64. occurs input (k + 1) (nat_bytes (unat sz)) \<and> length (nat_bytes (unat sz)) = m \<and> 56 \<le> unat sz \<and>
      unat sz \<le> unat (MaxSize d) \<and> k + 1 + m + unat sz \<le> length input \<and> f (int (unat sz)) = Inr r)"
    unfolding longSize_iff [OF assms(1-5)] uint_nat by blast
  also have "\<dots> \<longleftrightarrow> ?rhs"
    using assms(5) by (intro u64_ex) (simp add: roomy_def)
  finally show ?thesis .
qed

lemma Element_long:
  assumes "k < length input" "dep < MaxDepth d" "roomy d input" "StrictMode d" "unat (input ! k) = 183 + m" "1 \<le> m" "m \<le> 8"
  shows "validateElement d input (int k) dep = Inr r \<longleftrightarrow>
    (\<exists>n. occurs input (k + 1) (nat_bytes n) \<and> length (nat_bytes n) = m \<and> 56 \<le> n \<and> n \<le> unat (MaxSize d) \<and>
      k + 1 + m + n \<le> length input \<and> Inr (1 + int m + int n) = (Inr r :: int res))"
proof -
  have b: "\<not> input ! k < 0x80" "\<not> input ! k < 0xB8" "input ! k < 0xC0" using assms(5-7) by (simp_all add: word_less_nat_alt)
  have m: "uint (input ! k - 0xB7) = int m" using uint_minus_byte [of "0xB7" "input ! k"] assms(5) by simp
  have E: "validateElement d input (int k) dep = (case longSize d input (int k) (int m) of Inl x \<Rightarrow> Inl x
      | Inr sz \<Rightarrow> if sz > word_of_int (MaxInt64 - 1 - int m) then Inl ErrInvalidInput
          else if wrap64 (int k + 1 + int m + uint sz) > int (length input) then Inl ErrInvalidInput
          else if sz > MaxSize d then Inl ErrMaxSizeExceeded else Inr (1 + int m + uint sz))"
    using assms(1,2) b by (subst validateElement.simps, simp only: Let_def nat_int m) (simp add: add.assoc cong: sum.case_cong if_cong)
  show ?thesis unfolding E
    by (rule long_iff [where f = "\<lambda>n. Inr (1 + int m + n)", OF assms(4,6,7,1,3) limits_MaxInt(1,2) [OF assms(3,7)]])
qed

lemma Element_shortList:
  assumes "k < length input" "dep < MaxDepth d" "roomy d input" "unat (input ! k) = 192 + n" "n < 56"
  shows "validateElement d input (int k) dep = Inr r \<longleftrightarrow>
    k + 1 + n \<le> length input \<and> validateElements d input (int (k + 1)) (int (k + 1 + n)) 0 (dep + 1) = Inr () \<and> r = int (1 + n)"
proof -
  have sz: "uint (input ! k - 0xC0) = int n" using uint_minus_byte [of "0xC0" "input ! k"] assms(4) by simp
  have "int k + 1 + int n = int (k + 1 + n)" by simp
  moreover have "wrap64 (int (k + 1 + n)) = int (k + 1 + n)" using assms(1,5) by (intro wrap64_pos [OF assms(3)]) linarith
  ultimately have wrap: "wrap64 (int k + 1 + int n) = int (k + 1 + n)" by (simp only:)
  show ?thesis using assms sz wrap
    by (subst validateElement.simps)
      (auto simp: validateListContents.simps word_less_nat_alt Let_def add.commute [of "int k" 1] split: sum.splits)
qed

lemma Element_longList:
  assumes "k < length input" "dep < MaxDepth d" "roomy d input" "StrictMode d" "unat (input ! k) = 247 + m" "1 \<le> m" "m \<le> 8"
  shows "validateElement d input (int k) dep = Inr r \<longleftrightarrow>
    (\<exists>n. occurs input (k + 1) (nat_bytes n) \<and> length (nat_bytes n) = m \<and> 56 \<le> n \<and> n \<le> unat (MaxSize d) \<and>
      k + 1 + m + n \<le> length input \<and>
      validateElements d input (int (k + 1 + m)) (int (k + 1 + m + n)) 0 (dep + 1) = Inr () \<and> r = int (1 + m + n))"
proof -
  have b: "\<not> input ! k < 0x80" "\<not> input ! k < 0xB8" "\<not> input ! k < 0xC0" "\<not> input ! k < 0xF8"
    using assms(5-7) by (simp_all add: word_less_nat_alt)
  have m: "uint (input ! k - 0xF7) = int m" using uint_minus_byte [of "0xF7" "input ! k"] assms(5) by simp
  let ?f = "\<lambda>n. case validateElements d input (int k + 1 + int m) (wrap64 (int k + 1 + int m + n)) 0 (dep + 1) of
      Inl x \<Rightarrow> Inl x | Inr _ \<Rightarrow> Inr (wrap64 (1 + int m + n))"
  have E: "validateElement d input (int k) dep = (case longSize d input (int k) (int m) of Inl x \<Rightarrow> Inl x
      | Inr sz \<Rightarrow> if sz > word_of_int MaxInt64 then Inl ErrInvalidInput
          else if wrap64 (int k + 1 + int m + uint sz) > int (length input) then Inl ErrInvalidInput
          else if sz > MaxSize d then Inl ErrMaxSizeExceeded else ?f (uint sz))"
    using assms(1,2) b by (subst validateElement.simps, simp only: Let_def nat_int m)
      (simp add: validateListContents.simps add.assoc cong: sum.case_cong if_cong)
  have iff: "validateElement d input (int k) dep = Inr r \<longleftrightarrow>
    (\<exists>n. occurs input (k + 1) (nat_bytes n) \<and> length (nat_bytes n) = m \<and> 56 \<le> n \<and> n \<le> unat (MaxSize d) \<and>
      k + 1 + m + n \<le> length input \<and> ?f (int n) = Inr r)"
    unfolding E
    by (rule long_iff [where f = ?f, OF assms(4,6,7,1,3) limits_MaxInt(3,4) [OF assms(3,7)]])
  have f: "?f (int n) = Inr r \<longleftrightarrow>
      validateElements d input (int (k + 1 + m)) (int (k + 1 + m + n)) 0 (dep + 1) = Inr () \<and> r = int (1 + m + n)"
    if "k + 1 + m + n \<le> length input" for n
  proof -
    have eq: "int k + 1 + int m = int (k + 1 + m)" "int (k + 1 + m) + int n = int (k + 1 + m + n)" "1 + int m + int n = int (1 + m + n)" by simp_all
    have "wrap64 (int (k + 1 + m + n)) = int (k + 1 + m + n)" "wrap64 (int (1 + m + n)) = int (1 + m + n)"
      using that by (intro wrap64_pos [OF assms(3)]; linarith)+
    then show ?thesis unfolding eq by (auto split: sum.splits)
  qed
  show ?thesis unfolding iff using f by blast
qed

section \<open>Items within the limits\<close>

fun fitsLimits :: "SafeDecoderConfig \<Rightarrow> int \<Rightarrow> rlp \<Rightarrow> bool" where
  "fitsLimits d dep (Str b) \<longleftrightarrow> dep < MaxDepth d \<and> (56 \<le> length b \<longrightarrow> length b \<le> unat (MaxSize d))"
| "fitsLimits d dep (Lst xs) \<longleftrightarrow> dep < MaxDepth d \<and> (xs \<noteq> [] \<longrightarrow> int (length xs) \<le> MaxListLen d) \<and>
     (let n = length (concat (map rlp_bytes xs)) in 56 \<le> n \<longrightarrow> n \<le> unat (MaxSize d)) \<and>
     list_all (fitsLimits d (dep + 1)) xs"

lemma rlp_bytes_Lst: "rlp_bytes (Lst xs) = header 0xC0 (length (concat (map rlp_bytes xs))) @ concat (map rlp_bytes xs)"
  by (simp add: rlp_bytes.simps Let_def)

lemma rlp_bytes_pos: "0 < length (rlp_bytes it)"
proof (cases it)
  case (Str b)
  then show ?thesis by (cases b rule: Str_cases) (simp_all add: header_def)
next
  case (Lst xs)
  then show ?thesis by (simp add: rlp_bytes_Lst header_def)
qed

text \<open>An accepted element at position \<open>k\<close> is an item.\<close>

definition itemAt :: "SafeDecoderConfig \<Rightarrow> byte list \<Rightarrow> nat \<Rightarrow> int \<Rightarrow> rlp \<Rightarrow> bool" where
  "itemAt d input k dep it \<longleftrightarrow> occurs input k (rlp_bytes it) \<and> fitsLimits d dep it"

lemma itemAt_length:
  assumes "itemAt d input k dep it"
  shows "k + length (rlp_bytes it) \<le> length input" "k < length input"
proof -
  have pos: "0 < length (rlp_bytes it)" by (rule rlp_bytes_pos)
  then have "rlp_bytes it \<noteq> []" by blast
  with assms show len: "k + length (rlp_bytes it) \<le> length input" by (intro occurs_length) (simp_all add: itemAt_def)
  with pos show "k < length input" by linarith
qed

lemma loop_sound:
  assumes elem: "\<And>k r. validateElement d input (int k) dep = Inr r \<Longrightarrow> \<exists>it. itemAt d input k dep it \<and> r = int (length (rlp_bytes it))"
    and room: "roomy d input"
    and "validateElements d input (int p) (int e) (int c) dep = Inr ()"
  shows "\<exists>xs. occurs input p (concat (map rlp_bytes xs)) \<and> p + length (concat (map rlp_bytes xs)) = e \<and>
    (xs \<noteq> [] \<longrightarrow> int (c + length xs) \<le> MaxListLen d) \<and> list_all (fitsLimits d dep) xs"
  using assms(3)
proof (induction "length input - p" arbitrary: p c rule: less_induct)
  case less
  show ?case
  proof (cases "p < e")
    case False
    with less.prems have "p = e" by (subst (asm) validateElements.simps) (auto split: if_splits)
    then show ?thesis by (intro exI [of _ "[]"]) simp
  next
    case True
    with less.prems obtain r where r: "validateElement d input (int p) dep = Inr r" "int c + 1 \<le> MaxListLen d"
        and rest: "validateElements d input (wrap64 (int p + r)) (int e) (int c + 1) dep = Inr ()"
      by (subst (asm) validateElements.simps) (auto split: if_splits sum.splits)
    from elem [OF r(1)] obtain it where it: "itemAt d input p dep it" and rit: "r = int (length (rlp_bytes it))" by blast
    let ?n = "length (rlp_bytes it)"
    have len: "p + ?n \<le> length input" "0 < ?n" using itemAt_length [OF it] rlp_bytes_pos by blast+
    have "wrap64 (int (p + ?n)) = int (p + ?n)" using len by (intro wrap64_pos [OF room]) linarith
    then have "validateElements d input (int (p + ?n)) (int e) (int (c + 1)) dep = Inr ()" using rest by (simp add: rit add.commute)
    moreover have "length input - (p + ?n) < length input - p" using len by linarith
    ultimately obtain xs where xs: "occurs input (p + ?n) (concat (map rlp_bytes xs))"
        "p + ?n + length (concat (map rlp_bytes xs)) = e" "xs \<noteq> [] \<longrightarrow> int (c + 1 + length xs) \<le> MaxListLen d" "list_all (fitsLimits d dep) xs"
      using less.hyps [of "p + ?n" "c + 1"] by blast
    have "int (c + length (it # xs)) \<le> MaxListLen d" using xs(3) r(2) by (cases "xs = []") simp_all
    with it xs show ?thesis by (intro exI [of _ "it # xs"]) (simp add: occurs_append itemAt_def)
  qed
qed

lemma byte_cases:
  obtains (byte) "unat (x :: byte) < 128"
  | (short) n where "unat x = 128 + n" "n < 56"
  | (long) m where "unat x = 183 + m" "1 \<le> m" "m \<le> 8"
  | (shortList) n where "unat x = 192 + n" "n < 56"
  | (longList) m where "unat x = 247 + m" "1 \<le> m" "m \<le> 8"
proof -
  have "unat x < 256" using unsigned_less [of x] by simp
  then consider "unat x < 128" | "128 \<le> unat x" "unat x < 184" | "184 \<le> unat x" "unat x < 192" | "192 \<le> unat x" "unat x < 248" | "248 \<le> unat x" "unat x < 256"
    by linarith
  then show ?thesis
  proof cases
    case 1 then show ?thesis by (rule byte)
  next
    case 2 then show ?thesis using short [of "unat x - 128"] by simp
  next
    case 3 then show ?thesis using long [of "unat x - 183"] by simp
  next
    case 4 then show ?thesis using shortList [of "unat x - 192"] by simp
  next
    case 5 then show ?thesis using longList [of "unat x - 247"] by simp
  qed
qed

lemma string_item:
  assumes "occurs input k (header 0x80 n)" "k + length (header 0x80 n) + n \<le> length input" "dep < MaxDepth d"
    "56 \<le> n \<longrightarrow> n \<le> unat (MaxSize d)" "\<not> (n = 1 \<and> input ! (k + length (header 0x80 n)) < 0x80)"
  shows "\<exists>it. itemAt d input k dep it \<and> length (rlp_bytes it) = length (header 0x80 n) + n"
proof -
  let ?h = "length (header 0x80 n)"
  let ?b = "take n (drop (k + ?h) input)"
  have len: "length ?b = n" using assms(2) by simp
  have "\<not> (length ?b = 1 \<and> hd ?b < 0x80)"
    using assms(2,5) by (auto simp: hd_take hd_drop_conv_nth)
  then have "rlp_bytes (Str ?b) = header 0x80 (length ?b) @ ?b" unfolding rlp_bytes.simps by (simp only: if_False)
  then have "rlp_bytes (Str ?b) = header 0x80 n @ ?b" unfolding len .
  moreover have "occurs input (k + ?h) ?b" using len by (simp add: occurs_def)
  ultimately show ?thesis using assms len by (intro exI [of _ "Str ?b"]) (simp add: itemAt_def occurs_append)
qed

lemma list_item:
  assumes "occurs input k (header 0xC0 n)" "dep < MaxDepth d" "56 \<le> n \<longrightarrow> n \<le> unat (MaxSize d)"
    "occurs input (k + length (header 0xC0 n)) (concat (map rlp_bytes xs))" "length (concat (map rlp_bytes xs)) = n"
    "xs \<noteq> [] \<longrightarrow> int (length xs) \<le> MaxListLen d" "list_all (fitsLimits d (dep + 1)) xs"
  shows "\<exists>it. itemAt d input k dep it \<and> length (rlp_bytes it) = length (header 0xC0 n) + n"
  using assms by (intro exI [of _ "Lst xs"]) (simp add: itemAt_def occurs_append rlp_bytes_Lst Let_def)

lemma length_header:
  assumes "off = 0x80 \<or> off = 0xC0" "n < 2 ^ 64"
  shows "length (header off n) = (if n < 56 then 1 else 1 + length (nat_bytes n))"
  by (subst header_parts(1) [OF assms]) simp

lemma header_atI:
  assumes "off = 0x80 \<or> off = 0xC0" "k < length input" "n < 2 ^ 64"
  shows "n < 56 \<Longrightarrow> unat (input ! k) = unat off + n \<Longrightarrow> occurs input k (header off n) \<and> length (header off n) = 1"
    and "56 \<le> n \<Longrightarrow> unat (input ! k) = unat off + 55 + length (nat_bytes n) \<Longrightarrow> occurs input (k + 1) (nat_bytes n) \<Longrightarrow>
      occurs input k (header off n) \<and> length (header off n) = 1 + length (nat_bytes n)"
  using assms by (auto simp: occurs_header length_header)

lemma Element_sound:
  assumes room: "roomy d input" and str: "StrictMode d"
  shows "validateElement d input (int k) dep = Inr r \<Longrightarrow> \<exists>it. itemAt d input k dep it \<and> r = int (length (rlp_bytes it))"
proof (induction "nat (MaxDepth d - dep)" arbitrary: k dep r rule: less_induct)
  case less
  note el = less.prems and bounds = Element_bounds [OF less.prems]
  have small: "n < 2 ^ 64" if "n \<le> length input" for n using that room by (simp add: roomy_def)
  have IH: "\<exists>it. itemAt d input k (dep + 1) it \<and> r = int (length (rlp_bytes it))"
    if "validateElement d input (int k) (dep + 1) = Inr r" for k r
    using less.hyps [OF _ that] bounds(2) by simp
  have list: ?case if hdr: "occurs input k (header 0xC0 n)" "length (header 0xC0 n) = h" and lim: "56 \<le> n \<longrightarrow> n \<le> unat (MaxSize d)"
    and loop: "validateElements d input (int (k + h)) (int (k + h + n)) (int 0) (dep + 1) = Inr ()" and r: "r = int (h + n)" for h n
  proof -
    have "\<exists>xs. occurs input (k + h) (concat (map rlp_bytes xs)) \<and> k + h + length (concat (map rlp_bytes xs)) = k + h + n \<and>
        (xs \<noteq> [] \<longrightarrow> int (0 + length xs) \<le> MaxListLen d) \<and> list_all (fitsLimits d (dep + 1)) xs"
      by (rule loop_sound [OF _ room loop]) (rule IH)
    then obtain xs where "occurs input (k + h) (concat (map rlp_bytes xs))" "length (concat (map rlp_bytes xs)) = n"
        "xs \<noteq> [] \<longrightarrow> int (length xs) \<le> MaxListLen d" "list_all (fitsLimits d (dep + 1)) xs"
      by auto
    with list_item [OF hdr(1) bounds(2) lim, of xs] show ?thesis using hdr(2) r by auto
  qed
  show ?case
  proof (cases "input ! k" rule: byte_cases)
    case byte
    then have "rlp_bytes (Str [input ! k]) = [input ! k]" by (simp add: rlp_bytes.simps word_less_nat_alt)
    moreover have "r = 1" using el Element_byte [OF bounds byte] by simp
    ultimately show ?thesis using bounds by (intro exI [of _ "Str [input ! k]"]) (simp add: itemAt_def occurs_single)
  next
    case (short n)
    then have n: "k + 1 + n \<le> length input" "\<not> (n = 1 \<and> input ! (k + 1) < 0x80)" "r = int (1 + n)"
      using el Element_short [OF bounds room str] by blast+
    have "occurs input k (header 0x80 n) \<and> length (header 0x80 n) = 1"
      using short n(1) bounds(1) small [of n] by (intro header_atI) simp_all
    then show ?thesis using string_item [of input k n dep d] n bounds(2) short(2) by auto
  next
    case (long m)
    then obtain n where n: "occurs input (k + 1) (nat_bytes n)" "length (nat_bytes n) = m" "56 \<le> n" "n \<le> unat (MaxSize d)"
        "k + 1 + m + n \<le> length input" "r = 1 + int m + int n"
      using el Element_long [OF bounds room str] by auto
    have "occurs input k (header 0x80 n) \<and> length (header 0x80 n) = 1 + m"
      using long(1) n bounds(1) small [of n] header_atI(2) [of "0x80" k input n] by simp
    then show ?thesis using string_item [of input k n dep d] n bounds(2) by auto
  next
    case (shortList n)
    then have n: "k + 1 + n \<le> length input" "validateElements d input (int (k + 1)) (int (k + 1 + n)) (int 0) (dep + 1) = Inr ()" "r = int (1 + n)"
      using el Element_shortList [OF bounds room] by simp_all
    have "occurs input k (header 0xC0 n) \<and> length (header 0xC0 n) = 1"
      using shortList n(1) bounds(1) small [of n] by (intro header_atI) simp_all
    then show ?thesis using n shortList(2) by (intro list [of n 1]) simp_all
  next
    case (longList m)
    then obtain n where n: "occurs input (k + 1) (nat_bytes n)" "length (nat_bytes n) = m" "56 \<le> n" "n \<le> unat (MaxSize d)"
        "k + 1 + m + n \<le> length input" "validateElements d input (int (k + 1 + m)) (int (k + 1 + m + n)) (int 0) (dep + 1) = Inr ()" "r = int (1 + m + n)"
      using el Element_longList [OF bounds room str] by auto
    have "occurs input k (header 0xC0 n) \<and> length (header 0xC0 n) = 1 + m"
      using longList(1) n bounds(1) small [of n] header_atI(2) [of "0xC0" k input n] by simp
    then show ?thesis using n by (intro list [of n "1 + m"]) (simp_all add: add.assoc)
  qed
qed

lemma loop_complete:
  assumes "\<And>k x. x \<in> set xs \<Longrightarrow> itemAt d input k dep x \<Longrightarrow> validateElement d input (int k) dep = Inr (int (length (rlp_bytes x)))"
    and room: "roomy d input"
    and "occurs input p (concat (map rlp_bytes xs))" "list_all (fitsLimits d dep) xs" "xs \<noteq> [] \<longrightarrow> int (c + length xs) \<le> MaxListLen d"
  shows "validateElements d input (int p) (int (p + length (concat (map rlp_bytes xs)))) (int c) dep = Inr ()"
  using assms(1,3-5)
proof (induction xs arbitrary: p c)
  case Nil
  then show ?case by (subst validateElements.simps) simp
next
  case (Cons x xs)
  let ?n = "length (rlp_bytes x)" and ?e = "p + length (concat (map rlp_bytes (x # xs)))"
  have at: "itemAt d input p dep x" "occurs input (p + ?n) (concat (map rlp_bytes xs))" using Cons.prems by (simp_all add: itemAt_def occurs_append)
  have elem: "validateElement d input (int p) dep = Inr (int ?n)" using Cons.prems(1) at(1) by simp
  have "p + ?n \<le> length input" "0 < ?n" using itemAt_length [OF at(1)] rlp_bytes_pos by blast+
  then have "wrap64 (int (p + ?n)) = int (p + ?n)" by (intro wrap64_pos [OF room]) linarith
  then have wrap: "wrap64 (int p + int ?n) = int (p + ?n)" by simp
  have rest: "validateElements d input (int (p + ?n)) (int (p + ?n + length (concat (map rlp_bytes xs)))) (int (c + 1)) dep = Inr ()"
    using Cons.prems at(2) by (intro Cons.IH) simp_all
  have "p < ?e" "int c + 1 \<le> MaxListLen d" using \<open>0 < ?n\<close> Cons.prems(4) by auto
  moreover have "?e = p + ?n + length (concat (map rlp_bytes xs))" "int c + 1 = int (c + 1)" by simp_all
  ultimately show ?case using rest by (subst validateElements.simps) (simp only: elem wrap sum.case of_nat_less_iff if_True not_less [symmetric] if_False)
qed

lemma header_atD:
  assumes "off = 0x80 \<or> off = 0xC0" "n < 2 ^ 64" "occurs input k (header off n)"
  shows "n < 56 \<Longrightarrow> unat (input ! k) = unat off + n \<and> length (header off n) = 1"
    and "56 \<le> n \<Longrightarrow> unat (input ! k) = unat off + 55 + length (nat_bytes n) \<and> occurs input (k + 1) (nat_bytes n) \<and>
      1 \<le> length (nat_bytes n) \<and> length (nat_bytes n) \<le> 8 \<and> length (header off n) = 1 + length (nat_bytes n)"
  using assms length_nat_bytes_pos [of n] by (auto simp: occurs_header length_header)

lemma Str_complete:
  assumes room: "roomy d input" and str: "StrictMode d" and it: "itemAt d input k dep (Str b)"
  shows "validateElement d input (int k) dep = Inr (int (length (rlp_bytes (Str b))))"
proof -
  note len = itemAt_length(1) [OF it] and k = itemAt_length(2) [OF it]
  have dep: "dep < MaxDepth d" and lim: "56 \<le> length b \<longrightarrow> length b \<le> unat (MaxSize d)" using it by (simp_all add: itemAt_def)
  show ?thesis
  proof (cases b rule: Str_cases)
    case (byte x)
    then have "input ! k = x" using it by (simp add: itemAt_def occurs_single)
    then show ?thesis using Element_byte [OF k dep] byte by (simp add: word_less_nat_alt)
  next
    case header
    let ?n = "length b" and ?h = "length (header 0x80 (length b))"
    have occ: "occurs input k (header 0x80 ?n)" "occurs input (k + ?h) b" using it by (simp_all add: itemAt_def header occurs_append)
    have n: "?n < 2 ^ 64" "k + ?h + ?n \<le> length input" using len room by (simp_all add: header roomy_def)
    show ?thesis
    proof (cases "?n < 56")
      case True
      from header_atD(1) [OF _ n(1) occ(1) True] have h: "unat (input ! k) = 128 + ?n" "?h = 1" by simp_all
      have "\<not> (?n = 1 \<and> input ! (k + 1) < 0x80)"
        using header(1) occ(2) h(2) occurs_single [of input "k + 1" "b ! 0"] by (auto simp: length_Suc_conv)
      then show ?thesis using Element_short [OF k dep room str h(1) True] n(2) h(2) by (simp add: header)
    next
      case False
      then have "56 \<le> ?n" by simp
      from header_atD(2) [OF _ n(1) occ(1) this] have h: "unat (input ! k) = 183 + length (nat_bytes ?n)"
          "occurs input (k + 1) (nat_bytes ?n)" "1 \<le> length (nat_bytes ?n)" "length (nat_bytes ?n) \<le> 8" "?h = 1 + length (nat_bytes ?n)"
        by simp_all
      have "\<exists>n. occurs input (k + 1) (nat_bytes n) \<and> length (nat_bytes n) = length (nat_bytes ?n) \<and> 56 \<le> n \<and> n \<le> unat (MaxSize d) \<and>
          k + 1 + length (nat_bytes ?n) + n \<le> length input \<and>
          Inr (1 + int (length (nat_bytes ?n)) + int n) = (Inr (int (?h + ?n)) :: int res)"
        using h n(2) \<open>56 \<le> ?n\<close> lim by (intro exI [of _ ?n]) simp
      then show ?thesis using Element_long [OF k dep room str h(1,3,4), of "int (?h + ?n)"] by (simp add: header)
    qed
  qed
qed

lemma Element_complete:
  assumes room: "roomy d input" and str: "StrictMode d"
  shows "itemAt d input k dep it \<Longrightarrow> validateElement d input (int k) dep = Inr (int (length (rlp_bytes it)))"
proof (induction it arbitrary: k dep)
  case (Str b)
  then show ?case by (rule Str_complete [OF room str])
next
  case (Lst xs)
  let ?bs = "concat (map rlp_bytes xs)"
  let ?n = "length ?bs" and ?h = "length (header 0xC0 (length ?bs))"
  have occ: "occurs input k (header 0xC0 ?n)" "occurs input (k + ?h) ?bs" using Lst.prems by (simp_all add: itemAt_def rlp_bytes_Lst occurs_append)
  have len: "k + (?h + ?n) \<le> length input" "k < length input"
    using itemAt_length [OF Lst.prems] by (simp_all only: rlp_bytes_Lst length_append)
  then have n: "?n < 2 ^ 64" using room by (simp add: roomy_def)
  have dep: "dep < MaxDepth d" and lim: "56 \<le> ?n \<longrightarrow> ?n \<le> unat (MaxSize d)" and elems: "list_all (fitsLimits d (dep + 1)) xs"
      "xs \<noteq> [] \<longrightarrow> int (0 + length xs) \<le> MaxListLen d"
    using Lst.prems by (simp_all add: itemAt_def Let_def)
  have loop: "validateElements d input (int (k + ?h)) (int (k + ?h + ?n)) (int 0) (dep + 1) = Inr ()"
    by (rule loop_complete [OF Lst.IH room occ(2) elems])
  show ?case
  proof (cases "?n < 56")
    case True
    from header_atD(1) [OF _ n occ(1) True] have h: "unat (input ! k) = 192 + ?n" "?h = 1" by simp_all
    then show ?thesis using Element_shortList [OF len(2) dep room h(1) True, of "int (1 + ?n)"] loop len(1) by (simp add: rlp_bytes_Lst)
  next
    case False
    then have "56 \<le> ?n" by simp
    from header_atD(2) [OF _ n occ(1) this] have h: "unat (input ! k) = 247 + length (nat_bytes ?n)"
        "occurs input (k + 1) (nat_bytes ?n)" "1 \<le> length (nat_bytes ?n)" "length (nat_bytes ?n) \<le> 8" "?h = 1 + length (nat_bytes ?n)"
      by simp_all
    have "\<exists>n. occurs input (k + 1) (nat_bytes n) \<and> length (nat_bytes n) = length (nat_bytes ?n) \<and> 56 \<le> n \<and> n \<le> unat (MaxSize d) \<and>
        k + 1 + length (nat_bytes ?n) + n \<le> length input \<and>
        validateElements d input (int (k + 1 + length (nat_bytes ?n))) (int (k + 1 + length (nat_bytes ?n) + n)) 0 (dep + 1) = Inr () \<and>
        int (?h + ?n) = int (1 + length (nat_bytes ?n) + n)"
      using h len(1) \<open>56 \<le> ?n\<close> lim loop by (intro exI [of _ ?n]) (simp add: add.assoc)
    then show ?thesis using Element_longList [OF len(2) dep room str h(1,3,4), of "int (?h + ?n)"] by (simp add: rlp_bytes_Lst)
  qed
qed

text \<open>No position becomes negative, so no index is out of range.\<close>

lemma longSize_no_panic: "longSize d input off m \<noteq> Inl (Panic msg)"
  by (auto simp: longSize_def safe_readSize_def split: sum.splits if_splits)

lemma loop_no_panic:
  assumes elem: "\<And>k. validateElement d input (int k) dep \<noteq> Inl (Panic msg)" and room: "roomy d input" and str: "StrictMode d"
  shows "validateElements d input (int p) (int e) (int c) dep \<noteq> Inl (Panic msg)"
proof (induction "length input - p" arbitrary: p c rule: less_induct)
  case less
  show ?case
  proof (cases "validateElement d input (int p) dep")
    case (Inl x)
    then show ?thesis using elem [of p] by (subst validateElements.simps) auto
  next
    case (Inr r)
    from Element_sound [OF room str Inr] obtain it where it: "itemAt d input p dep it" and r: "r = int (length (rlp_bytes it))" by blast
    let ?n = "length (rlp_bytes it)"
    have len: "p + ?n \<le> length input" "0 < ?n" using itemAt_length [OF it] rlp_bytes_pos by blast+
    then have "wrap64 (int (p + ?n)) = int (p + ?n)" by (intro wrap64_pos [OF room]) linarith
    then have wrap: "wrap64 (int p + r) = int (p + ?n)" by (simp add: r)
    have count: "int c + 1 = int (c + 1)" by simp
    have "length input - (p + ?n) < length input - p" using len by linarith
    from less.hyps [OF this, of "c + 1"] show ?thesis
      by (subst validateElements.simps) (simp only: Inr sum.case wrap count, simp)
  qed
qed

lemma Element_no_panic:
  assumes room: "roomy d input" and str: "StrictMode d"
  shows "validateElement d input (int k) dep \<noteq> Inl (Panic msg)"
proof (induction "nat (MaxDepth d - dep)" arbitrary: k dep rule: less_induct)
  case less
  show ?case
  proof
    assume panic: "validateElement d input (int k) dep = Inl (Panic msg)"
    then have bounds: "k < length input" "dep < MaxDepth d" by (subst (asm) validateElement.simps; auto split: if_splits)+
    have loop: "validateElements d input (int p) (int e) (int 0) (dep + 1) \<noteq> Inl (Panic msg)" for p e
      using less bounds(2) by (intro loop_no_panic room str) simp
    show False
    proof (cases "input ! k" rule: byte_cases)
      case byte
      then show ?thesis using panic Element_byte [OF bounds] by simp
    next
      case (short n)
      then show ?thesis using panic bounds by (subst (asm) validateElement.simps) (auto simp: word_less_nat_alt Let_def split: if_splits)
    next
      case (long m)
      then show ?thesis using panic bounds longSize_no_panic
        by (subst (asm) validateElement.simps) (auto simp: word_less_nat_alt Let_def split: if_splits sum.splits)
    next
      case (shortList n)
      have sz: "uint (input ! k - 0xC0) = int n" using uint_minus_byte [of "0xC0" "input ! k"] shortList by simp
      have b: "\<not> input ! k < 0x80" "\<not> input ! k < 0xB8" "\<not> input ! k < 0xC0" "input ! k < 0xF8" using shortList by (simp_all add: word_less_nat_alt)
      have eq: "int k + 1 = int (k + 1)" "int (k + 1) + int n = int (k + 1 + n)" by simp_all
      have wrap: "wrap64 (int (k + 1 + n)) = int (k + 1 + n)" using bounds(1) shortList(2) by (intro wrap64_pos [OF room]) linarith
      from panic bounds b have "validateElements d input (int k + 1) (wrap64 (int k + 1 + int n)) 0 (dep + 1) = Inl (Panic msg)"
        by (subst (asm) validateElement.simps, simp only: Let_def nat_int sz) (auto simp: validateListContents.simps split: if_splits sum.splits)
      then show False using wrap loop [of "k + 1" "k + 1 + n"] unfolding eq by simp
    next
      case (longList m)
      have m: "uint (input ! k - 0xF7) = int m" using uint_minus_byte [of "0xF7" "input ! k"] longList by simp
      have b: "\<not> input ! k < 0x80" "\<not> input ! k < 0xB8" "\<not> input ! k < 0xC0" "\<not> input ! k < 0xF8" using longList by (simp_all add: word_less_nat_alt)
      from panic bounds b longSize_no_panic [of d input "int k" "int m" msg] obtain sz where sz: "\<not> sz > MaxSize d"
          "validateElements d input (int k + (1 + int m)) (wrap64 (int k + (1 + int m) + uint sz)) 0 (dep + 1) = Inl (Panic msg)"
        by (subst (asm) validateElement.simps, simp only: Let_def nat_int m) (auto simp: validateListContents.simps split: if_splits sum.splits)
      have eq: "int k + (1 + int m) = int (k + 1 + m)" "int (k + 1 + m) + uint sz = int (k + 1 + m + unat sz)" by simp_all
      have "wrap64 (int (k + 1 + m + unat sz)) = int (k + 1 + m + unat sz)"
        using bounds(1) longList(3) sz(1) by (intro wrap64_pos [OF room]) (simp add: word_less_nat_alt)
      then show False using sz(2) loop [of "k + 1 + m" "k + 1 + m + unat sz"] unfolding eq by simp
    qed
  qed
qed

lemma occurs_0: "occurs input 0 bs \<longleftrightarrow> (\<exists>rest. input = bs @ rest)"
  by (auto simp: occurs_def) (metis append_take_drop_id)

lemma validateInput_iff:
  assumes "StrictMode d" "roomy d input"
  shows "validateInput d input = Inr () \<longleftrightarrow> input = [] \<or> (\<exists>it rest. input = rlp_bytes it @ rest \<and> fitsLimits d 0 it)"
proof (cases "input = []")
  case False
  have "validateInput d input = Inr () \<longleftrightarrow> (\<exists>r. validateElement d input (int 0) 0 = Inr r)"
    using False by (auto simp: validateInput_def split: sum.splits)
  also have "\<dots> \<longleftrightarrow> (\<exists>it. itemAt d input 0 0 it)"
    using Element_sound [OF assms(2,1), of 0 0] Element_complete [OF assms(2,1), of 0 0] by blast
  finally show ?thesis using False by (auto simp: itemAt_def occurs_0)
qed (simp add: validateInput_def)

section \<open>Validation before decoding\<close>

lemma default_decoder:
  "MaxSize NewDefaultSafeDecoder = 10485760" "MaxDepth NewDefaultSafeDecoder = 64" "MaxListLen NewDefaultSafeDecoder = 1048576"
  "StrictMode NewDefaultSafeDecoder"
  by (simp_all add: NewDefaultSafeDecoder_def NewSafeDecoder_def DefaultSafeDecoderConfig_def maxRLPSize_def maxNestingDepth_def
      maxSliceElements_def Let_def)

lemma item_fits:
  assumes "strict t" "hasType t v" "item v = Some it" "length (rlp_bytes it) \<le> 10485760" "dep + int (depth t) < 64"
  shows "fitsLimits NewDefaultSafeDecoder dep it"
  using assms
proof (induction t arbitrary: v it dep rule: strict.induct)
  case (7 t)
  then obtain vs where v: "v = VSlice vs" "\<And>w. w \<in> set vs \<Longrightarrow> hasType t w" "length vs < 1048576"
    by (auto simp: list_all_iff maxSliceElements_def split: val.splits)
  have "those (map item vs) = Some (map (\<lambda>v. the (item v)) vs)" using hasType_item [OF v(2)] by (intro those_the) blast
  with 7(4) v(1) have it: "it = Lst (map (\<lambda>v. the (item v)) vs)" by simp
  have len: "length (concat (map rlp_bytes (map (\<lambda>v. the (item v)) vs))) \<le> 10485760" using 7(5) unfolding it rlp_bytes_Lst by simp
  have "fitsLimits NewDefaultSafeDecoder (dep + 1) (the (item w))" if w: "w \<in> set vs" for w
  proof -
    obtain x where x: "item w = Some x" using hasType_item [OF v(2) [OF w]] by blast
    have "x \<in> set (map (\<lambda>v. the (item v)) vs)" using w x by force
    from length_rlp_Lst [OF this] len have "length (rlp_bytes x) \<le> 10485760" by linarith
    then show ?thesis using 7(1) [OF _ v(2) [OF w] x] 7(2,6) x by simp
  qed
  then show ?case using 7(6) v(3) len unfolding it by (simp add: default_decoder list_all_iff Let_def)
next
  case (8 t)
  then consider "v = VNil" | w where "v = VPtr w" "hasType t w" by (auto split: val.splits)
  then show ?case
  proof cases
    case 1
    then show ?thesis using 8(4,6) by (auto simp: default_decoder)
  next
    case 2
    then show ?thesis using 8 by simp
  qed
qed (auto simp: default_decoder rlp_bytes.simps split: val.splits if_splits)

lemma default_roomy: "length b \<le> 10485760 \<Longrightarrow> roomy NewDefaultSafeDecoder b"
  by (simp add: roomy_def default_decoder)

lemma DecodeBytes_validated:
  assumes "strict t" "depth t < maxNestingDepth" "length b < 2 ^ 64" "DecodeBytes b t = Inr v"
  shows "SafeDecodeBytes (Some b) t = Inr v"
proof -
  from DecodeBytes_canonical [OF assms(1,3,4)] have v: "hasType t v" "enc v = b" by simp_all
  have "ulen b \<le> maxRLPSize" using assms(4) by (auto simp: DecodeBytes_def split: if_splits)
  then have len: "length b \<le> 10485760" using assms(3) by (simp add: word_le_nat_alt maxRLPSize_def ulen_def unat_of_nat64)
  obtain it where it: "item v = Some it" using hasType_item [OF v(1)] by blast
  then have "b = rlp_bytes it" using v(2) by (simp add: enc_def)
  then have "fitsLimits NewDefaultSafeDecoder 0 it"
    using item_fits [OF assms(1) v(1) it, of 0] len assms(2) by (simp add: maxNestingDepth_def)
  then have "validateInput NewDefaultSafeDecoder b = Inr ()"
    using validateInput_iff [OF default_decoder(4) default_roomy [OF len]] \<open>b = rlp_bytes it\<close> by fastforce
  moreover have "\<not> ulen b > MaxSize NewDefaultSafeDecoder" using len by (simp add: default_decoder word_less_nat_alt ulen_def unat_of_nat64)
  ultimately show ?thesis using assms(4) by (simp add: SafeDecodeBytes_def SafeDecoder_DecodeBytes_def)
qed

text \<open>With a limit near the largest integer the sum of a position and a size wraps around.\<close>

lemma validator_index_panics:
  "ValidateRLPStructureWithConfig [0xC9, 0xBF, 0x7F, 0xFF, 0xFF, 0xFF, 0xFF, 0xFF, 0xFF, 0xF6]
     (DefaultSafeDecoderConfig\<lparr>MaxSize := 0xFFFFFFFFFFFFFFFF\<rparr>) = Inl (Panic ''index out of range'')"
proof -
  let ?d = "\<lparr>MaxSize = 0xFFFFFFFFFFFFFFFF, MaxDepth = 64, MaxListLen = 1048576, StrictMode = True\<rparr>"
    and ?in = "[0xC9, 0xBF, 0x7F, 0xFF, 0xFF, 0xFF, 0xFF, 0xFF, 0xFF, 0xF6] :: byte list"
  have "validateElement ?d ?in (- 9223372036854775808) 1 = Inl (Panic ''index out of range'')"
    by (subst validateElement.simps) simp
  moreover have "validateElement ?d ?in 1 1 = Inr 9223372036854775807" by code_simp
  moreover have "wrap64 9223372036854775808 = - 9223372036854775808" by code_simp
  ultimately have "validateElements ?d ?in 1 10 0 1 = Inl (Panic ''index out of range'')"
    by (subst validateElements.simps, simp, subst validateElements.simps, simp)
  then have "validateElement ?d ?in 0 0 = Inl (Panic ''index out of range'')"
    by (subst validateElement.simps) (simp add: validateListContents.simps wrap64_id)
  then show ?thesis
    by (simp add: ValidateRLPStructureWithConfig_def validateInput_def NewSafeDecoder_def DefaultSafeDecoderConfig_def
        maxNestingDepth_def maxSliceElements_def)
qed

section \<open>The budget of the safe stream\<close>

text \<open>The runs of a client: reads with \<open>Bytes\<close>, whose results are recorded, lists, and anything else done to the
  embedded stream.\<close>

inductive safe_run :: "SafeStream \<Rightarrow> byte list list \<Rightarrow> SafeStream \<Rightarrow> bool" where
  start: "safe_run s [] s"
| Bytes: "safe_run s bs s1 \<Longrightarrow> SafeStream_Bytes s1 = (Inr b, s2) \<Longrightarrow> safe_run s (bs @ [b]) s2"
| Refused: "safe_run s bs s1 \<Longrightarrow> SafeStream_Bytes s1 = (Inl x, s2) \<Longrightarrow> safe_run s bs s2"
| List: "safe_run s bs s1 \<Longrightarrow> safe_run s bs (snd (SafeStream_List s1))"
| ListEnd: "safe_run s bs s1 \<Longrightarrow> safe_run s bs (snd (SafeStream_ListEnd s1))"
| Stream: "safe_run s bs s1 \<Longrightarrow> safe_run s bs (s1\<lparr>ss_Stream := f (ss_Stream s1)\<rparr>)"

lemma Bytes_length:
  assumes "Stream_Kind s = (Inr (k, n), s1)" "Stream_Bytes s1 = (Inr b, s2)"
  shows "k = KByte \<and> length b = 1 \<or> k = KString \<and> length b = unat n"
proof -
  have kind: "Stream_Kind (s1\<lparr>s_callCount := c\<rparr>) = (Inr (k, n), s1\<lparr>s_callCount := c\<rparr>)" for c
    using Kind_idem [OF assms(1)] by (simp add: Kind_call)
  show ?thesis
  proof (cases k)
    case KString
    with assms(2) kind obtain s3 where "content n s3 = (Inr b, s2)"
      by (auto simp: Stream_Bytes_def content_bind op_simps split: if_splits prod.splits sum.splits)
    then show ?thesis using content_took KString by blast
  qed (use assms(2) kind in \<open>auto simp: Stream_Bytes_def op_simps rearm_def split: if_splits\<close>)
qed

lemma SafeBytes_cases:
  "ss_config (snd (SafeStream_Bytes s)) = ss_config s"
  "SafeStream_Bytes s = (Inl x, s') \<Longrightarrow> ss_totalRead s' = ss_totalRead s"
  "SafeStream_Bytes s = (Inr b, s') \<Longrightarrow>
     length b = 1 \<and> ss_totalRead s' = ss_totalRead s \<or>
     unat (ss_totalRead s') = unat (ss_totalRead s) + length b \<and> unat (ss_totalRead s') \<le> unat (MaxSize (ss_config s))"
proof -
  show "ss_config (snd (SafeStream_Bytes s)) = ss_config s"
    by (auto simp: SafeStream_Bytes_def on_Stream_def op_simps split: prod.splits sum.splits)
  show "ss_totalRead s' = ss_totalRead s" if "SafeStream_Bytes s = (Inl x, s')"
    using that by (auto simp: SafeStream_Bytes_def on_Stream_def op_simps split: prod.splits sum.splits if_splits)
  assume "SafeStream_Bytes s = (Inr b, s')"
  then obtain k n s1 s2 where kind: "Stream_Kind (ss_Stream s) = (Inr (k, n), s1)" and bytes: "Stream_Bytes s1 = (Inr b, s2)"
      and total: "ss_totalRead s' = (if k = KString then ss_totalRead s + ulen b else ss_totalRead s)"
      and checks: "k = KString \<longrightarrow> \<not> ss_totalRead s + n < ss_totalRead s \<and> \<not> ss_totalRead s + n > MaxSize (ss_config s)"
    by (auto simp: SafeStream_Bytes_def on_Stream_def op_simps split: prod.splits sum.splits if_splits)
  from Bytes_length [OF kind bytes]
  show "length b = 1 \<and> ss_totalRead s' = ss_totalRead s \<or>
     unat (ss_totalRead s') = unat (ss_totalRead s) + length b \<and> unat (ss_totalRead s') \<le> unat (MaxSize (ss_config s))"
  proof
    assume k: "k = KString \<and> length b = unat n"
    then have "ulen b = n" by (simp add: ulen_def)
    moreover have "unat (ss_totalRead s + n) = unat (ss_totalRead s) + unat n" using checks k by (simp add: not_less unat_plus_simple)
    ultimately show ?thesis using k checks total by (simp add: word_le_nat_alt not_less)
  qed (use total in simp)
qed

lemma safe_run_total:
  assumes "safe_run (NewSafeStream r config) bs s"
  shows "ss_config s = NewSafeDecoder config \<and>
    sum_list (map length (filter (\<lambda>b. length b \<noteq> 1) bs)) \<le> unat (ss_totalRead s) \<and> unat (ss_totalRead s) \<le> unat (MaxSize (ss_config s))"
  using assms
proof (induction "NewSafeStream r config" bs s rule: safe_run.induct)
  case start
  then show ?case by (simp add: NewSafeStream_def Let_def)
next
  case (Bytes bs s1 b s2)
  have "ss_config s2 = ss_config s1" using SafeBytes_cases(1) [of s1] Bytes(3) by simp
  with Bytes SafeBytes_cases(3) [OF Bytes(3)] show ?case by auto
next
  case (Refused bs s1 x s2)
  have "ss_config s2 = ss_config s1" using SafeBytes_cases(1) [of s1] Refused(3) by simp
  with Refused SafeBytes_cases(2) [OF Refused(3)] show ?case by auto
next
  case (List bs s1)
  then show ?case by (auto simp: SafeStream_List_def on_Stream_def op_simps split: prod.split sum.split)
next
  case (ListEnd bs s1)
  then show ?case by (auto simp: SafeStream_ListEnd_def on_Stream_def op_simps split: prod.split sum.split)
qed auto

section \<open>Properties\<close>

text \<open>C15: The validator accepts exactly what it should: in strict mode, for limits and inputs far enough
  from the largest integer, an input passes if it is empty or begins with the canonical encoding of
  an item whose nesting, list lengths and long sizes are within the limits; and whatever the input,
  no index is out of range.\<close>

theorem validator_exact:
  assumes "StrictMode d" "roomy d input"
  shows "(validateInput d input = Inr () \<longleftrightarrow> input = [] \<or> (\<exists>it rest. input = rlp_bytes it @ rest \<and> fitsLimits d 0 it)) \<and>
    (\<forall>msg. validateInput d input \<noteq> Inl (Panic msg))"
  using validateInput_iff [OF assms] Element_no_panic [OF assms(2,1), of 0 0]
  by (auto simp: validateInput_def split: sum.splits)

theorem validator_exact_witness:
  "ValidateRLPStructure [0xC2, 0x05, 0x80, 0xFF] = Inr ()"
proof -
  have "fitsLimits NewDefaultSafeDecoder 0 (Lst [Str [5], Str []])" by (simp add: default_decoder rlp_bytes.simps Let_def)
  moreover have "rlp_bytes (Lst [Str [5], Str []]) @ [0xFF] = [0xC2, 0x05, 0x80, 0xFF]" by (simp add: rlp_bytes.simps header_def)
  ultimately have "\<exists>it rest. [0xC2, 0x05, 0x80, 0xFF] = rlp_bytes it @ rest \<and> fitsLimits NewDefaultSafeDecoder 0 it" by metis
  then show ?thesis
    using validator_exact [OF default_decoder(4), of "[0xC2, 0x05, 0x80, 0xFF]"] by (simp add: ValidateRLPStructure_def default_roomy)
qed

text \<open>C16: Validation does not change what can be decoded: for booleans, integers, strings, byte slices, big
  integers, and slices of and pointers to these with fewer than 64 levels of lists, the safe decoder
  with the default limits returns a value exactly when the plain decoder does, and the same one.\<close>

theorem safe_decode_agrees:
  assumes "strict t" "depth t < maxNestingDepth" "length b < 2 ^ 64"
  shows "SafeDecodeBytes (Some b) t = Inr v \<longleftrightarrow> DecodeBytes b t = Inr v"
  using DecodeBytes_validated [OF assms]
  by (auto simp: SafeDecodeBytes_def SafeDecoder_DecodeBytes_def split: if_splits sum.splits)

theorem safe_decode_agrees_witness:
  "SafeDecodeBytes (Some [0xC1, 0x05]) (TSlice TBytes) = Inr (VSlice [VBytes [5]])"
proof -
  have enc: "enc (VSlice [VBytes [5]]) = [0xC1, 0x05]" by (simp add: enc_def rlp_bytes.simps header_def)
  have "decodable (TSlice TBytes) (VSlice [VBytes [5]])" unfolding decodable_def enc
    by (simp add: maxSliceElements_def maxNestingDepth_def maxBytesCalls_def endCalls_def)
  from DecodeBytes_enc [OF this] show ?thesis
    using safe_decode_agrees [of "TSlice TBytes" "[0xC1, 0x05]"] by (simp add: enc maxNestingDepth_def)
qed



end
