(* ===== verification/Rollup_Merkle.thy ===== *)
theory Rollup_Merkle
  imports Rollup_State
begin

text \<open>
  \<open>src/rollup/sparse_merkle.go\<close>: the sparse Merkle tree of the rollup, over the 160 bits of
  an address, its inclusion proofs and the hashes of its leaves. The tree is a map from
  positions to hashes that leaves out the empty subtrees; \<open>treeOf\<close> gives the tree of a set of
  leaves by recursion on the height, and every operation is shown to be the one on the leaves.
  SHA-256 is a parameter. \<open>panic\<close> is a value, the locks are left out: every public method holds
  the lock for its whole body.
\<close>

section \<open>Definitions\<close>

definition SparseMerkleTreeDepth :: nat where
  "SparseMerkleTreeDepth = 160"

type_synonym hasher = "byte list \<Rightarrow> Hash"

abbreviation hash_bytes :: "Hash \<Rightarrow> byte list" where
  "hash_bytes \<equiv> arr_bytes 32"

primrec smtZeroHashes :: "hasher \<Rightarrow> nat \<Rightarrow> Hash" where
  "smtZeroHashes sha256 0 = sha256 []"
| "smtZeroHashes sha256 (Suc i) =
     sha256 (hash_bytes (smtZeroHashes sha256 i) @ hash_bytes (smtZeroHashes sha256 i))"

record smtNodeKey =
  nk_depth :: byte
  nk_path :: Address

record SparseMerkleTree =
  smt_nodes :: "smtNodeKey \<rightharpoonup> Hash"
  smt_root :: Hash

definition NewSparseMerkleTree :: "hasher \<Rightarrow> SparseMerkleTree" where
  "NewSparseMerkleTree sha256 =
     \<lparr>smt_nodes = Map.empty, smt_root = smtZeroHashes sha256 SparseMerkleTreeDepth\<rparr>"

definition smt_Root :: "SparseMerkleTree \<Rightarrow> Hash" where
  "smt_Root smt = smt_root smt"

text \<open>The bit \<open>bitInByte\<close> of the byte \<open>byteIndex\<close> of an address, as a bit of the big-endian word.\<close>

definition addr_bit :: "nat \<Rightarrow> nat \<Rightarrow> nat" where
  "addr_bit byteIndex bitInByte = 8 * (19 - byteIndex) + bitInByte"

definition path_bit :: "nat \<Rightarrow> nat" where
  "path_bit bitIndex = addr_bit (bitIndex div 8) (7 - bitIndex mod 8)"

definition nodeKey :: "nat \<Rightarrow> Address \<Rightarrow> smtNodeKey" where
  "nodeKey d p = \<lparr>nk_depth = of_nat d, nk_path = p\<rparr>"

definition siblingAt :: "hasher \<Rightarrow> (smtNodeKey \<rightharpoonup> Hash) \<Rightarrow> nat \<Rightarrow> Address \<Rightarrow> Hash" where
  "siblingAt sha256 nodes d p =
     (case nodes (nodeKey d p) of
        Some h \<Rightarrow> h
      | None \<Rightarrow> smtZeroHashes sha256 (SparseMerkleTreeDepth - d))"

definition parentInput :: "bool \<Rightarrow> Hash \<Rightarrow> Hash \<Rightarrow> byte list" where
  "parentInput isRight currentHash siblingHash =
     (if isRight then hash_bytes siblingHash @ hash_bytes currentHash
      else hash_bytes currentHash @ hash_bytes siblingHash)"

text \<open>The loop of \<open>insertLocked\<close>; its first argument is \<open>currentDepth\<close>.\<close>

primrec insertLoop ::
  "hasher \<Rightarrow> nat \<Rightarrow> Address \<Rightarrow> Hash \<Rightarrow> (smtNodeKey \<rightharpoonup> Hash) \<Rightarrow> (smtNodeKey \<rightharpoonup> Hash) \<times> Hash" where
  "insertLoop sha256 0 currentPath currentHash nodes = (nodes, currentHash)"
| "insertLoop sha256 (Suc currentDepth) currentPath currentHash nodes =
     (let b = path_bit currentDepth;
          isRight = bit currentPath b;
          siblingPath = flip_bit b currentPath;
          siblingHash = siblingAt sha256 nodes (currentDepth + 1) siblingPath;
          currentHash = sha256 (parentInput isRight currentHash siblingHash);
          currentPath = unset_bit b currentPath
      in insertLoop sha256 currentDepth currentPath currentHash
           (nodes(nodeKey currentDepth currentPath \<mapsto> currentHash)))"

definition insertLocked :: "hasher \<Rightarrow> Address \<Rightarrow> Hash \<Rightarrow> SparseMerkleTree \<Rightarrow> SparseMerkleTree" where
  "insertLocked sha256 addr leafHash smt =
     (let nodes = (smt_nodes smt)(nodeKey SparseMerkleTreeDepth addr \<mapsto> leafHash);
          (nodes, currentHash) = insertLoop sha256 SparseMerkleTreeDepth addr leafHash nodes
      in smt\<lparr>smt_nodes := nodes, smt_root := currentHash\<rparr>)"

definition smt_Insert :: "hasher \<Rightarrow> Address \<Rightarrow> Hash \<Rightarrow> SparseMerkleTree \<Rightarrow> SparseMerkleTree" where
  "smt_Insert sha256 addr leafHash smt = insertLocked sha256 addr leafHash smt"

definition smt_Get :: "Address \<Rightarrow> SparseMerkleTree \<Rightarrow> Hash option" where
  "smt_Get addr smt = smt_nodes smt (nodeKey SparseMerkleTreeDepth addr)"

record MerkleProof =
  mp_LeafHash :: Hash
  mp_Siblings :: "Hash list"

text \<open>The loop of \<open>Prove\<close>; its first argument is \<open>depth\<close>.\<close>

primrec proveLoop :: "hasher \<Rightarrow> (smtNodeKey \<rightharpoonup> Hash) \<Rightarrow> nat \<Rightarrow> Address \<Rightarrow> Hash list" where
  "proveLoop sha256 nodes 0 currentPath = []"
| "proveLoop sha256 nodes (Suc bitIndex) currentPath =
     (let b = path_bit bitIndex
      in siblingAt sha256 nodes (Suc bitIndex) (flip_bit b currentPath)
           # proveLoop sha256 nodes bitIndex (unset_bit b currentPath))"

definition smt_Prove :: "hasher \<Rightarrow> Address \<Rightarrow> SparseMerkleTree \<Rightarrow> MerkleProof" where
  "smt_Prove sha256 addr smt =
     \<lparr>mp_LeafHash = (case smt_nodes smt (nodeKey SparseMerkleTreeDepth addr) of
                       Some h \<Rightarrow> h | None \<Rightarrow> smtZeroHashes sha256 0),
      mp_Siblings = proveLoop sha256 (smt_nodes smt) SparseMerkleTreeDepth addr\<rparr>"

text \<open>The loop of \<open>VerifyMerkleProof\<close> from the index \<open>i\<close> on, over the siblings not yet used.\<close>

fun verifyLoop :: "hasher \<Rightarrow> Address \<Rightarrow> nat \<Rightarrow> Hash \<Rightarrow> Hash list \<Rightarrow> Hash" where
  "verifyLoop sha256 currentPath i currentHash [] = currentHash"
| "verifyLoop sha256 currentPath i currentHash (sibling # siblings) =
     (let bitIndex = SparseMerkleTreeDepth - i - 1;
          isRight = bit currentPath (path_bit bitIndex)
      in verifyLoop sha256 currentPath (Suc i) (sha256 (parentInput isRight currentHash sibling)) siblings)"

definition VerifyMerkleProof :: "hasher \<Rightarrow> Address \<Rightarrow> MerkleProof option \<Rightarrow> Hash \<Rightarrow> bool" where
  "VerifyMerkleProof sha256 addr proof expectedRoot =
     (case proof of
        None \<Rightarrow> False
      | Some p \<Rightarrow> length (mp_Siblings p) = SparseMerkleTreeDepth
          \<and> verifyLoop sha256 addr 0 (mp_LeafHash p) (mp_Siblings p) = expectedRoot)"

text \<open>\<open>range entries\<close> visits the entries of a Go map in any order; the list is the order it takes.\<close>

definition smt_BatchInsert :: "hasher \<Rightarrow> (Address \<times> Hash) list \<Rightarrow> SparseMerkleTree \<Rightarrow> SparseMerkleTree" where
  "smt_BatchInsert sha256 entries smt = foldl (\<lambda>t (addr, leafHash). insertLocked sha256 addr leafHash t) smt entries"

definition smt_Clone :: "SparseMerkleTree \<Rightarrow> SparseMerkleTree" where
  "smt_Clone smt = \<lparr>smt_nodes = (\<lambda>k. smt_nodes smt k), smt_root = smt_root smt\<rparr>"

definition smt_Size :: "SparseMerkleTree \<Rightarrow> nat" where
  "smt_Size smt = card (dom (smt_nodes smt))"

section \<open>Hashes of leaves\<close>

fun compareBytes :: "byte list \<Rightarrow> byte list \<Rightarrow> int" where
  "compareBytes (a # as) (b # bs) = (if a < b then -1 else if a > b then 1 else compareBytes as bs)"
| "compareBytes _ _ = 0"

definition compareHash :: "Hash \<Rightarrow> Hash \<Rightarrow> int" where
  "compareHash a b = compareBytes (hash_bytes a) (hash_bytes b)"

text \<open>\<open>sort.Slice\<close> orders the distinct keys by \<open>compareHash\<close>: an insertion sort by the same test.\<close>

fun insertKey :: "Hash \<Rightarrow> Hash list \<Rightarrow> Hash list" where
  "insertKey k [] = [k]"
| "insertKey k (x # xs) = (if compareHash k x < 0 then k # x # xs else x # insertKey k xs)"

definition sortKeys :: "Hash list \<Rightarrow> Hash list" where
  "sortKeys ks = foldr insertKey ks []"

definition storageKeys :: "(Hash \<times> Hash) list \<Rightarrow> Hash list" where
  "storageKeys storage = sortKeys (remdups (map fst storage))"

definition storageBytes :: "(Hash \<times> Hash) list \<Rightarrow> byte list" where
  "storageBytes storage =
     concat (map (\<lambda>k. hash_bytes k @ hash_bytes (the (map_of storage k))) (storageKeys storage))"

definition computeStorageRoot :: "hasher \<Rightarrow> (Hash \<times> Hash) list \<Rightarrow> Hash" where
  "computeStorageRoot sha256 storage =
     (if length storage = 0 then smtZeroHashes sha256 0 else sha256 (storageBytes storage))"

definition accountLeafBytes :: "Address \<Rightarrow> RollupAccount \<Rightarrow> Hash \<Rightarrow> byte list" where
  "accountLeafBytes addr acc storageRoot =
     (let balanceBytes = big_Bytes (ra_Balance acc)
      in arr_bytes 20 addr @ arr_bytes 8 (ra_Nonce acc)
         @ arr_bytes 4 (of_nat (length balanceBytes) :: 32 word) @ balanceBytes
         @ hash_bytes (ra_CodeHash acc) @ hash_bytes storageRoot)"

definition computeAccountLeafHashWithStorageRoot :: "hasher \<Rightarrow> Address \<Rightarrow> RollupAccount option \<Rightarrow> Hash \<Rightarrow> Hash" where
  "computeAccountLeafHashWithStorageRoot sha256 addr acc storageRoot =
     (case acc of
        None \<Rightarrow> smtZeroHashes sha256 0
      | Some acc \<Rightarrow> sha256 (accountLeafBytes addr acc storageRoot))"

definition ComputeAccountLeafHash :: "hasher \<Rightarrow> Address \<Rightarrow> RollupAccount option \<Rightarrow> Hash" where
  "ComputeAccountLeafHash sha256 addr acc =
     (case acc of
        None \<Rightarrow> smtZeroHashes sha256 0
      | Some a \<Rightarrow> computeAccountLeafHashWithStorageRoot sha256 addr (Some a) (computeStorageRoot sha256 (ra_Storage a)))"

definition VerifyMerkleProofForAccount :: "hasher \<Rightarrow> Address \<Rightarrow> MerkleProof option \<Rightarrow> Hash \<Rightarrow> unit res" where
  "VerifyMerkleProofForAccount sha256 addr proof expectedRoot =
     (if \<not> VerifyMerkleProof sha256 addr proof expectedRoot
      then Inl (Errorf ''merkle proof verification failed for account'') else Inr ())"

definition withdrawalLeafBytes :: "Address \<Rightarrow> int option \<Rightarrow> int \<Rightarrow> byte list res" where
  "withdrawalLeafBytes withdrawer amount txIndex =
     (let amountBytes = (case amount of None \<Rightarrow> [] | Some a \<Rightarrow> big_Bytes a);
          idxBuf = arr_bytes 4 (word_of_int txIndex :: 32 word)
      in if length amountBytes > 32 then Inl (Panic ''slice bounds out of range'')
         else Inr (arr_bytes 20 withdrawer
                   @ go_copy (replicate 32 0) (32 - length amountBytes) amountBytes @ idxBuf))"

definition ComputeWithdrawalLeafHash :: "hasher \<Rightarrow> Address \<Rightarrow> int option \<Rightarrow> int \<Rightarrow> Hash res" where
  "ComputeWithdrawalLeafHash sha256 withdrawer amount txIndex =
     (case withdrawalLeafBytes withdrawer amount txIndex of
        Inl e \<Rightarrow> Inl e
      | Inr bs \<Rightarrow> Inr (sha256 bs))"

definition ComputeWithdrawalTreeKey :: "hasher \<Rightarrow> Address \<Rightarrow> int \<Rightarrow> Address" where
  "ComputeWithdrawalTreeKey sha256 withdrawer txIndex =
     arr_of (take 20 (hash_bytes (sha256 (arr_bytes 20 withdrawer @ arr_bytes 4 (word_of_int txIndex :: 32 word)))))"

section \<open>Positions\<close>

lemma addr_bit_byte:
  "i < 20 \<Longrightarrow> j < 8 \<Longrightarrow> bit (arr_bytes 20 (a :: Address) ! i) j \<longleftrightarrow> bit a (addr_bit i j)"
  by (simp add: nth_arr_bytes addr_bit_def bit_ucast_iff bit_drop_bit_eq)

lemma path_bit_eq: "i < 160 \<Longrightarrow> path_bit i = 159 - i"
  unfolding path_bit_def addr_bit_def by presburger

text \<open>The position of height \<open>k\<close> above an address: its low \<open>k\<close> bits cleared.\<close>

definition trunc :: "nat \<Rightarrow> Address \<Rightarrow> Address" where
  "trunc k a = push_bit k (drop_bit k a)"

lemma bit_trunc: "bit (trunc k a) n \<longleftrightarrow> k \<le> n \<and> bit a n"
  by (auto simp: trunc_def bit_push_bit_iff bit_drop_bit_eq dest: bit_imp_le_length)

lemma trunc_0 [simp]: "trunc 0 a = a"
  by (simp add: trunc_def)

lemma trunc_trunc [simp]: "trunc j (trunc k a) = trunc (max j k) a"
  by (rule bit_eqI) (auto simp: bit_trunc)

lemma trunc_160 [simp]: "trunc 160 a = 0"
  by (rule bit_eqI) (auto simp: bit_trunc)

lemma trunc_Suc: "trunc (Suc k) a = unset_bit k (trunc k a)"
  by (rule bit_eqI) (auto simp: bit_trunc bit_unset_bit_iff)

lemma trunc_fixed: "trunc k p = p \<longleftrightarrow> (\<forall>n < k. \<not> bit p n)"
  by (metis bit_eq_iff bit_trunc not_le)

lemma trunc_set: "trunc (Suc k) p = p \<Longrightarrow> trunc k (set_bit k p) = set_bit k p"
  by (auto simp: trunc_fixed bit_set_bit_iff)

lemma trunc_fixed_Suc: "trunc (Suc k) p = p \<Longrightarrow> trunc k p = p"
  by (simp add: trunc_fixed)

lemma trunc_set_Suc: "trunc (Suc k) p = p \<Longrightarrow> trunc (Suc k) (set_bit k p) = p"
  unfolding trunc_fixed by (rule bit_eqI) (auto simp: bit_trunc bit_set_bit_iff intro!: leI simp del: not_less)

lemma trunc_up: "trunc k a = p \<Longrightarrow> trunc (Suc k) a = trunc (Suc k) p"
  by (metis max.absorb1 le_SucI order_refl trunc_trunc)

lemma trunc_left: "\<not> bit a k \<Longrightarrow> trunc k a = trunc (Suc k) a"
  by (rule bit_eqI) (auto simp: bit_trunc Suc_le_eq le_less)

lemma trunc_right: "k < 160 \<Longrightarrow> bit a k \<Longrightarrow> trunc k a = set_bit k (trunc (Suc k) a)"
  by (rule bit_eqI) (auto simp: bit_trunc bit_set_bit_iff Suc_le_eq le_less)

lemma flip_left: "\<not> bit a k \<Longrightarrow> flip_bit k (trunc k a) = set_bit k (trunc (Suc k) a)"
  by (rule bit_eqI) (auto simp: bit_trunc bit_set_bit_iff bit_flip_bit_iff Suc_le_eq le_less)

lemma flip_right: "bit a k \<Longrightarrow> flip_bit k (trunc k a) = trunc (Suc k) a"
  by (rule bit_eqI) (auto simp: bit_trunc bit_flip_bit_iff Suc_le_eq le_less)

section \<open>The tree of a set of leaves\<close>

primrec subtree :: "hasher \<Rightarrow> (Address \<rightharpoonup> Hash) \<Rightarrow> nat \<Rightarrow> Address \<Rightarrow> Hash" where
  "subtree sha256 m 0 p = (case m p of Some h \<Rightarrow> h | None \<Rightarrow> smtZeroHashes sha256 0)"
| "subtree sha256 m (Suc k) p =
     sha256 (hash_bytes (subtree sha256 m k p) @ hash_bytes (subtree sha256 m k (set_bit k p)))"

definition nodesOf :: "hasher \<Rightarrow> (Address \<rightharpoonup> Hash) \<Rightarrow> smtNodeKey \<rightharpoonup> Hash" where
  "nodesOf sha256 m key =
     (let k = 160 - unat (nk_depth key)
      in if unat (nk_depth key) \<le> 160 \<and> (\<exists>a \<in> dom m. trunc k a = nk_path key)
         then Some (subtree sha256 m k (nk_path key)) else None)"

definition treeOf :: "hasher \<Rightarrow> (Address \<rightharpoonup> Hash) \<Rightarrow> SparseMerkleTree" where
  "treeOf sha256 m = \<lparr>smt_nodes = nodesOf sha256 m, smt_root = subtree sha256 m 160 0\<rparr>"

lemma subtree_empty:
  assumes "trunc k p = p" and "\<And>a. a \<in> dom m \<Longrightarrow> trunc k a \<noteq> p"
  shows "subtree sha256 m k p = smtZeroHashes sha256 k"
  using assms
proof (induction k arbitrary: p)
  case 0
  then show ?case by (auto split: option.split)
next
  case (Suc k)
  have "trunc k a \<noteq> p" "trunc k a \<noteq> set_bit k p" if "a \<in> dom m" for a
    using Suc.prems that trunc_up [of k a] trunc_set_Suc [of k p] by metis+
  with Suc show ?case by (simp add: trunc_set trunc_fixed_Suc)
qed

lemma subtree_update_other:
  assumes "trunc k p = p" and "trunc k a \<noteq> p"
  shows "subtree sha256 (m(a \<mapsto> h)) k p = subtree sha256 m k p"
  using assms
proof (induction k arbitrary: p)
  case 0
  then show ?case by simp
next
  case (Suc k)
  have "trunc k a \<noteq> p" "trunc k a \<noteq> set_bit k p"
    using Suc.prems trunc_up [of k a] trunc_set_Suc [of k p] by metis+
  with Suc show ?case by (simp add: trunc_set trunc_fixed_Suc)
qed

lemma subtree_parent:
  assumes "k < 160"
  shows "subtree sha256 m (Suc k) (trunc (Suc k) a)
    = sha256 (parentInput (bit a k) (subtree sha256 m k (trunc k a)) (subtree sha256 m k (flip_bit k (trunc k a))))"
proof (cases "bit a k")
  case True
  with assms flip_right [OF True] show ?thesis by (simp add: parentInput_def flip: trunc_right)
next
  case False
  with flip_left [OF False] show ?thesis by (simp add: parentInput_def flip: trunc_left)
qed

lemma unat_depth: "d \<le> 160 \<Longrightarrow> unat (of_nat d :: byte) = d"
  by (simp add: unsigned_of_nat take_bit_nat_eq_self_iff)

lemma nk_depth_nodeKey [simp]: "d \<le> 160 \<Longrightarrow> unat (nk_depth (nodeKey d p)) = d"
  by (simp add: nodeKey_def unat_depth)

lemma nk_path_nodeKey [simp]: "nk_path (nodeKey d p) = p"
  by (simp add: nodeKey_def)

lemma nodesOf_at:
  "k \<le> 160 \<Longrightarrow> nodesOf sha256 m (nodeKey (160 - k) p)
     = (if \<exists>a \<in> dom m. trunc k a = p then Some (subtree sha256 m k p) else None)"
  by (simp add: nodesOf_def)

lemma trunc_flip: "k < 160 \<Longrightarrow> trunc k (flip_bit k (trunc k a)) = flip_bit k (trunc k a)"
  by (cases "bit a k") (simp_all add: flip_left flip_right trunc_set max_def)

lemma siblingAt_nodesOf:
  assumes "k \<le> 160" and "trunc k p = p" and "\<And>p. nodes (nodeKey (160 - k) p) = nodesOf sha256 m (nodeKey (160 - k) p)"
  shows "siblingAt sha256 nodes (160 - k) p = subtree sha256 m k p"
  using assms subtree_empty [of k p m sha256]
  by (auto simp: siblingAt_def nodesOf_at SparseMerkleTreeDepth_def)

text \<open>The nodes while an insertion has rewritten the heights up to \<open>k\<close>.\<close>

definition mixedNodes :: "hasher \<Rightarrow> (Address \<rightharpoonup> Hash) \<Rightarrow> (Address \<rightharpoonup> Hash) \<Rightarrow> nat \<Rightarrow> smtNodeKey \<rightharpoonup> Hash" where
  "mixedNodes sha256 m m' k key =
     (if 160 - k \<le> unat (nk_depth key) then nodesOf sha256 m' key else nodesOf sha256 m key)"

lemma nodesOf_update_other:
  assumes "nk_path key \<noteq> trunc (160 - unat (nk_depth key)) a"
  shows "nodesOf sha256 (m(a \<mapsto> h)) key = nodesOf sha256 m key"
proof (cases "trunc (160 - unat (nk_depth key)) (nk_path key) = nk_path key")
  case True
  from subtree_update_other [OF True assms [symmetric]] assms show ?thesis
    by (auto simp: nodesOf_def Let_def)
next
  case False
  then have "trunc (160 - unat (nk_depth key)) b \<noteq> nk_path key" for b
    by (metis max.idem trunc_trunc)
  then show ?thesis by (simp add: nodesOf_def Let_def)
qed

lemma nodesOf_update_same:
  assumes "unat (nk_depth key) \<le> 160" and "nk_path key = trunc (160 - unat (nk_depth key)) a"
  shows "nodesOf sha256 (m(a \<mapsto> h)) key = Some (subtree sha256 (m(a \<mapsto> h)) (160 - unat (nk_depth key)) (nk_path key))"
  using assms by (auto simp: nodesOf_def Let_def)

lemma nodeKey_eq_iff: "d \<le> 160 \<Longrightarrow> key = nodeKey d p \<longleftrightarrow> unat (nk_depth key) = d \<and> nk_path key = p"
  by (cases key) (auto simp: nodeKey_def unat_depth)

lemma mixedNodes_leaf:
  "(nodesOf sha256 m)(nodeKey 160 a \<mapsto> h) = mixedNodes sha256 m (m(a \<mapsto> h)) 0" (is "?l = ?r")
proof
  fix key :: smtNodeKey
  consider "key = nodeKey 160 a" | "key \<noteq> nodeKey 160 a" "unat (nk_depth key) = 160" | "unat (nk_depth key) \<noteq> 160"
    by blast
  then show "?l key = ?r key"
  proof cases
    case 2
    then have "nk_path key \<noteq> trunc (160 - unat (nk_depth key)) a" by (simp add: nodeKey_eq_iff)
    with 2 show ?thesis by (simp add: mixedNodes_def nodesOf_update_other)
  next
    case 3
    then show ?thesis by (auto simp: mixedNodes_def nodesOf_def Let_def nodeKey_eq_iff)
  qed (auto simp: mixedNodes_def nodesOf_def Let_def)
qed

lemma mixedNodes_step:
  assumes "k < 160"
  shows "(mixedNodes sha256 m (m(a \<mapsto> h)) k)
           (nodeKey (160 - Suc k) (trunc (Suc k) a) \<mapsto> subtree sha256 (m(a \<mapsto> h)) (Suc k) (trunc (Suc k) a))
         = mixedNodes sha256 m (m(a \<mapsto> h)) (Suc k)" (is "?l = ?r")
proof
  fix key :: smtNodeKey
  let ?d = "unat (nk_depth key)"
  consider "key = nodeKey (160 - Suc k) (trunc (Suc k) a)"
    | "key \<noteq> nodeKey (160 - Suc k) (trunc (Suc k) a)" "?d = 160 - Suc k" | "?d \<noteq> 160 - Suc k"
    by blast
  then show "?l key = ?r key"
  proof cases
    case 1
    with assms have "?d = 160 - Suc k" "nk_path key = trunc (Suc k) a" by (simp_all add: nodeKey_eq_iff)
    with 1 assms show ?thesis by (simp add: mixedNodes_def nodesOf_update_same)
  next
    case 2
    with assms have "nk_path key \<noteq> trunc (160 - ?d) a" by (simp add: nodeKey_eq_iff)
    from nodesOf_update_other [OF this] 2 show ?thesis by (simp add: mixedNodes_def)
  next
    case 3
    then have "key \<noteq> nodeKey (160 - Suc k) p" for p by (auto simp: nodeKey_eq_iff)
    with 3 assms show ?thesis by (auto simp: mixedNodes_def)
  qed
qed

lemma insertLoop_subtree:
  assumes "d \<le> 160"
  shows "insertLoop sha256 d (trunc (160 - d) a) (subtree sha256 (m(a \<mapsto> h)) (160 - d) (trunc (160 - d) a))
           (mixedNodes sha256 m (m(a \<mapsto> h)) (160 - d))
         = (nodesOf sha256 (m(a \<mapsto> h)), subtree sha256 (m(a \<mapsto> h)) 160 0)"
  using assms
proof (induction d)
  case 0
  show ?case by (simp add: mixedNodes_def fun_eq_iff)
next
  case (Suc d)
  define k where "k = 160 - Suc d"
  have k: "k < 160" "160 - d = Suc k" "d = 160 - Suc k" "Suc d = 160 - k" "path_bit d = k"
    using Suc.prems by (auto simp: k_def path_bit_eq)
  define m' where "m' = m(a \<mapsto> h)"
  have sib: "siblingAt sha256 (mixedNodes sha256 m m' k) (Suc d) (flip_bit k (trunc k a))
      = subtree sha256 m' k (flip_bit k (trunc k a))"
    unfolding \<open>Suc d = 160 - k\<close>
    by (rule siblingAt_nodesOf) (use k trunc_flip in \<open>simp_all add: mixedNodes_def\<close>)
  have bits: "unset_bit k (trunc k a) = trunc (Suc k) a" "bit (trunc k a) k = bit a k"
    by (simp_all add: trunc_Suc bit_trunc)
  have "insertLoop sha256 (Suc d) (trunc k a) (subtree sha256 m' k (trunc k a)) (mixedNodes sha256 m m' k)
      = insertLoop sha256 d (trunc (Suc k) a) (subtree sha256 m' (Suc k) (trunc (Suc k) a))
          ((mixedNodes sha256 m m' k)(nodeKey d (trunc (Suc k) a) \<mapsto> subtree sha256 m' (Suc k) (trunc (Suc k) a)))"
    using sib by (simp only: insertLoop.simps Let_def k(5) bits subtree_parent [OF k(1)] Suc_eq_plus1 [symmetric])
  also have "\<dots> = (nodesOf sha256 m', subtree sha256 m' 160 0)"
    using Suc mixedNodes_step [OF k(1), of sha256 m a h]
    by (simp only: k(2) k(3) [symmetric] m'_def)
  finally show ?case by (simp only: k_def m'_def)
qed

lemma insertLocked_treeOf: "insertLocked sha256 a h (treeOf sha256 m) = treeOf sha256 (m(a \<mapsto> h))"
  using insertLoop_subtree [of 160 sha256 a m h]
  by (simp add: insertLocked_def treeOf_def SparseMerkleTreeDepth_def mixedNodes_leaf)

lemma NewSparseMerkleTree_treeOf: "NewSparseMerkleTree sha256 = treeOf sha256 Map.empty"
  using subtree_empty [of 160 0 Map.empty sha256] trunc_160 [of 0]
  by (simp add: NewSparseMerkleTree_def treeOf_def nodesOf_def fun_eq_iff SparseMerkleTreeDepth_def del: trunc_160)

lemma BatchInsert_treeOf:
  "smt_BatchInsert sha256 entries (treeOf sha256 m) = treeOf sha256 (m ++ map_of (rev entries))"
  by (induction entries arbitrary: m)
    (auto simp: smt_BatchInsert_def insertLocked_treeOf map_add_def fun_eq_iff intro!: arg_cong [where f = "treeOf sha256"] split: option.split)

lemma Get_treeOf: "smt_Get a (treeOf sha256 m) = m a"
  using nodesOf_at [of 0 sha256 m a]
  by (auto simp: smt_Get_def treeOf_def SparseMerkleTreeDepth_def split: option.splits)

section \<open>Proofs\<close>

lemma verifyLoop_proveLoop:
  assumes "d \<le> 160"
  shows "verifyLoop sha256 a (160 - d) (subtree sha256 m (160 - d) (trunc (160 - d) a))
           (proveLoop sha256 (nodesOf sha256 m) d (trunc (160 - d) a)) = subtree sha256 m 160 0"
  using assms
proof (induction d)
  case 0
  show ?case by simp
next
  case (Suc d)
  define k where "k = 160 - Suc d"
  have k: "k < 160" "160 - d = Suc k" "160 - k - 1 = d" "Suc d = 160 - k" "path_bit d = k"
    using Suc.prems by (auto simp: k_def path_bit_eq)
  have sib: "siblingAt sha256 (nodesOf sha256 m) (Suc d) (flip_bit k (trunc k a)) = subtree sha256 m k (flip_bit k (trunc k a))"
    unfolding \<open>Suc d = 160 - k\<close> using k trunc_flip by (intro siblingAt_nodesOf) simp_all
  have "verifyLoop sha256 a k (subtree sha256 m k (trunc k a)) (proveLoop sha256 (nodesOf sha256 m) (Suc d) (trunc k a))
      = verifyLoop sha256 a (Suc k) (subtree sha256 m (Suc k) (trunc (Suc k) a))
          (proveLoop sha256 (nodesOf sha256 m) d (trunc (Suc k) a))"
    by (simp only: proveLoop.simps verifyLoop.simps Let_def k(3,5) SparseMerkleTreeDepth_def sib
          subtree_parent [OF k(1)] trunc_Suc [symmetric])
  with Suc show ?case by (simp only: k(2) k_def [symmetric])
qed

lemma length_proveLoop [simp]: "length (proveLoop sha256 nodes d p) = d"
  by (induction d arbitrary: p) (simp_all add: Let_def)

lemma verify_Prove: "VerifyMerkleProof sha256 a (Some (smt_Prove sha256 a (treeOf sha256 m))) (smt_Root (treeOf sha256 m))"
  using verifyLoop_proveLoop [of 160 sha256 a m] nodesOf_at [of 0 sha256 m a]
  by (auto simp: VerifyMerkleProof_def smt_Prove_def smt_Root_def treeOf_def SparseMerkleTreeDepth_def split: option.splits)

definition leafAt :: "hasher \<Rightarrow> SparseMerkleTree \<Rightarrow> Address \<Rightarrow> Hash" where
  "leafAt sha256 smt a = (case smt_Get a smt of Some h \<Rightarrow> h | None \<Rightarrow> smtZeroHashes sha256 0)"

lemma LeafHash_Prove: "mp_LeafHash (smt_Prove sha256 a t) = leafAt sha256 t a"
  by (simp add: smt_Prove_def leafAt_def smt_Get_def)

text \<open>The inputs that \<open>VerifyMerkleProof\<close> hashes on its way to the root.\<close>

fun verifyInputs :: "hasher \<Rightarrow> Address \<Rightarrow> nat \<Rightarrow> Hash \<Rightarrow> Hash list \<Rightarrow> byte list list" where
  "verifyInputs sha256 p i h [] = []"
| "verifyInputs sha256 p i h (s # ss) =
     (let x = parentInput (bit p (path_bit (SparseMerkleTreeDepth - i - 1))) h s
      in x # verifyInputs sha256 p (Suc i) (sha256 x) ss)"

definition proofInputs :: "hasher \<Rightarrow> Address \<Rightarrow> MerkleProof \<Rightarrow> byte list list" where
  "proofInputs sha256 a p = verifyInputs sha256 a 0 (mp_LeafHash p) (mp_Siblings p)"

lemma hash_bytes_inj [simp]: "hash_bytes g = hash_bytes h \<longleftrightarrow> g = h"
proof -
  have "arr_of (hash_bytes h) = h" for h :: Hash by (rule arr_of_arr_bytes) simp
  then show ?thesis by metis
qed

lemma parentInput_inj [simp]: "parentInput r h s = parentInput r h' s' \<longleftrightarrow> h = h' \<and> s = s'"
  by (auto simp: parentInput_def)

lemma length_parentInput: "length (parentInput r h s) = 64"
  by (simp add: parentInput_def)

lemma verifyLoop_collision:
  assumes "verifyLoop sha256 p i h ss = verifyLoop sha256 p i h' ss'" and "length ss = length ss'"
    and "h \<noteq> h' \<or> ss \<noteq> ss'"
  shows "\<exists>(x, y) \<in> set (zip (verifyInputs sha256 p i h ss) (verifyInputs sha256 p i h' ss')). x \<noteq> y \<and> sha256 x = sha256 y"
  using assms
proof (induction ss arbitrary: i h h' ss')
  case Nil
  then show ?case by simp
next
  case (Cons s ss)
  then obtain s' ts where [simp]: "ss' = s' # ts" by (cases ss') auto
  let ?x = "parentInput (bit p (path_bit (SparseMerkleTreeDepth - i - 1)))"
  show ?case
  proof (cases "sha256 (?x h s) = sha256 (?x h' s') \<and> ?x h s \<noteq> ?x h' s'")
    case False
    then have "sha256 (?x h s) \<noteq> sha256 (?x h' s') \<or> ss \<noteq> ts" using Cons.prems(3) by auto
    with Cons.prems Cons.IH [of "Suc i" "sha256 (?x h s)" "sha256 (?x h' s')" ts] show ?thesis
      by (auto simp: Let_def)
  qed (auto simp: Let_def)
qed

lemma proof_collision:
  assumes "VerifyMerkleProof sha256 a (Some p) (smt_Root (treeOf sha256 m))" and "p \<noteq> smt_Prove sha256 a (treeOf sha256 m)"
  shows "\<exists>(x, y) \<in> set (zip (proofInputs sha256 a p) (proofInputs sha256 a (smt_Prove sha256 a (treeOf sha256 m)))).
    x \<noteq> y \<and> sha256 x = sha256 y"
  unfolding proofInputs_def
proof (rule verifyLoop_collision)
  let ?q = "smt_Prove sha256 a (treeOf sha256 m)"
  have q: "VerifyMerkleProof sha256 a (Some ?q) (smt_Root (treeOf sha256 m))" by (rule verify_Prove)
  with assms(1) show "length (mp_Siblings p) = length (mp_Siblings ?q)"
    and "verifyLoop sha256 a 0 (mp_LeafHash p) (mp_Siblings p) = verifyLoop sha256 a 0 (mp_LeafHash ?q) (mp_Siblings ?q)"
    by (simp_all add: VerifyMerkleProof_def)
  show "mp_LeafHash p \<noteq> mp_LeafHash ?q \<or> mp_Siblings p \<noteq> mp_Siblings ?q" using assms(2) by (cases p; cases ?q) auto
qed

lemma verifyLoop_const: "ss \<noteq> [] \<Longrightarrow> verifyLoop (\<lambda>_. c) p i h ss = c"
proof (induction ss arbitrary: i h)
  case (Cons s ss)
  then show ?case by (cases ss) (simp_all add: Let_def)
qed simp

section \<open>The interface of an authenticated map\<close>

text \<open>What a client needs: a root commits to a map from keys to leaves, and every key has a proof
  of its leaf that verifies against the root.\<close>

locale authenticated_map =
  fixes valid :: "'t \<Rightarrow> bool" and new :: 't and put :: "'k \<Rightarrow> 'h \<Rightarrow> 't \<Rightarrow> 't"
    and leaf :: "'t \<Rightarrow> 'k \<Rightarrow> 'h" and root :: "'t \<Rightarrow> 'r" and proofOf :: "'k \<Rightarrow> 't \<Rightarrow> 'p"
    and claimed :: "'p \<Rightarrow> 'h" and accepts :: "'k \<Rightarrow> 'p \<Rightarrow> 'r \<Rightarrow> bool"
  assumes valid_new: "valid new"
    and valid_put: "valid t \<Longrightarrow> valid (put k h t)"
    and leaf_put: "valid t \<Longrightarrow> leaf (put k h t) = (leaf t)(k := h)"
    and claimed_proof: "valid t \<Longrightarrow> claimed (proofOf k t) = leaf t k"
    and accepts_proof: "valid t \<Longrightarrow> accepts k (proofOf k t) (root t)"
begin

abbreviation "putAll kvs t \<equiv> foldl (\<lambda>t (k, h). put k h t) t kvs"

lemma valid_putAll: "valid t \<Longrightarrow> valid (putAll kvs t)"
  by (induction kvs arbitrary: t) (auto simp: valid_put)

lemma leaf_putAll_other: "valid t \<Longrightarrow> k \<notin> fst ` set kvs \<Longrightarrow> leaf (putAll kvs t) k = leaf t k"
  by (induction kvs arbitrary: t) (auto simp: valid_put leaf_put)

lemma leaf_putAll:
  assumes "valid t" and "distinct (map fst kvs)" and "(k, h) \<in> set kvs"
  shows "leaf (putAll kvs t) k = h"
  using assms
proof (induction kvs arbitrary: t)
  case (Cons kv kvs)
  then show ?case
    by (cases kv) (auto simp: valid_put leaf_put leaf_putAll_other image_iff dest: leaf_putAll_other)
qed simp

lemma committed:
  assumes "distinct (map fst kvs)" and "(k, h) \<in> set kvs"
  shows "claimed (proofOf k (putAll kvs new)) = h" and "accepts k (proofOf k (putAll kvs new)) (root (putAll kvs new))"
  using assms valid_new by (simp_all add: claimed_proof accepts_proof valid_putAll leaf_putAll)

end

definition isTree :: "hasher \<Rightarrow> SparseMerkleTree \<Rightarrow> bool" where
  "isTree sha256 t \<longleftrightarrow> (\<exists>m. t = treeOf sha256 m)"

interpretation merkle: authenticated_map "isTree sha256" "NewSparseMerkleTree sha256" "smt_Insert sha256"
  "leafAt sha256" smt_Root "smt_Prove sha256" mp_LeafHash "\<lambda>a p r. VerifyMerkleProof sha256 a (Some p) r" for sha256
  by unfold_locales
    (auto simp: isTree_def NewSparseMerkleTree_treeOf smt_Insert_def insertLocked_treeOf leafAt_def Get_treeOf fun_eq_iff
       LeafHash_Prove verify_Prove)

section \<open>Leaves\<close>

lemma compareBytes_eq:
  "length as = length bs \<Longrightarrow> compareBytes as bs
     = (if big_SetBytes as < big_SetBytes bs then -1 else if big_SetBytes as > big_SetBytes bs then 1 else 0)"
proof (induction as bs rule: compareBytes.induct)
  case (1 a as b bs)
  have scale: "uint x * 256 ^ length bs + (256 ^ length bs :: int) \<le> uint y * 256 ^ length bs" if "x < y" for x y :: byte
  proof -
    have "(uint x + 1) * 256 ^ length bs \<le> uint y * 256 ^ length bs"
      using that by (intro mult_right_mono) (simp_all add: word_less_def)
    then show ?thesis by (simp add: algebra_simps)
  qed
  have len: "length as = length bs" using "1.prems" by simp
  have low: "0 \<le> big_SetBytes as" "big_SetBytes as < 256 ^ length bs" "0 \<le> big_SetBytes bs" "big_SetBytes bs < 256 ^ length bs"
    using "1.prems" big_SetBytes_less [of as] big_SetBytes_less [of bs] by simp_all
  show ?case
  proof (cases a b rule: linorder_cases)
    case less
    have "big_SetBytes (a # as) < big_SetBytes (b # bs)"
      using scale [OF less] low len unfolding big_SetBytes_Cons len by linarith
    with less show ?thesis by simp
  next
    case equal
    with 1 show ?thesis by (simp add: big_SetBytes_Cons)
  next
    case greater
    have "big_SetBytes (b # bs) < big_SetBytes (a # as)"
      using scale [OF greater] low len unfolding big_SetBytes_Cons len by linarith
    with greater show ?thesis by simp
  qed
qed auto

lemma compareHash_less: "compareHash a b < 0 \<longleftrightarrow> a < b"
proof -
  have "big_SetBytes (hash_bytes h) = uint h" for h :: Hash
    using uint_lt2p [of h] by (simp add: big_SetBytes_arr_bytes)
  then show ?thesis by (simp add: compareHash_def compareBytes_eq word_less_def)
qed

lemma insertKey_insort: "k \<notin> set ks \<Longrightarrow> insertKey k ks = insort k ks"
  by (induction ks) (auto simp: compareHash_less)

lemma sortKeys_sort: "distinct ks \<Longrightarrow> sortKeys ks = sort ks"
proof (induction ks)
  case (Cons k ks)
  then show ?case by (simp add: sortKeys_def insertKey_insort)
qed (simp add: sortKeys_def)

lemma storageKeys_dom: "storageKeys storage = sorted_list_of_set (dom (map_of storage))"
  using sorted_list_of_set_sort_remdups [of "map fst storage"]
  by (simp add: storageKeys_def sortKeys_sort dom_map_of_conv_image_fst)

text \<open>The storage root is a function of the storage map: the order in which the keys are collected
  is irrelevant.\<close>

lemma computeStorageRoot_map:
  assumes "map_of storage = map_of storage'"
  shows "computeStorageRoot sha256 storage = computeStorageRoot sha256 storage'"
proof -
  have "storage = [] \<longleftrightarrow> dom (map_of storage) = {}" for storage :: "(Hash \<times> Hash) list"
    by (auto simp: dom_map_of_conv_image_fst)
  with assms have "storage = [] \<longleftrightarrow> storage' = []" by metis
  with assms show ?thesis by (simp add: computeStorageRoot_def storageBytes_def storageKeys_dom)
qed

lemma big_Bytes_inj: "big_Bytes a = big_Bytes b \<Longrightarrow> \<bar>a\<bar> = \<bar>b\<bar>"
  by (metis big_SetBytes_big_Bytes)

lemma addr_bytes_inj [simp]: "arr_bytes 20 (a :: Address) = arr_bytes 20 b \<longleftrightarrow> a = b"
proof -
  have "arr_of (arr_bytes 20 a) = a" for a :: Address by (rule arr_of_arr_bytes) simp
  then show ?thesis by metis
qed

lemma u64_bytes_inj [simp]: "arr_bytes 8 (a :: u64) = arr_bytes 8 b \<longleftrightarrow> a = b"
proof -
  have "arr_of (arr_bytes 8 a) = a" for a :: u64 by (rule arr_of_arr_bytes) simp
  then show ?thesis by metis
qed

lemma u32_bytes_inj [simp]: "arr_bytes 4 (a :: 32 word) = arr_bytes 4 b \<longleftrightarrow> a = b"
proof -
  have "arr_of (arr_bytes 4 a) = a" for a :: "32 word" by (rule arr_of_arr_bytes) simp
  then show ?thesis by metis
qed

text \<open>The bytes of a leaf determine the account; the length prefix of the balance is not needed for
  that, as everything after the balance has a fixed length.\<close>

lemma accountLeafBytes_inj:
  assumes "accountLeafBytes a acc r = accountLeafBytes a' acc' r'"
  shows "a = a'" "ra_Nonce acc = ra_Nonce acc'" "\<bar>ra_Balance acc\<bar> = \<bar>ra_Balance acc'\<bar>"
    "ra_CodeHash acc = ra_CodeHash acc'" "r = r'"
  using assms big_Bytes_inj [of "ra_Balance acc" "ra_Balance acc'"]
  by (auto simp: accountLeafBytes_def Let_def simp flip: append_assoc)

lemma padded_amount:
  assumes "length bs \<le> 32"
  shows "big_SetBytes (go_copy (replicate 32 0) (32 - length bs) bs) = big_SetBytes bs"
    and "length (go_copy (replicate 32 0) (32 - length bs) bs) = 32"
  using assms by (simp_all add: go_copy_def Let_def big_SetBytes_append)

text \<open>The bytes of a withdrawal leaf determine the withdrawer, the amount and the low 32 bits of
  the transaction index.\<close>

lemma withdrawalLeafBytes_inj:
  assumes "withdrawalLeafBytes w (Some a) i = Inr bs" and "withdrawalLeafBytes w' (Some a') i' = Inr bs"
  shows "w = w'" "\<bar>a\<bar> = \<bar>a'\<bar>" "(word_of_int i :: 32 word) = word_of_int i'"
proof -
  let ?pad = "\<lambda>a. go_copy (replicate 32 0) (32 - length (big_Bytes a)) (big_Bytes a)"
  from assms have len: "length (big_Bytes a) \<le> 32" "length (big_Bytes a') \<le> 32"
    and eq: "arr_bytes 20 w @ ?pad a @ arr_bytes 4 (word_of_int i :: 32 word)
      = arr_bytes 20 w' @ ?pad a' @ arr_bytes 4 (word_of_int i' :: 32 word)"
    by (auto simp: withdrawalLeafBytes_def Let_def split: if_splits)
  from eq show "w = w'" by simp
  from eq len have pads: "?pad a = ?pad a'" by (simp add: padded_amount(2))
  then have "big_SetBytes (?pad a) = big_SetBytes (?pad a')" by (rule arg_cong)
  with len show "\<bar>a\<bar> = \<bar>a'\<bar>" by (simp add: padded_amount(1))
  from eq pads show "(word_of_int i :: 32 word) = word_of_int i'" by simp
qed

lemma withdrawalLeafBytes_ok: "\<bar>a\<bar> < 2 ^ 256 \<Longrightarrow> \<exists>bs. withdrawalLeafBytes w (Some a) i = Inr bs"
  by (simp add: withdrawalLeafBytes_def Let_def big_Bytes_def length_nat_bytes_le not_less nat_less_iff)

section \<open>Properties\<close>

text \<open>C20: The tree is a function of its leaves: however the leaves were inserted, updated or
  reordered, sequences of insertions with the same final leaves give the same tree, \<open>Get\<close> returns
  the leaf inserted last under an address, and the root is the Merkle root of the full tree of
  height 160 over the leaves, computed by plain recursion.\<close>

theorem merkle_tree_of_leaves:
  assumes "map_of (rev entries) = map_of (rev entries')"
  shows "smt_BatchInsert sha256 entries (NewSparseMerkleTree sha256) = smt_BatchInsert sha256 entries' (NewSparseMerkleTree sha256)
    \<and> smt_Get a (smt_BatchInsert sha256 entries (NewSparseMerkleTree sha256)) = map_of (rev entries) a
    \<and> smt_Root (smt_BatchInsert sha256 entries (NewSparseMerkleTree sha256)) = subtree sha256 (map_of (rev entries)) 160 0"
  using assms by (simp add: NewSparseMerkleTree_treeOf BatchInsert_treeOf Get_treeOf) (simp add: smt_Root_def treeOf_def)

theorem merkle_tree_of_leaves_witness:
  "smt_BatchInsert (\<lambda>bs. of_nat (length bs)) [(1, 7), (2, 8), (1, 9)] (NewSparseMerkleTree (\<lambda>bs. of_nat (length bs)))
     = smt_BatchInsert (\<lambda>bs. of_nat (length bs)) [(1, 9), (2, 8)] (NewSparseMerkleTree (\<lambda>bs. of_nat (length bs)))
   \<and> smt_Get 1 (smt_BatchInsert (\<lambda>bs. of_nat (length bs)) [(1, 7), (2, 8), (1, 9)] (NewSparseMerkleTree (\<lambda>bs. of_nat (length bs)))) = Some 9"
proof -
  have "map_of (rev [(1 :: Address, 7 :: Hash), (2, 8), (1, 9)]) = map_of (rev [(1, 9), (2, 8)])"
    by (simp add: fun_eq_iff)
  from merkle_tree_of_leaves [OF this, of "\<lambda>bs. of_nat (length bs)" 1] show ?thesis by (elim conjE) simp
qed

text \<open>C21: Proofs are complete: for every address, present or not, the proof of a tree verifies
  against the root of the tree and claims the leaf of the address, the zero leaf where there is none.\<close>

theorem merkle_proof_complete:
  "VerifyMerkleProof sha256 a (Some (smt_Prove sha256 a (smt_BatchInsert sha256 entries (NewSparseMerkleTree sha256))))
     (smt_Root (smt_BatchInsert sha256 entries (NewSparseMerkleTree sha256)))
   \<and> mp_LeafHash (smt_Prove sha256 a (smt_BatchInsert sha256 entries (NewSparseMerkleTree sha256)))
     = (case map_of (rev entries) a of Some h \<Rightarrow> h | None \<Rightarrow> smtZeroHashes sha256 0)"
  by (simp add: NewSparseMerkleTree_treeOf BatchInsert_treeOf verify_Prove LeafHash_Prove leafAt_def Get_treeOf)

text \<open>C22: Proofs are sound: whoever has a proof that verifies for an address against the root of a
  tree and is not the proof of that tree (it claims another leaf or has another sibling) has a
  collision of SHA-256, at a level where the verification of the two proofs hashes different
  inputs to the same value.\<close>

theorem merkle_proof_sound:
  assumes "t = smt_BatchInsert sha256 entries (NewSparseMerkleTree sha256)"
    and "VerifyMerkleProof sha256 a (Some p) (smt_Root t)" and "p \<noteq> smt_Prove sha256 a t"
  shows "\<exists>(x, y) \<in> set (zip (proofInputs sha256 a p) (proofInputs sha256 a (smt_Prove sha256 a t))).
    x \<noteq> y \<and> sha256 x = sha256 y"
  using assms(2,3) proof_collision by (simp add: assms(1) NewSparseMerkleTree_treeOf BatchInsert_treeOf)

theorem merkle_proof_sound_witness:
  "\<exists>(x, y) \<in> set (zip (proofInputs (\<lambda>_. 0) 5 \<lparr>mp_LeafHash = 1, mp_Siblings = replicate 160 0\<rparr>)
      (proofInputs (\<lambda>_. 0) 5 (smt_Prove (\<lambda>_. 0) 5 (smt_BatchInsert (\<lambda>_. 0) [(5, 2)] (NewSparseMerkleTree (\<lambda>_. 0)))))).
    x \<noteq> y \<and> (\<lambda>_ :: byte list. 0 :: Hash) x = 0"
proof -
  let ?s = "\<lambda>_ :: byte list. 0 :: Hash" and ?e = "[(5 :: Address, 2 :: Hash)]"
  let ?p = "\<lparr>mp_LeafHash = 1, mp_Siblings = replicate 160 0\<rparr>"
  have "smt_Root (smt_BatchInsert ?s ?e (NewSparseMerkleTree ?s)) = 0"
    using subtree.simps(2) [of ?s _ 159] unfolding NewSparseMerkleTree_treeOf BatchInsert_treeOf
    by (simp add: smt_Root_def treeOf_def)
  then have v: "VerifyMerkleProof ?s 5 (Some ?p) (smt_Root (smt_BatchInsert ?s ?e (NewSparseMerkleTree ?s)))"
    by (simp add: VerifyMerkleProof_def SparseMerkleTreeDepth_def verifyLoop_const)
  have "mp_LeafHash (smt_Prove ?s 5 (smt_BatchInsert ?s ?e (NewSparseMerkleTree ?s))) = 2"
    by (simp add: NewSparseMerkleTree_treeOf BatchInsert_treeOf LeafHash_Prove leafAt_def Get_treeOf)
  then have "?p \<noteq> smt_Prove ?s 5 (smt_BatchInsert ?s ?e (NewSparseMerkleTree ?s))"
    by (auto dest: arg_cong [of _ _ mp_LeafHash])
  from merkle_proof_sound [OF refl v this] show ?thesis by simp
qed

end
