(* ===== verification/Rollup_Manager.thy ===== *)
theory Rollup_Manager
  imports Rollup_Merkle QVM_Gas
begin

text \<open>
  \<open>src/rollup/state_manager.go\<close>: the state of the rollup, the execution of batches against it and
  their simulation for fraud proofs. The accounts are the partial function of \<open>Rollup_State\<close>; no
  pointer to an account is used after another name for it has changed, so the update of an
  account is the update of the map. A \<open>range\<close> over the accounts visits them in the order
  \<open>visit states\<close>, a parameter. The executor of contract calls is the interface \<open>QVMExecutor\<close>,
  a function that returns the gas used and the changed state. SHA-256 is a parameter; the retention
  bound, computed with floating point from the configuration, is an argument of
  \<open>NewStateManager\<close>. The persistence layer and the locks are left out.
\<close>

section \<open>State\<close>

type_synonym accounts = "Address \<Rightarrow> RollupAccount option"

text \<open>A transaction object; \<open>tx_ref\<close> is its address, which the comparison of two pointers compares.\<close>

record RollupTransaction =
  tx_ref :: nat
  tx_Nonce :: u64
  tx_GasPrice :: u64
  tx_GasLimit :: u64
  tx_To :: "Address option"
  tx_Value :: "int option"
  tx_Data :: "byte list"
  tx_From :: Address
  tx_Hash :: Hash
  tx_Signature :: "byte list"
  tx_ChainID :: u64
  tx_PublicKey :: "byte list"

text \<open>The fields of the configuration that the modelled code reads, the challenge period in whole
  seconds.\<close>

record RollupConfig =
  rc_ChainID :: u64
  rc_GasLimit :: u64
  rc_BridgeAddress :: Address
  rc_MaxTxPerBatch :: int
  rc_MinTxPerBatch :: int
  rc_ChallengeSeconds :: int

text \<open>The fields of the block context that the rollup sets; the others are zero.\<close>

record BlockContext =
  bc_BlockNumber :: u64
  bc_Timestamp :: int
  bc_GasLimit :: u64
  bc_GasPrice :: int
  bc_ChainID :: u64

type_synonym QVMExecutor =
  "rollupStateDB \<Rightarrow> Address \<Rightarrow> Address \<Rightarrow> byte list \<Rightarrow> u64 \<Rightarrow> int \<Rightarrow> BlockContext \<Rightarrow> int \<Rightarrow> u64 \<times> rollupStateDB"

record StateManager =
  sm_config :: "RollupConfig option"
  sm_maxHistoryEntries :: int
  sm_stateRoots :: "u64 \<rightharpoonup> Hash"
  sm_accountStates :: accounts
  sm_stateHistory :: "(Hash \<times> accounts) list"
  sm_stateHistoryOrder :: "Hash list"
  sm_executor :: "QVMExecutor option"
  sm_smt :: "SparseMerkleTree option"

definition minStateHistoryEntries :: int where
  "minStateHistoryEntries = 1000"

definition NewStateManager :: "hasher \<Rightarrow> RollupConfig option \<Rightarrow> int \<Rightarrow> StateManager" where
  "NewStateManager sha256 config maxHistory =
     \<lparr>sm_config = config, sm_maxHistoryEntries = maxHistory, sm_stateRoots = Map.empty,
      sm_accountStates = Map.empty, sm_stateHistory = [], sm_stateHistoryOrder = [],
      sm_executor = None, sm_smt = Some (NewSparseMerkleTree sha256)\<rparr>"

definition SetExecutor :: "QVMExecutor option \<Rightarrow> StateManager \<Rightarrow> StateManager" where
  "SetExecutor executor sm = sm\<lparr>sm_executor := executor\<rparr>"

section \<open>Accounts\<close>

definition getOrCreateAccount :: "Address \<Rightarrow> (StateManager, RollupAccount) op" where
  "getOrCreateAccount addr sm =
     (case sm_accountStates sm addr of
        Some acc \<Rightarrow> (Inr acc, sm)
      | None \<Rightarrow> (Inr emptyAccount, sm\<lparr>sm_accountStates := (sm_accountStates sm)(addr \<mapsto> emptyAccount)\<rparr>))"

definition getOrCreateAccountLocked :: "Address \<Rightarrow> (StateManager, RollupAccount) op" where
  "getOrCreateAccountLocked = getOrCreateAccount"

text \<open>A write through the pointer that \<open>getOrCreateAccount\<close> returned.\<close>

definition writeAccount :: "Address \<Rightarrow> RollupAccount \<Rightarrow> (StateManager, unit) op" where
  "writeAccount addr acc = modify (\<lambda>sm. sm\<lparr>sm_accountStates := (sm_accountStates sm)(addr \<mapsto> acc)\<rparr>)"

definition GetAccount :: "Address \<Rightarrow> StateManager \<Rightarrow> RollupAccount option" where
  "GetAccount addr sm = sm_accountStates sm addr"

definition MintBalance :: "Address \<Rightarrow> int option \<Rightarrow> (StateManager, unit) op" where
  "MintBalance addr amount =
     (case amount of
        None \<Rightarrow> fail (Errorf ''mint amount must be positive'')
      | Some a \<Rightarrow>
          if a \<le> 0 then fail (Errorf ''mint amount must be positive'')
          else bind (getOrCreateAccountLocked addr) (\<lambda>acc.
               writeAccount addr (acc\<lparr>ra_Balance := ra_Balance acc + a\<rparr>)))"

definition BurnBalance :: "Address \<Rightarrow> int option \<Rightarrow> (StateManager, unit) op" where
  "BurnBalance addr amount =
     (case amount of
        None \<Rightarrow> fail (Errorf ''burn amount must be positive'')
      | Some a \<Rightarrow>
          if a \<le> 0 then fail (Errorf ''burn amount must be positive'')
          else bind (getOrCreateAccountLocked addr) (\<lambda>acc.
               if ra_Balance acc < a then fail (Errorf ''insufficient balance'')
               else writeAccount addr (acc\<lparr>ra_Balance := ra_Balance acc - a\<rparr>)))"

section \<open>State roots\<close>

definition accountEntries :: "hasher \<Rightarrow> (accounts \<Rightarrow> Address list) \<Rightarrow> accounts \<Rightarrow> (Address \<times> Hash) list" where
  "accountEntries sha256 visit states = map (\<lambda>a. (a, ComputeAccountLeafHash sha256 a (states a))) (visit states)"

definition computeStateRoot :: "hasher \<Rightarrow> (accounts \<Rightarrow> Address list) \<Rightarrow> (StateManager, Hash) op" where
  "computeStateRoot sha256 visit sm =
     (let smt = smt_BatchInsert sha256 (accountEntries sha256 visit (sm_accountStates sm)) (NewSparseMerkleTree sha256)
      in (Inr (smt_Root smt), sm\<lparr>sm_smt := Some smt\<rparr>))"

definition RestoreFromSnapshot ::
  "hasher \<Rightarrow> (accounts \<Rightarrow> Address list) \<Rightarrow> accounts \<Rightarrow> (u64 \<rightharpoonup> Hash) \<Rightarrow> (StateManager, unit) op" where
  "RestoreFromSnapshot sha256 visit states stateRoots =
     bind (modify (\<lambda>sm. sm\<lparr>sm_accountStates := states, sm_stateRoots := stateRoots\<rparr>)) (\<lambda>_.
     bind (computeStateRoot sha256 visit) (\<lambda>_. ret ()))"

definition ProveAccount :: "hasher \<Rightarrow> Address \<Rightarrow> StateManager \<Rightarrow> MerkleProof res" where
  "ProveAccount sha256 addr sm =
     (case sm_smt sm of
        None \<Rightarrow> Inl (Errorf ''SMT not initialized (computeStateRoot not yet called)'')
      | Some smt \<Rightarrow> Inr (smt_Prove sha256 addr smt))"

definition ProveAccountWithStateAtState ::
  "hasher \<Rightarrow> (accounts \<Rightarrow> Address list) \<Rightarrow> Address \<Rightarrow> Hash \<Rightarrow> StateManager \<Rightarrow> (MerkleProof \<times> RollupAccount) res" where
  "ProveAccountWithStateAtState sha256 visit addr stateRoot sm =
     (case map_of (sm_stateHistory sm) stateRoot of
        None \<Rightarrow> Inl (Errorf ''state root not found in history'')
      | Some historicalStates \<Rightarrow>
          (case historicalStates addr of
             None \<Rightarrow> Inl (Errorf ''account not found at state root'')
           | Some acc \<Rightarrow>
               let smt = smt_BatchInsert sha256 (accountEntries sha256 visit historicalStates) (NewSparseMerkleTree sha256)
               in if smt_Root smt \<noteq> stateRoot then Inl (Errorf ''internal error: rebuilt SMT root does not match'')
                  else Inr (smt_Prove sha256 addr smt, acc)))"

definition ProveAccountAtState ::
  "hasher \<Rightarrow> (accounts \<Rightarrow> Address list) \<Rightarrow> Address \<Rightarrow> Hash \<Rightarrow> StateManager \<Rightarrow> MerkleProof res" where
  "ProveAccountAtState sha256 visit addr stateRoot sm =
     (case ProveAccountWithStateAtState sha256 visit addr stateRoot sm of
        Inl e \<Rightarrow> Inl e
      | Inr (proof, _) \<Rightarrow> Inr proof)"

definition GetCurrentRoot :: "hasher \<Rightarrow> StateManager \<Rightarrow> Hash" where
  "GetCurrentRoot sha256 sm =
     (case sm_smt sm of
        None \<Rightarrow> smtZeroHashes sha256 SparseMerkleTreeDepth
      | Some smt \<Rightarrow> smt_Root smt)"

definition GetStateRoot :: "u64 \<Rightarrow> StateManager \<Rightarrow> Hash option" where
  "GetStateRoot batchIndex sm = sm_stateRoots sm batchIndex"

section \<open>Transactions\<close>

definition isWithdrawalBurn :: "RollupConfig option \<Rightarrow> RollupTransaction \<Rightarrow> bool" where
  "isWithdrawalBurn config tx =
     (case config of
        None \<Rightarrow> False
      | Some c \<Rightarrow> rc_BridgeAddress c \<noteq> 0 \<and> tx_To tx = Some (rc_BridgeAddress c))"

definition addBatchGas :: "RollupConfig option \<Rightarrow> u64 \<Rightarrow> u64 \<Rightarrow> u64 res" where
  "addBatchGas config totalGasUsed gas =
     (case SafeAddGas totalGasUsed gas of
        Inl _ \<Rightarrow> Inl ErrInvalidStateTransition
      | Inr newTotal \<Rightarrow>
          (case config of
             None \<Rightarrow> Inr newTotal
           | Some c \<Rightarrow> if newTotal > rc_GasLimit c then Inl ErrInvalidStateTransition else Inr newTotal))"

definition txGasCost :: "RollupTransaction \<Rightarrow> int" where
  "txGasCost tx = uint (tx_GasLimit tx) * uint (tx_GasPrice tx)"

definition txAmount :: "RollupTransaction \<Rightarrow> int" where
  "txAmount tx = (case tx_Value tx of None \<Rightarrow> 0 | Some v \<Rightarrow> v)"

definition executeContractCall :: "QVMExecutor \<Rightarrow> RollupTransaction \<Rightarrow> Address \<Rightarrow> int \<Rightarrow> (StateManager, u64) op" where
  "executeContractCall call tx to txValue = bind (gets sm_config) (\<lambda>config.
     case config of
       None \<Rightarrow> fail (Panic ''nil pointer dereference'')
     | Some c \<Rightarrow>
         bind (gets sm_accountStates) (\<lambda>states.
         let blockCtx = \<lparr>bc_BlockNumber = 0, bc_Timestamp = 0, bc_GasLimit = rc_GasLimit c,
                         bc_GasPrice = uint (tx_GasPrice tx), bc_ChainID = rc_ChainID c\<rparr>;
             (resultGasUsed, stateDB) = call (newRollupStateDB states) (tx_From tx) to (tx_Data tx) (tx_GasLimit tx) txValue blockCtx 0
         in bind (modify (\<lambda>sm. sm\<lparr>sm_accountStates := rs_states stateDB\<rparr>)) (\<lambda>_.
            bind (getOrCreateAccount (tx_From tx)) (\<lambda>fromAcc.
            let gasUsed = (if resultGasUsed > tx_GasLimit tx then tx_GasLimit tx else resultGasUsed)
            in bind (if gasUsed < tx_GasLimit tx
                     then writeAccount (tx_From tx)
                            (fromAcc\<lparr>ra_Balance := ra_Balance fromAcc + uint (tx_GasLimit tx - gasUsed) * uint (tx_GasPrice tx)\<rparr>)
                     else ret ()) (\<lambda>_. ret gasUsed)))))"

text \<open>The three ways in which \<open>processBatchLocked\<close> executes a transaction.\<close>

definition burnTx :: "RollupTransaction \<Rightarrow> RollupAccount \<Rightarrow> u64 \<Rightarrow> (StateManager, u64) op" where
  "burnTx tx fromAcc totalGasUsed =
     (let totalCost = txAmount tx + txGasCost tx
      in if ra_Balance fromAcc < totalCost then fail ErrInvalidStateTransition
         else bind (writeAccount (tx_From tx)
                      (fromAcc\<lparr>ra_Balance := ra_Balance fromAcc - totalCost, ra_Nonce := ra_Nonce fromAcc + 1\<rparr>)) (\<lambda>_.
              bind (gets sm_config) (\<lambda>config. lift_res (addBatchGas config totalGasUsed (tx_GasLimit tx)))))"

definition contractTx :: "QVMExecutor \<Rightarrow> RollupTransaction \<Rightarrow> Address \<Rightarrow> RollupAccount \<Rightarrow> u64 \<Rightarrow> (StateManager, u64) op" where
  "contractTx call tx to fromAcc totalGasUsed =
     (if ra_Balance fromAcc < txAmount tx + txGasCost tx then fail ErrInvalidStateTransition
      else bind (writeAccount (tx_From tx)
                   (fromAcc\<lparr>ra_Balance := ra_Balance fromAcc - txGasCost tx, ra_Nonce := ra_Nonce fromAcc + 1\<rparr>)) (\<lambda>_.
           bind (executeContractCall call tx to (txAmount tx)) (\<lambda>gasUsed.
           bind (gets sm_config) (\<lambda>config. lift_res (addBatchGas config totalGasUsed gasUsed)))))"

definition transferTx :: "RollupTransaction \<Rightarrow> RollupAccount \<Rightarrow> u64 \<Rightarrow> (StateManager, u64) op" where
  "transferTx tx fromAcc totalGasUsed =
     (let totalCost = txAmount tx + txGasCost tx
      in if ra_Balance fromAcc < totalCost then fail ErrInvalidStateTransition
         else bind (writeAccount (tx_From tx)
                      (fromAcc\<lparr>ra_Balance := ra_Balance fromAcc - totalCost, ra_Nonce := ra_Nonce fromAcc + 1\<rparr>)) (\<lambda>_.
              bind (gets sm_config) (\<lambda>config.
              bind (lift_res (addBatchGas config totalGasUsed (tx_GasLimit tx))) (\<lambda>newTotal.
              case tx_To tx of
                None \<Rightarrow> ret newTotal
              | Some to \<Rightarrow> bind (getOrCreateAccount to) (\<lambda>toAcc.
                  bind (writeAccount to (toAcc\<lparr>ra_Balance := ra_Balance toAcc + txAmount tx\<rparr>)) (\<lambda>_. ret newTotal))))))"

definition isContractCall :: "RollupTransaction \<Rightarrow> (StateManager, bool) op" where
  "isContractCall tx =
     (case tx_To tx of
        None \<Rightarrow> ret False
      | Some to \<Rightarrow> bind (getOrCreateAccount to) (\<lambda>toAcc. ret (ra_CodeHash toAcc \<noteq> 0)))"

definition processTx :: "RollupTransaction \<Rightarrow> u64 \<Rightarrow> (StateManager, u64) op" where
  "processTx tx totalGasUsed = bind (getOrCreateAccount (tx_From tx)) (\<lambda>fromAcc.
     if ra_Nonce fromAcc \<noteq> tx_Nonce tx then fail ErrInvalidStateTransition
     else bind (gets sm_config) (\<lambda>config.
     if isWithdrawalBurn config tx then burnTx tx fromAcc totalGasUsed
     else bind (isContractCall tx) (\<lambda>contract.
     bind (gets sm_executor) (\<lambda>executor.
     case (contract, executor, tx_To tx) of
       (True, Some call, Some to) \<Rightarrow> contractTx call tx to fromAcc totalGasUsed
     | _ \<Rightarrow> transferTx tx fromAcc totalGasUsed))))"

fun processTxs :: "RollupTransaction list \<Rightarrow> u64 \<Rightarrow> (StateManager, u64) op" where
  "processTxs [] totalGasUsed = ret totalGasUsed"
| "processTxs (tx # txs) totalGasUsed = bind (processTx tx totalGasUsed) (processTxs txs)"

definition processBatchLocked ::
  "hasher \<Rightarrow> (accounts \<Rightarrow> Address list) \<Rightarrow> RollupTransaction list \<Rightarrow> (StateManager, Hash \<times> u64) op" where
  "processBatchLocked sha256 visit txs =
     bind (processTxs txs 0) (\<lambda>totalGasUsed.
     bind (computeStateRoot sha256 visit) (\<lambda>newRoot. ret (newRoot, totalGasUsed)))"

section \<open>Batches\<close>

fun evictLoop :: "int \<Rightarrow> Hash list \<Rightarrow> (Hash \<times> accounts) list \<Rightarrow> (Hash list \<times> (Hash \<times> accounts) list) res" where
  "evictLoop limit order history =
     (if int (length history) > limit
      then (case order of
              [] \<Rightarrow> Inl (Panic ''index out of range'')
            | oldest # rest \<Rightarrow> evictLoop limit rest (AList.delete oldest history))
      else Inr (order, history))"

declare evictLoop.simps [simp del]

definition archiveStateSnapshot :: "Hash \<Rightarrow> accounts \<Rightarrow> (StateManager, unit) op" where
  "archiveStateSnapshot stateRoot states = bind (gets sm_stateHistory) (\<lambda>history.
     if map_of history stateRoot \<noteq> None then ret ()
     else bind (gets sm_stateHistoryOrder) (\<lambda>order.
     bind (gets sm_maxHistoryEntries) (\<lambda>maxHistory.
     let history = AList.update stateRoot (deepCopyAccounts states) history;
         order = order @ [stateRoot];
         limit = (if maxHistory \<le> 0 then minStateHistoryEntries else maxHistory)
     in bind (lift_res (evictLoop limit order history)) (\<lambda>(order, history).
        modify (\<lambda>sm. sm\<lparr>sm_stateHistory := history, sm_stateHistoryOrder := order\<rparr>)))))"

fun is_panic :: "qerr \<Rightarrow> bool" where
  "is_panic (Panic _) = True"
| "is_panic _ = False"

text \<open>The test of the declared root against the current one, skipped while there are no accounts.\<close>

definition checkPrevRoot :: "hasher \<Rightarrow> (accounts \<Rightarrow> Address list) \<Rightarrow> Hash \<Rightarrow> (StateManager, unit) op" where
  "checkPrevRoot sha256 visit prevStateRoot = bind (gets sm_accountStates) (\<lambda>states.
     if length (visit states) > 0
     then bind (computeStateRoot sha256 visit) (\<lambda>currentRoot. guard (prevStateRoot = currentRoot) ErrInvalidStateTransition)
     else ret ())"

definition ProcessBatch ::
  "hasher \<Rightarrow> (accounts \<Rightarrow> Address list) \<Rightarrow> u64 \<Rightarrow> Hash \<Rightarrow> RollupTransaction list \<Rightarrow> (StateManager, Hash \<times> u64) op" where
  "ProcessBatch sha256 visit batchIndex prevStateRoot txs =
     bind (checkPrevRoot sha256 visit prevStateRoot) (\<lambda>_.
     bind (gets sm_accountStates) (\<lambda>states.
     bind (gets sm_stateHistory) (\<lambda>history.
     bind (if map_of history prevStateRoot = None then archiveStateSnapshot prevStateRoot states else ret ()) (\<lambda>_.
     let preStateSnapshot = deepCopyAccounts states
     in catch (processBatchLocked sha256 visit txs)
          (\<lambda>err. if is_panic err then fail err
                 else bind (modify (\<lambda>sm. sm\<lparr>sm_accountStates := preStateSnapshot\<rparr>)) (\<lambda>_. fail err))
          (\<lambda>(newRoot, gasUsed).
             bind (modify (\<lambda>sm. sm\<lparr>sm_stateRoots := (sm_stateRoots sm)(batchIndex \<mapsto> newRoot)\<rparr>)) (\<lambda>_.
             bind (gets sm_accountStates) (\<lambda>states.
             bind (archiveStateSnapshot newRoot states) (\<lambda>_. ret (newRoot, gasUsed)))))))))"

record SavedAccount =
  sa_nonce :: u64
  sa_balance :: int
  sa_codeHash :: Hash
  sa_storage :: "(Hash \<times> Hash) list"

definition snapshotLocked :: "StateManager \<Rightarrow> Address \<Rightarrow> SavedAccount option" where
  "snapshotLocked sm =
     (\<lambda>addr. case sm_accountStates sm addr of
        None \<Rightarrow> None
      | Some acc \<Rightarrow> Some \<lparr>sa_nonce = ra_Nonce acc, sa_balance = ra_Balance acc,
                         sa_codeHash = ra_CodeHash acc, sa_storage = ra_Storage acc\<rparr>)"

definition restoreLocked :: "(Address \<Rightarrow> SavedAccount option) \<Rightarrow> (StateManager, unit) op" where
  "restoreLocked snap = modify (\<lambda>sm. sm\<lparr>sm_accountStates := (\<lambda>addr.
     case (sm_accountStates sm addr, snap addr) of
       (Some acc, Some saved) \<Rightarrow> Some (acc\<lparr>ra_Nonce := sa_nonce saved, ra_Balance := sa_balance saved,
                                          ra_CodeHash := sa_codeHash saved, ra_Storage := sa_storage saved\<rparr>)
     | _ \<Rightarrow> None)\<rparr>)"

definition SimulateBatch ::
  "hasher \<Rightarrow> (accounts \<Rightarrow> Address list) \<Rightarrow> Hash \<Rightarrow> RollupTransaction list \<Rightarrow> (StateManager, Hash \<times> u64) op" where
  "SimulateBatch sha256 visit prevStateRoot txs = bind (gets sm_stateHistory) (\<lambda>history.
     case map_of history prevStateRoot of
       Some historicalStates \<Rightarrow>
         bind (gets sm_accountStates) (\<lambda>savedStates.
         bind (modify (\<lambda>sm. sm\<lparr>sm_accountStates := deepCopyAccounts historicalStates\<rparr>)) (\<lambda>_.
         deferring (\<lambda>sm. sm\<lparr>sm_accountStates := savedStates\<rparr>) (processBatchLocked sha256 visit txs)))
     | None \<Rightarrow>
         bind (checkPrevRoot sha256 visit prevStateRoot) (\<lambda>_.
         bind (gets snapshotLocked) (\<lambda>snap.
         catch (processBatchLocked sha256 visit txs)
           (\<lambda>err. if is_panic err then fail err else bind (restoreLocked snap) (\<lambda>_. fail err))
           (\<lambda>(newRoot, gasUsed). bind (restoreLocked snap) (\<lambda>_. ret (newRoot, gasUsed))))))"

section \<open>Roots and proofs\<close>

text \<open>A \<open>range\<close> visits every key once.\<close>

definition fair :: "(accounts \<Rightarrow> Address list) \<Rightarrow> bool" where
  "fair visit \<longleftrightarrow> (\<forall>states. set (visit states) = dom states \<and> distinct (visit states))"

definition accountLeaves :: "hasher \<Rightarrow> accounts \<Rightarrow> Address \<rightharpoonup> Hash" where
  "accountLeaves sha256 states a = map_option (\<lambda>acc. ComputeAccountLeafHash sha256 a (Some acc)) (states a)"

definition stateRootOf :: "hasher \<Rightarrow> accounts \<Rightarrow> Hash" where
  "stateRootOf sha256 states = subtree sha256 (accountLeaves sha256 states) 160 0"

lemma fair_visit_empty: "fair visit \<Longrightarrow> visit states = [] \<longleftrightarrow> states = Map.empty"
  unfolding fair_def by (metis dom_eq_empty_conv list.set(1) set_empty)

lemma accountEntries_map:
  assumes "fair visit"
  shows "map_of (rev (accountEntries sha256 visit states)) = accountLeaves sha256 states"
proof
  fix a
  have "map_of (rev (map (\<lambda>a. (a, f a)) xs)) a = (if a \<in> set xs then Some (f a) else None)" for f :: "Address \<Rightarrow> Hash" and xs
    by (induction xs rule: rev_induct) auto
  moreover have "a \<in> set (visit states) \<longleftrightarrow> states a \<noteq> None" using assms by (auto simp: fair_def)
  ultimately show "map_of (rev (accountEntries sha256 visit states)) a = accountLeaves sha256 states a"
    by (auto simp: accountEntries_def accountLeaves_def)
qed

lemma accountTree:
  "fair visit \<Longrightarrow> smt_BatchInsert sha256 (accountEntries sha256 visit states) (NewSparseMerkleTree sha256)
     = treeOf sha256 (accountLeaves sha256 states)"
  by (simp add: NewSparseMerkleTree_treeOf BatchInsert_treeOf accountEntries_map)

lemma computeStateRoot_eq:
  "fair visit \<Longrightarrow> computeStateRoot sha256 visit sm
     = (Inr (stateRootOf sha256 (sm_accountStates sm)), sm\<lparr>sm_smt := Some (treeOf sha256 (accountLeaves sha256 (sm_accountStates sm)))\<rparr>)"
  by (simp add: computeStateRoot_def accountTree) (simp add: smt_Root_def treeOf_def stateRootOf_def)

lemma checkPrevRoot_eq:
  assumes "fair visit"
  shows "checkPrevRoot sha256 visit prev sm =
    (if sm_accountStates sm = Map.empty then (Inr (), sm)
     else (if prev = stateRootOf sha256 (sm_accountStates sm) then Inr () else Inl ErrInvalidStateTransition,
           sm\<lparr>sm_smt := Some (treeOf sha256 (accountLeaves sha256 (sm_accountStates sm)))\<rparr>))"
  using fair_visit_empty [OF assms, of "sm_accountStates sm"]
  by (simp add: checkPrevRoot_def op_simps computeStateRoot_eq assms)

section \<open>Transactions change the accounts only\<close>

text \<open>The part of the manager that the execution of transactions reads.\<close>

definition core :: "StateManager \<Rightarrow> StateManager" where
  "core sm = \<lparr>sm_config = sm_config sm, sm_maxHistoryEntries = 0, sm_stateRoots = Map.empty,
      sm_accountStates = sm_accountStates sm, sm_stateHistory = [], sm_stateHistoryOrder = [],
      sm_executor = sm_executor sm, sm_smt = None\<rparr>"

definition accountsOnly :: "(StateManager, 'a) op \<Rightarrow> bool" where
  "accountsOnly m \<longleftrightarrow>
     (\<forall>sm. m sm = (fst (m (core sm)), sm\<lparr>sm_accountStates := sm_accountStates (snd (m (core sm)))\<rparr>))"

lemma core_sel [simp]:
  "sm_config (core sm) = sm_config sm" "sm_executor (core sm) = sm_executor sm" "sm_accountStates (core sm) = sm_accountStates sm"
  by (simp_all add: core_def)

lemma core_upd [simp]: "core (sm\<lparr>sm_accountStates := st\<rparr>) = core sm\<lparr>sm_accountStates := st\<rparr>" "core (core sm) = core sm"
  by (simp_all add: core_def)

lemma accountsOnly_bind:
  assumes "accountsOnly m" and "\<And>a. accountsOnly (k a)"
  shows "accountsOnly (bind m k)"
  unfolding accountsOnly_def
proof
  fix sm
  obtain r st where m: "m (core sm) = (r, core sm\<lparr>sm_accountStates := st\<rparr>)"
    using assms(1) unfolding accountsOnly_def by (metis core_upd(2) prod.collapse)
  then have m': "m sm = (r, sm\<lparr>sm_accountStates := st\<rparr>)" using assms(1) unfolding accountsOnly_def by (metis fst_conv snd_conv core_sel(3)
      StateManager.select_convs(4) StateManager.update_convs(4) StateManager.surjective)
  show "bind m k sm = (fst (bind m k (core sm)), sm\<lparr>sm_accountStates := sm_accountStates (snd (bind m k (core sm)))\<rparr>)"
  proof (cases r)
    case (Inl e)
    with m m' show ?thesis by (simp add: bind_def)
  next
    case (Inr a)
    have "k a (sm\<lparr>sm_accountStates := st\<rparr>) = (fst (k a (core sm\<lparr>sm_accountStates := st\<rparr>)),
        sm\<lparr>sm_accountStates := sm_accountStates (snd (k a (core sm\<lparr>sm_accountStates := st\<rparr>)))\<rparr>)"
      using assms(2) [of a] unfolding accountsOnly_def by (metis (no_types) core_upd(1) StateManager.update_convs(4) StateManager.surjective)
    with m m' Inr show ?thesis by (simp add: bind_def)
  qed
qed

lemma accountsOnly_simple [simp]:
  "accountsOnly (ret v)" "accountsOnly (fail x)" "accountsOnly (lift_res r)"
  "accountsOnly (gets sm_config)" "accountsOnly (gets sm_executor)" "accountsOnly (gets sm_accountStates)"
  "accountsOnly (writeAccount a acc)" "accountsOnly (getOrCreateAccount a)"
  "accountsOnly (modify (\<lambda>sm. sm\<lparr>sm_accountStates := st\<rparr>))"
  by (auto simp: accountsOnly_def op_simps writeAccount_def getOrCreateAccount_def split: option.split)

lemma accountsOnly_processTx: "accountsOnly (processTx tx g)"
proof -
  have exec: "accountsOnly (executeContractCall call tx to v)" for call to v
    unfolding executeContractCall_def
    by (intro accountsOnly_bind) (auto simp: Let_def intro!: accountsOnly_bind split: option.split prod.split)
  then show ?thesis
    unfolding processTx_def burnTx_def contractTx_def transferTx_def isContractCall_def Let_def
    by (intro accountsOnly_bind) (auto intro!: accountsOnly_bind split: option.split bool.split)
qed

lemma accountsOnly_processTxs: "accountsOnly (processTxs txs g)"
  by (induction txs arbitrary: g) (simp_all add: accountsOnly_bind accountsOnly_processTx)

lemma accountsOnly_frame:
  assumes "accountsOnly m" and "m sm = (r, sm')"
  shows "sm_config sm' = sm_config sm" "sm_executor sm' = sm_executor sm"
  using assms unfolding accountsOnly_def by (metis snd_conv StateManager.select_convs StateManager.update_convs(4) StateManager.surjective)+

lemma run_processTxs:
  "processTxs txs g sm = (fst (processTxs txs g (core sm)), sm\<lparr>sm_accountStates := sm_accountStates (snd (processTxs txs g (core sm)))\<rparr>)"
  using accountsOnly_processTxs [of txs g] unfolding accountsOnly_def by blast

lemma core_cong:
  "sm_config sm = sm_config sm' \<Longrightarrow> sm_executor sm = sm_executor sm' \<Longrightarrow> sm_accountStates sm = sm_accountStates sm' \<Longrightarrow> core sm = core sm'"
  by (simp add: core_def)

text \<open>What a batch does: the transactions determine the accounts, the accounts the root.\<close>

lemma processBatchLocked_eq:
  assumes "fair visit"
  shows "processBatchLocked sha256 visit txs sm =
    (case processTxs txs 0 (core sm) of
       (Inl e, c) \<Rightarrow> (Inl e, sm\<lparr>sm_accountStates := sm_accountStates c\<rparr>)
     | (Inr g, c) \<Rightarrow> (Inr (stateRootOf sha256 (sm_accountStates c), g),
         sm\<lparr>sm_accountStates := sm_accountStates c, sm_smt := Some (treeOf sha256 (accountLeaves sha256 (sm_accountStates c)))\<rparr>))"
proof -
  obtain r c where c: "processTxs txs 0 (core sm) = (r, c)" by fastforce
  then show ?thesis using run_processTxs [of txs 0 sm]
    by (cases r) (simp_all add: processBatchLocked_def op_simps computeStateRoot_eq assms)
qed

lemma archive_frame:
  "\<exists>h ord. snd (archiveStateSnapshot r st sm) = sm\<lparr>sm_stateHistory := h, sm_stateHistoryOrder := ord\<rparr>"
proof -
  have same: "sm = sm\<lparr>sm_stateHistory := sm_stateHistory sm, sm_stateHistoryOrder := sm_stateHistoryOrder sm\<rparr>" by simp
  show ?thesis
    by (auto simp: archiveStateSnapshot_def op_simps Let_def split: prod.split sum.split intro: exI [of _ "sm_stateHistory sm"]
        exI [of _ "sm_stateHistoryOrder sm"] same)
qed

lemma archive_result: "fst (archiveStateSnapshot r st sm) = Inl e \<Longrightarrow> is_panic e"
proof -
  have "evictLoop l order h = Inl e \<Longrightarrow> is_panic e" for l order h
    by (induction l order h rule: evictLoop.induct) (auto simp: evictLoop.simps split: list.splits if_splits)
  then show "fst (archiveStateSnapshot r st sm) = Inl e \<Longrightarrow> is_panic e"
    by (auto simp: archiveStateSnapshot_def op_simps Let_def split: prod.splits sum.splits if_splits)
qed

lemma archive_keeps:
  assumes "archiveStateSnapshot r st sm = (x, sm')"
  shows "sm_config sm' = sm_config sm" "sm_executor sm' = sm_executor sm" "sm_accountStates sm' = sm_accountStates sm"
    "sm_stateRoots sm' = sm_stateRoots sm" "sm_smt sm' = sm_smt sm" "core sm' = core sm"
  using archive_frame [of r st sm] assms by (auto simp: core_def)

definition maybeArchive :: "Hash \<Rightarrow> accounts \<Rightarrow> (Hash \<times> accounts) list \<Rightarrow> (StateManager, unit) op" where
  "maybeArchive prev states history = (if map_of history prev = None then archiveStateSnapshot prev states else ret ())"

lemma maybeArchive_keeps:
  assumes "maybeArchive prev states history sm = (x, sm')"
  shows "sm_config sm' = sm_config sm" "sm_executor sm' = sm_executor sm" "sm_accountStates sm' = sm_accountStates sm"
    "sm_stateRoots sm' = sm_stateRoots sm" "sm_smt sm' = sm_smt sm" "core sm' = core sm" "x = Inl e \<Longrightarrow> is_panic e"
  using assms archive_keeps [of prev states sm x sm'] archive_result [of prev states sm e]
  by (auto simp: maybeArchive_def op_simps split: if_splits)

lemma ProcessBatch_ok:
  assumes "fair visit" and "ProcessBatch sha256 visit i prev txs sm = (Inr (root, g), sm')"
  shows "\<exists>c. processTxs txs 0 (core sm) = (Inr g, c) \<and> root = stateRootOf sha256 (sm_accountStates c)
    \<and> sm_accountStates sm' = sm_accountStates c \<and> sm_smt sm' = Some (treeOf sha256 (accountLeaves sha256 (sm_accountStates c)))
    \<and> sm_stateRoots sm' = (sm_stateRoots sm)(i \<mapsto> root) \<and> sm_config sm' = sm_config sm \<and> sm_executor sm' = sm_executor sm
    \<and> (sm_accountStates sm \<noteq> Map.empty \<longrightarrow> prev = stateRootOf sha256 (sm_accountStates sm))"
proof -
  obtain x sm1 where chk: "checkPrevRoot sha256 visit prev sm = (x, sm1)" by fastforce
  with assms have x: "x = Inr ()" by (cases x) (auto simp: ProcessBatch_def op_simps)
  have sm1: "sm_config sm1 = sm_config sm" "sm_executor sm1 = sm_executor sm" "sm_accountStates sm1 = sm_accountStates sm"
    "sm_stateRoots sm1 = sm_stateRoots sm" "core sm1 = core sm"
    "sm_accountStates sm \<noteq> Map.empty \<longrightarrow> prev = stateRootOf sha256 (sm_accountStates sm)"
    using chk x checkPrevRoot_eq [OF assms(1), of sha256 prev sm] by (auto simp: core_def split: if_splits)
  obtain y sm2 where arch: "maybeArchive prev (sm_accountStates sm1) (sm_stateHistory sm1) sm1 = (y, sm2)" by fastforce
  note sm2 = maybeArchive_keeps [OF arch]
  have y: "y = Inr ()" using assms chk x arch
    by (cases y) (auto simp: ProcessBatch_def op_simps maybeArchive_def [symmetric])
  obtain r c where c: "processTxs txs 0 (core sm) = (r, c)" by fastforce
  have run: "processBatchLocked sha256 visit txs sm2 = (case (r, c) of
       (Inl e, c) \<Rightarrow> (Inl e, sm2\<lparr>sm_accountStates := sm_accountStates c\<rparr>)
     | (Inr g, c) \<Rightarrow> (Inr (stateRootOf sha256 (sm_accountStates c), g),
         sm2\<lparr>sm_accountStates := sm_accountStates c, sm_smt := Some (treeOf sha256 (accountLeaves sha256 (sm_accountStates c)))\<rparr>))"
    using processBatchLocked_eq [OF assms(1), of sha256 txs sm2] c sm1 sm2 by simp
  obtain g' where r: "r = Inr g'" using assms chk x arch y run
    by (cases r) (auto simp: ProcessBatch_def op_simps Let_def maybeArchive_def [symmetric] split: if_splits)
  let ?st = "sm_accountStates c"
  let ?sm3 = "sm2\<lparr>sm_accountStates := ?st, sm_smt := Some (treeOf sha256 (accountLeaves sha256 ?st)),
    sm_stateRoots := (sm_stateRoots sm2)(i \<mapsto> stateRootOf sha256 ?st)\<rparr>"
  obtain z sm4 where last: "archiveStateSnapshot (stateRootOf sha256 ?st) ?st ?sm3 = (z, sm4)" by fastforce
  have "z = Inr ()" "g = g'" "root = stateRootOf sha256 ?st" "sm' = sm4"
    using assms chk x arch y run r last
    by (cases z; auto simp: ProcessBatch_def op_simps Let_def maybeArchive_def [symmetric] split: if_splits)+
  with archive_keeps [OF last] sm1 sm2 c r show ?thesis by auto
qed

lemma ProcessBatch_failed:
  assumes "fair visit" and "ProcessBatch sha256 visit i prev txs sm = (Inl e, sm')" and "\<not> is_panic e"
  shows "sm_accountStates sm' = sm_accountStates sm" "sm_stateRoots sm' = sm_stateRoots sm"
    "sm_config sm' = sm_config sm" "sm_executor sm' = sm_executor sm"
proof -
  obtain x sm1 where chk: "checkPrevRoot sha256 visit prev sm = (x, sm1)" by fastforce
  have sm1: "sm_config sm1 = sm_config sm" "sm_executor sm1 = sm_executor sm" "sm_accountStates sm1 = sm_accountStates sm"
    "sm_stateRoots sm1 = sm_stateRoots sm"
    using chk checkPrevRoot_eq [OF assms(1), of sha256 prev sm] by (auto split: if_splits)
  obtain y sm2 where arch: "maybeArchive prev (sm_accountStates sm1) (sm_stateHistory sm1) sm1 = (y, sm2)" by fastforce
  note sm2 = maybeArchive_keeps [OF arch]
  let ?Q = "sm_accountStates sm' = sm_accountStates sm \<and> sm_stateRoots sm' = sm_stateRoots sm \<and>
    sm_config sm' = sm_config sm \<and> sm_executor sm' = sm_executor sm"
  have ?Q
  proof (cases x)
    case (Inl e')
    with assms(2) chk sm1 show ?thesis by (auto simp: ProcessBatch_def op_simps)
  next
    case x: (Inr u)
    then have y: "y = Inr ()" using assms chk arch sm2(7)
      by (cases y) (auto simp: ProcessBatch_def op_simps maybeArchive_def [symmetric])
    obtain r c where c: "processTxs txs 0 (core sm2) = (r, c)" by fastforce
    show ?thesis
    proof (cases r)
      case (Inl e')
      with assms(2,3) chk x arch y c sm1 sm2 processBatchLocked_eq [OF assms(1), of sha256 txs sm2] show ?thesis
        by (auto simp: ProcessBatch_def op_simps Let_def maybeArchive_def [symmetric] split: if_splits)
    next
      case (Inr g)
      let ?st = "sm_accountStates c"
      have "\<exists>sm3. archiveStateSnapshot (stateRootOf sha256 ?st) ?st sm3 = (Inl e, sm')"
        using assms(2) chk x arch y c Inr processBatchLocked_eq [OF assms(1), of sha256 txs sm2]
        by (auto simp: ProcessBatch_def op_simps Let_def maybeArchive_def [symmetric] split: if_splits prod.splits sum.splits)
      with archive_result assms(3) show ?thesis by (metis fst_conv)
    qed
  qed
  then show "sm_accountStates sm' = sm_accountStates sm" "sm_stateRoots sm' = sm_stateRoots sm"
    "sm_config sm' = sm_config sm" "sm_executor sm' = sm_executor sm" by simp_all
qed

lemma SimulateBatch_history:
  assumes "fair visit" and "map_of (sm_stateHistory sm) prev = Some states"
  shows "SimulateBatch sha256 visit prev txs sm =
    (case processTxs txs 0 (core (sm\<lparr>sm_accountStates := states\<rparr>)) of
       (Inl e, c) \<Rightarrow> (Inl e, sm)
     | (Inr g, c) \<Rightarrow> (Inr (stateRootOf sha256 (sm_accountStates c), g),
         sm\<lparr>sm_smt := Some (treeOf sha256 (accountLeaves sha256 (sm_accountStates c)))\<rparr>))"
proof -
  obtain r c where "processTxs txs 0 (core (sm\<lparr>sm_accountStates := states\<rparr>)) = (r, c)" by fastforce
  with assms show ?thesis
    by (cases r) (simp_all add: SimulateBatch_def op_simps processBatchLocked_eq)
qed

section \<open>Balances\<close>

definition l2Supply :: "accounts \<Rightarrow> int" where
  "l2Supply states = (\<Sum>a \<in> UNIV. ra_Balance (account states a))"

definition noDebt :: "accounts \<Rightarrow> bool" where
  "noDebt states \<longleftrightarrow> (\<forall>a. 0 \<le> ra_Balance (account states a))"

lemma l2Supply_upd: "l2Supply (states(a \<mapsto> acc)) = l2Supply states - ra_Balance (account states a) + ra_Balance acc"
proof -
  have "(\<Sum>b \<in> UNIV - {a}. ra_Balance (account (states(a \<mapsto> acc)) b)) = (\<Sum>b \<in> UNIV - {a}. ra_Balance (account states b))"
    by (rule sum.cong) (simp_all add: account_upd)
  then show ?thesis
    by (simp add: l2Supply_def sum.remove [of UNIV a] account_upd)
qed

lemma noDebt_upd: "noDebt states \<Longrightarrow> 0 \<le> ra_Balance acc \<Longrightarrow> noDebt (states(a \<mapsto> acc))"
  by (simp add: noDebt_def account_upd)

lemma getOrCreateAccount_eq:
  "getOrCreateAccount a sm = (Inr (account (sm_accountStates sm) a),
     sm\<lparr>sm_accountStates := (sm_accountStates sm)(a \<mapsto> account (sm_accountStates sm) a)\<rparr>)"
  by (auto simp: getOrCreateAccount_def account_def fun_upd_idem split: option.split)

text \<open>What a batch relies on in the virtual machine: a call with a value that is not negative puts no
  account into debt and does not raise the supply.\<close>

definition thrifty :: "QVMExecutor \<Rightarrow> bool" where
  "thrifty call \<longleftrightarrow> (\<forall>db from to inp gas v ctx d. noDebt (rs_states db) \<longrightarrow> 0 \<le> v \<longrightarrow>
     (case call db from to inp gas v ctx d of (g, db') \<Rightarrow> noDebt (rs_states db') \<and> l2Supply (rs_states db') \<le> l2Supply (rs_states db)))"

definition burnedBy :: "RollupConfig option \<Rightarrow> RollupTransaction list \<Rightarrow> int" where
  "burnedBy config txs = sum_list (map txAmount (filter (isWithdrawalBurn config) txs))"

lemma txGasCost_nonneg [simp]: "0 \<le> txGasCost tx"
  by (simp add: txGasCost_def)

lemma executeContractCall_thrifty:
  assumes "executeContractCall call tx to v sm = (Inr g, sm')" and "thrifty call" and "0 \<le> v" and "noDebt (sm_accountStates sm)"
  shows "noDebt (sm_accountStates sm')" "l2Supply (sm_accountStates sm') \<le> l2Supply (sm_accountStates sm) + txGasCost tx"
    "sm_config sm' = sm_config sm"
proof -
  from assms(1) obtain c where c: "sm_config sm = Some c" by (cases "sm_config sm") (simp_all add: executeContractCall_def op_simps)
  let ?ctx = "\<lparr>bc_BlockNumber = 0, bc_Timestamp = 0, bc_GasLimit = rc_GasLimit c, bc_GasPrice = uint (tx_GasPrice tx), bc_ChainID = rc_ChainID c\<rparr>"
  obtain u db where call: "call (newRollupStateDB (sm_accountStates sm)) (tx_From tx) to (tx_Data tx) (tx_GasLimit tx) v ?ctx 0 = (u, db)"
    by fastforce
  have db: "noDebt (rs_states db)" "l2Supply (rs_states db) \<le> l2Supply (sm_accountStates sm)"
    using assms(2-4) call unfolding thrifty_def newRollupStateDB_def
    by (metis (mono_tags, lifting) case_prod_conv rollupStateDB.select_convs(1))+
  have refund: "uint (tx_GasLimit tx - w) * uint (tx_GasPrice tx) \<le> txGasCost tx" if "w < tx_GasLimit tx" for w
  proof -
    have "uint (tx_GasLimit tx - w) \<le> uint (tx_GasLimit tx)"
      using that by (metis less_imp_le word_le_def word_sub_le)
    then show ?thesis unfolding txGasCost_def by (intro mult_right_mono) simp_all
  qed
  from assms(1) c call db refund [of u] noDebt_def
  show "noDebt (sm_accountStates sm')" "l2Supply (sm_accountStates sm') \<le> l2Supply (sm_accountStates sm) + txGasCost tx"
    "sm_config sm' = sm_config sm"
    by (auto simp: executeContractCall_def op_simps Let_def getOrCreateAccount_eq writeAccount_def l2Supply_upd account_upd
        noDebt_def intro: order_trans split: if_splits)
qed

lemma account_touch [simp]: "account (states(a \<mapsto> account states a)) b = account states b"
  by (simp add: account_upd)

lemma noDebt_touch [simp]: "noDebt (states(a \<mapsto> account states a)) = noDebt states"
  by (simp add: noDebt_def)

lemma l2Supply_touch [simp]: "l2Supply (states(a \<mapsto> account states a)) = l2Supply states"
  by (simp add: l2Supply_upd)

lemma burnTx_supply:
  assumes "burnTx tx (account (sm_accountStates sm) (tx_From tx)) t sm = (Inr g, sm')" and "noDebt (sm_accountStates sm)"
  shows "noDebt (sm_accountStates sm')" "l2Supply (sm_accountStates sm') + txAmount tx \<le> l2Supply (sm_accountStates sm)"
    "sm_config sm' = sm_config sm"
  using assms txGasCost_nonneg [of tx]
  by (auto simp: burnTx_def op_simps Let_def writeAccount_def l2Supply_upd intro!: noDebt_upd split: if_splits simp del: txGasCost_nonneg)

lemma transferTx_supply:
  assumes "transferTx tx (account (sm_accountStates sm) (tx_From tx)) t sm = (Inr g, sm')" and "noDebt (sm_accountStates sm)"
    and "0 \<le> txAmount tx"
  shows "noDebt (sm_accountStates sm')" "l2Supply (sm_accountStates sm') \<le> l2Supply (sm_accountStates sm)"
    "sm_config sm' = sm_config sm"
proof -
  let ?from = "account (sm_accountStates sm) (tx_From tx)"
  let ?st = "(sm_accountStates sm)(tx_From tx \<mapsto> ?from\<lparr>ra_Balance := ra_Balance ?from - (txAmount tx + txGasCost tx), ra_Nonce := ra_Nonce ?from + 1\<rparr>)"
  from assms(1) have enough: "txAmount tx + txGasCost tx \<le> ra_Balance ?from"
    by (auto simp: transferTx_def op_simps Let_def split: if_splits)
  with assms(2) have st: "noDebt ?st" "l2Supply ?st = l2Supply (sm_accountStates sm) - txAmount tx - txGasCost tx"
    by (simp_all add: noDebt_upd l2Supply_upd)
  have "0 \<le> ra_Balance (account ?st a)" for a using st(1) by (simp add: noDebt_def)
  with assms(1,3) enough st txGasCost_nonneg [of tx]
  show "noDebt (sm_accountStates sm')" "l2Supply (sm_accountStates sm') \<le> l2Supply (sm_accountStates sm)"
    "sm_config sm' = sm_config sm"
    by (auto simp: transferTx_def op_simps Let_def writeAccount_def getOrCreateAccount_eq l2Supply_upd noDebt_upd
        split: if_splits sum.splits option.splits simp del: txGasCost_nonneg fun_upd_apply)
qed

lemma contractTx_supply:
  assumes "contractTx call tx to (account (sm_accountStates sm) (tx_From tx)) t sm = (Inr g, sm')" and "noDebt (sm_accountStates sm)"
    and "0 \<le> txAmount tx" and "thrifty call"
  shows "noDebt (sm_accountStates sm')" "l2Supply (sm_accountStates sm') \<le> l2Supply (sm_accountStates sm)"
    "sm_config sm' = sm_config sm"
proof -
  let ?from = "account (sm_accountStates sm) (tx_From tx)"
  let ?sm = "sm\<lparr>sm_accountStates := (sm_accountStates sm)(tx_From tx \<mapsto> ?from\<lparr>ra_Balance := ra_Balance ?from - txGasCost tx, ra_Nonce := ra_Nonce ?from + 1\<rparr>)\<rparr>"
  from assms(1,3) have enough: "txGasCost tx \<le> ra_Balance ?from"
    by (auto simp: contractTx_def op_simps split: if_splits)
  with assms(2) have st: "noDebt (sm_accountStates ?sm)" "l2Supply (sm_accountStates ?sm) = l2Supply (sm_accountStates sm) - txGasCost tx"
    by (simp_all add: noDebt_upd l2Supply_upd)
  obtain r sm1 where exec: "executeContractCall call tx to (txAmount tx) ?sm = (r, sm1)" by fastforce
  with assms(1) obtain u where "r = Inr u" "sm' = sm1"
    by (cases r) (auto simp: contractTx_def op_simps writeAccount_def split: if_splits sum.splits)
  with executeContractCall_thrifty [OF exec [unfolded \<open>r = Inr u\<close>] assms(4,3) st(1)] st
  show "noDebt (sm_accountStates sm')" "l2Supply (sm_accountStates sm') \<le> l2Supply (sm_accountStates sm)"
    "sm_config sm' = sm_config sm" by simp_all
qed

lemma processTx_supply:
  assumes "processTx tx t sm = (Inr g, sm')" and "noDebt (sm_accountStates sm)" and "0 \<le> txAmount tx"
    and "\<And>call. sm_executor sm = Some call \<Longrightarrow> thrifty call"
  shows "noDebt (sm_accountStates sm') \<and> l2Supply (sm_accountStates sm') + burnedBy (sm_config sm) [tx] \<le> l2Supply (sm_accountStates sm)"
proof -
  let ?a = "account (sm_accountStates sm) (tx_From tx)"
  define sm1 where "sm1 = sm\<lparr>sm_accountStates := (sm_accountStates sm)(tx_From tx \<mapsto> ?a)\<rparr>"
  have from1: "account (sm_accountStates sm1) (tx_From tx) = ?a" and debt1: "noDebt (sm_accountStates sm1)"
    and sup1: "l2Supply (sm_accountStates sm1) = l2Supply (sm_accountStates sm)"
    using assms(2) by (simp_all add: sm1_def)
  show ?thesis
  proof (cases "isWithdrawalBurn (sm_config sm) tx")
    case True
    then have "burnTx tx (account (sm_accountStates sm1) (tx_From tx)) t sm1 = (Inr g, sm')"
      using assms(1) from1 by (auto simp: processTx_def op_simps getOrCreateAccount_eq sm1_def split: if_splits)
    from burnTx_supply [OF this debt1] sup1 True show ?thesis by (simp add: burnedBy_def)
  next
    case False
    define sm2 where "sm2 = (case tx_To tx of None \<Rightarrow> sm1
      | Some to \<Rightarrow> sm1\<lparr>sm_accountStates := (sm_accountStates sm1)(to \<mapsto> account (sm_accountStates sm1) to)\<rparr>)"
    have sm2: "account (sm_accountStates sm2) (tx_From tx) = ?a" "noDebt (sm_accountStates sm2)"
      "l2Supply (sm_accountStates sm2) = l2Supply (sm_accountStates sm)"
      using from1 debt1 sup1 by (simp_all add: sm2_def split: option.split)
    have "(\<exists>call to. sm_executor sm = Some call \<and> contractTx call tx to ?a t sm2 = (Inr g, sm')) \<or> transferTx tx ?a t sm2 = (Inr g, sm')"
      using assms(1) False
      by (cases "tx_To tx"; cases "sm_executor sm")
        (auto simp: processTx_def isContractCall_def op_simps getOrCreateAccount_eq sm1_def sm2_def split: if_splits bool.splits)
    then show ?thesis
    proof (elim disjE exE conjE)
      fix call to
      assume c: "sm_executor sm = Some call" "contractTx call tx to ?a t sm2 = (Inr g, sm')"
      from contractTx_supply [OF c(2) [folded sm2(1)] sm2(2) assms(3) assms(4) [OF c(1)]] sm2 False
      show ?thesis by (simp add: burnedBy_def)
    next
      assume "transferTx tx ?a t sm2 = (Inr g, sm')"
      from transferTx_supply [OF this [folded sm2(1)] sm2(2) assms(3)] sm2 False show ?thesis by (simp add: burnedBy_def)
    qed
  qed
qed

lemma processTxs_supply:
  assumes "processTxs txs t sm = (Inr g, sm')" and "noDebt (sm_accountStates sm)" and "\<And>tx. tx \<in> set txs \<Longrightarrow> 0 \<le> txAmount tx"
    and "\<And>call. sm_executor sm = Some call \<Longrightarrow> thrifty call"
  shows "noDebt (sm_accountStates sm') \<and> l2Supply (sm_accountStates sm') + burnedBy (sm_config sm) txs \<le> l2Supply (sm_accountStates sm)"
  using assms
proof (induction txs arbitrary: t sm)
  case Nil
  then show ?case by (simp add: op_simps burnedBy_def)
next
  case (Cons tx txs)
  obtain r sm1 where step: "processTx tx t sm = (r, sm1)" by fastforce
  with Cons.prems(1) obtain t1 where r: "r = Inr t1" and rest: "processTxs txs t1 sm1 = (Inr g, sm')"
    by (cases r) (auto simp: op_simps)
  note frame = accountsOnly_frame [OF accountsOnly_processTx step]
  have one: "noDebt (sm_accountStates sm1) \<and> l2Supply (sm_accountStates sm1) + burnedBy (sm_config sm) [tx] \<le> l2Supply (sm_accountStates sm)"
    using Cons.prems(2,3,4) by (intro processTx_supply [OF step [unfolded r]]) auto
  have "noDebt (sm_accountStates sm') \<and> l2Supply (sm_accountStates sm') + burnedBy (sm_config sm1) txs \<le> l2Supply (sm_accountStates sm1)"
    using one Cons.prems(3,4) frame by (intro Cons.IH [OF rest]) auto
  with one frame show ?case by (auto simp: burnedBy_def)
qed

section \<open>A small rollup\<close>

text \<open>One account with a balance of 100 and a withdrawal of 40 to the bridge address 9, for the
  instances of the properties below. Every hash is zero.\<close>

definition someOrder :: "accounts \<Rightarrow> Address list" where
  "someOrder states = sorted_list_of_set (dom states)"

definition demoTx :: RollupTransaction where
  "demoTx = \<lparr>tx_ref = 0, tx_Nonce = 0, tx_GasPrice = 1, tx_GasLimit = 5, tx_To = Some 9, tx_Value = Some 40, tx_Data = [], tx_From = 1,
     tx_Hash = 0, tx_Signature = [], tx_ChainID = 1670, tx_PublicKey = []\<rparr>"

definition demoAccounts :: accounts where
  "demoAccounts = [1 \<mapsto> emptyAccount\<lparr>ra_Balance := 100\<rparr>]"

definition demoManager :: StateManager where
  "demoManager = (NewStateManager (\<lambda>_. 0) (Some \<lparr>rc_ChainID = 1670, rc_GasLimit = 100, rc_BridgeAddress = 9,
       rc_MaxTxPerBatch = 10, rc_MinTxPerBatch = 1, rc_ChallengeSeconds = 60\<rparr>) 10)
     \<lparr>sm_accountStates := demoAccounts\<rparr>"

definition demoAfter :: StateManager where
  "demoAfter = snd (ProcessBatch (\<lambda>_. 0) someOrder 7 0 [demoTx] demoManager)"

lemma fair_someOrder: "fair someOrder"
  by (simp add: fair_def someOrder_def)

lemma stateRootOf_const: "stateRootOf (\<lambda>_. c) states = c"
  using subtree.simps(2) [of "\<lambda>_. c" _ 159] by (simp add: stateRootOf_def)

lemma demo_txs: "processTxs [demoTx] 0 (core demoManager)
    = (Inr 5, core demoManager\<lparr>sm_accountStates := demoAccounts(1 \<mapsto> emptyAccount\<lparr>ra_Balance := 55, ra_Nonce := 1\<rparr>)\<rparr>)"
  by (simp add: processTx_def burnTx_def getOrCreateAccount_eq op_simps Let_def writeAccount_def isWithdrawalBurn_def addBatchGas_def
      SafeAddGas_def MaxUint64_def txAmount_def txGasCost_def demoTx_def demoManager_def demoAccounts_def NewStateManager_def core_def
      account_def emptyAccount_def)

lemma demo_batch: "ProcessBatch (\<lambda>_. 0) someOrder 7 0 [demoTx] demoManager = (Inr (0, 5), demoAfter)"
  and demo_accounts: "sm_accountStates demoAfter = demoAccounts(1 \<mapsto> emptyAccount\<lparr>ra_Balance := 55, ra_Nonce := 1\<rparr>)"
  and demo_history: "map_of (sm_stateHistory demoAfter) 0 = Some demoAccounts"
proof -
  have some: "sm_accountStates demoManager = demoAccounts" "demoAccounts \<noteq> Map.empty" "sm_stateHistory demoManager = []"
    "sm_stateHistoryOrder demoManager = []" "sm_maxHistoryEntries demoManager = 10"
    by (simp_all add: demoManager_def demoAccounts_def NewStateManager_def)
  let ?m = "demoManager\<lparr>sm_smt := Some (treeOf (\<lambda>_. 0) (accountLeaves (\<lambda>_. 0) demoAccounts)), sm_stateHistory := [(0, demoAccounts)], sm_stateHistoryOrder := [0]\<rparr>"
  have "core ?m = core demoManager" by (simp add: core_def)
  then have run: "processTxs [demoTx] 0 (core ?m)
    = (Inr 5, core demoManager\<lparr>sm_accountStates := demoAccounts(1 \<mapsto> emptyAccount\<lparr>ra_Balance := 55, ra_Nonce := 1\<rparr>)\<rparr>)"
    using demo_txs by simp
  have "ProcessBatch (\<lambda>_. 0) someOrder 7 0 [demoTx] demoManager
      = (Inr (0, 5), ?m\<lparr>sm_accountStates := demoAccounts(1 \<mapsto> emptyAccount\<lparr>ra_Balance := 55, ra_Nonce := 1\<rparr>),
           sm_smt := Some (treeOf (\<lambda>_. 0) (accountLeaves (\<lambda>_. 0) (demoAccounts(1 \<mapsto> emptyAccount\<lparr>ra_Balance := 55, ra_Nonce := 1\<rparr>)))),
           sm_stateRoots := (sm_stateRoots demoManager)(7 \<mapsto> 0)\<rparr>)"
    using some run
    by (simp add: ProcessBatch_def op_simps checkPrevRoot_eq fair_someOrder stateRootOf_const Let_def archiveStateSnapshot_def
        evictLoop.simps processBatchLocked_eq minStateHistoryEntries_def del: processTxs.simps)
  then show "ProcessBatch (\<lambda>_. 0) someOrder 7 0 [demoTx] demoManager = (Inr (0, 5), demoAfter)"
    "sm_accountStates demoAfter = demoAccounts(1 \<mapsto> emptyAccount\<lparr>ra_Balance := 55, ra_Nonce := 1\<rparr>)"
    "map_of (sm_stateHistory demoAfter) 0 = Some demoAccounts"
    by (simp_all add: demoAfter_def)
qed

section \<open>Properties\<close>

text \<open>C101: A batch of transactions whose values are not negative creates no money: where no account is
  in debt before and the executor of contract calls keeps to that, no account is in debt after a
  batch that was accepted, and the supply has fallen by at least the value of all withdrawals
  to the bridge.\<close>

theorem batch_conserves_supply:
  assumes "fair visit" and "ProcessBatch sha256 visit i prev txs sm = (Inr (root, g), sm')" and "noDebt (sm_accountStates sm)"
    and "\<And>tx. tx \<in> set txs \<Longrightarrow> 0 \<le> txAmount tx" and "\<And>call. sm_executor sm = Some call \<Longrightarrow> thrifty call"
  shows "noDebt (sm_accountStates sm') \<and>
    l2Supply (sm_accountStates sm') + burnedBy (sm_config sm) txs \<le> l2Supply (sm_accountStates sm)"
proof -
  from ProcessBatch_ok [OF assms(1,2)] obtain c where c: "processTxs txs 0 (core sm) = (Inr g, c)" "sm_accountStates sm' = sm_accountStates c"
    by blast
  from processTxs_supply [OF c(1)] assms(3-5) c(2) show ?thesis by simp
qed

theorem batch_conserves_supply_witness:
  "l2Supply (sm_accountStates demoAfter) + burnedBy (sm_config demoManager) [demoTx] \<le> l2Supply (sm_accountStates demoManager)
   \<and> burnedBy (sm_config demoManager) [demoTx] = 40"
proof -
  have "noDebt (sm_accountStates demoManager)"
    by (simp add: noDebt_def account_def demoManager_def demoAccounts_def emptyAccount_def)
  moreover have "0 \<le> txAmount tx" if "tx \<in> set [demoTx]" for tx using that by (simp add: txAmount_def demoTx_def)
  moreover have "thrifty call" if "sm_executor demoManager = Some call" for call
    using that by (simp add: demoManager_def NewStateManager_def)
  ultimately have "l2Supply (sm_accountStates demoAfter) + burnedBy (sm_config demoManager) [demoTx] \<le> l2Supply (sm_accountStates demoManager)"
    using batch_conserves_supply [OF fair_someOrder demo_batch] by blast
  then show ?thesis
    by (simp add: burnedBy_def isWithdrawalBurn_def txAmount_def demoTx_def demoManager_def NewStateManager_def)
qed

text \<open>C102: A batch is all or nothing: when \<open>ProcessBatch\<close> returns an error, the accounts and the recorded
  state roots are those from before.\<close>

theorem failed_batch_changes_nothing:
  assumes "fair visit" and "ProcessBatch sha256 visit i prev txs sm = (Inl e, sm')" and "\<not> is_panic e"
  shows "sm_accountStates sm' = sm_accountStates sm \<and> sm_stateRoots sm' = sm_stateRoots sm"
  using ProcessBatch_failed [OF assms] by simp

theorem failed_batch_changes_nothing_witness:
  "sm_accountStates (snd (ProcessBatch (\<lambda>_. 0) someOrder 7 1 [demoTx] demoManager)) = demoAccounts"
proof -
  have "demoAccounts \<noteq> Map.empty" "sm_accountStates demoManager = demoAccounts" by (simp_all add: demoAccounts_def demoManager_def)
  then have "ProcessBatch (\<lambda>_. 0) someOrder 7 1 [demoTx] demoManager
      = (Inl ErrInvalidStateTransition, snd (ProcessBatch (\<lambda>_. 0) someOrder 7 1 [demoTx] demoManager))"
    by (simp add: ProcessBatch_def op_simps checkPrevRoot_eq fair_someOrder stateRootOf_const)
  from failed_batch_changes_nothing [OF fair_someOrder this] show ?thesis by (simp add: demoManager_def)
qed

text \<open>C103: Simulation agrees with execution: as long as the snapshot that \<open>ProcessBatch\<close> took before a batch
  is kept, simulating the batch from the declared root returns the root and the gas of its
  execution, whatever the live state has become and in whatever order maps are visited.\<close>

theorem simulation_agrees:
  assumes "fair visit" and "fair visit'" and "ProcessBatch sha256 visit i prev txs sm = (Inr (root, g), sm')"
    and "map_of (sm_stateHistory later) prev = Some (sm_accountStates sm)"
    and "sm_config later = sm_config sm" and "sm_executor later = sm_executor sm"
  shows "fst (SimulateBatch sha256 visit' prev txs later) = Inr (root, g)"
proof -
  have "core (later\<lparr>sm_accountStates := sm_accountStates sm\<rparr>) = core sm" using assms(5,6) by (simp add: core_def)
  with ProcessBatch_ok [OF assms(1,3)] SimulateBatch_history [OF assms(2,4), of sha256 txs] show ?thesis by auto
qed

theorem simulation_agrees_witness: "fst (SimulateBatch (\<lambda>_. 0) someOrder 0 [demoTx] demoAfter) = Inr (0, 5)"
proof -
  have "sm_config demoAfter = sm_config demoManager" "sm_executor demoAfter = sm_executor demoManager"
    using ProcessBatch_ok [OF fair_someOrder demo_batch] by auto
  from simulation_agrees [OF fair_someOrder fair_someOrder demo_batch _ this] demo_history show ?thesis
    by (simp add: demoManager_def)
qed

text \<open>C104: The state root commits to the accounts: after a batch was accepted, the root returned is the
  current root and the one recorded for the batch, and for every address the manager proves
  against it the hash of the account, the zero leaf where there is none.\<close>

theorem batch_root_proves_accounts:
  assumes "fair visit" and "ProcessBatch sha256 visit i prev txs sm = (Inr (root, g), sm')"
  shows "GetCurrentRoot sha256 sm' = root \<and> GetStateRoot i sm' = Some root \<and>
    (\<exists>p. ProveAccount sha256 a sm' = Inr p \<and> VerifyMerkleProof sha256 a (Some p) root \<and>
         mp_LeafHash p = ComputeAccountLeafHash sha256 a (GetAccount a sm'))"
proof -
  from ProcessBatch_ok [OF assms] obtain c :: StateManager where c: "root = stateRootOf sha256 (sm_accountStates c)" "sm_accountStates sm' = sm_accountStates c"
    "sm_smt sm' = Some (treeOf sha256 (accountLeaves sha256 (sm_accountStates c)))" "sm_stateRoots sm' = (sm_stateRoots sm)(i \<mapsto> root)"
    by blast
  let ?t = "treeOf sha256 (accountLeaves sha256 (sm_accountStates c))"
  have root: "smt_Root ?t = root" by (simp add: c(1) smt_Root_def treeOf_def stateRootOf_def)
  have "leafAt sha256 ?t a = ComputeAccountLeafHash sha256 a (sm_accountStates c a)"
    by (cases "sm_accountStates c a") (simp_all add: leafAt_def Get_treeOf accountLeaves_def ComputeAccountLeafHash_def)
  with c root verify_Prove [of sha256 a "accountLeaves sha256 (sm_accountStates c)"] show ?thesis
    by (simp add: GetCurrentRoot_def GetStateRoot_def ProveAccount_def GetAccount_def LeafHash_Prove)
qed

theorem batch_root_proves_accounts_witness: "GetCurrentRoot (\<lambda>_. 0) demoAfter = 0 \<and> GetStateRoot 7 demoAfter = Some 0"
  using batch_root_proves_accounts [OF fair_someOrder demo_batch] by simp

text \<open>C105: Simulating a batch from a kept snapshot leaves the accounts, the recorded roots and the history
  alone, but not the cached tree: afterwards \<open>GetCurrentRoot\<close> returns the root of the simulated
  state and \<open>ProveAccount\<close> proves the accounts of the simulated state.\<close>

theorem simulation_replaces_current_root:
  assumes "fair visit" and "map_of (sm_stateHistory sm) prev = Some states" and "SimulateBatch sha256 visit prev txs sm = (Inr (root, g), sm')"
  shows "sm_accountStates sm' = sm_accountStates sm \<and> sm_stateRoots sm' = sm_stateRoots sm \<and> sm_stateHistory sm' = sm_stateHistory sm \<and>
    GetCurrentRoot sha256 sm' = root \<and> (\<exists>p. ProveAccount sha256 a sm' = Inr p \<and> VerifyMerkleProof sha256 a (Some p) root)"
proof -
  obtain r c where c: "processTxs txs 0 (core (sm\<lparr>sm_accountStates := states\<rparr>)) = (r, c)" by fastforce
  with SimulateBatch_history [OF assms(1,2), of sha256 txs] assms(3) have "r = Inr g" by (cases r) auto
  with SimulateBatch_history [OF assms(1,2), of sha256 txs] assms(3) c
  have root: "root = stateRootOf sha256 (sm_accountStates c)"
    and sm': "sm' = sm\<lparr>sm_smt := Some (treeOf sha256 (accountLeaves sha256 (sm_accountStates c)))\<rparr>" by auto
  let ?t = "treeOf sha256 (accountLeaves sha256 (sm_accountStates c))"
  have "smt_Root ?t = root" by (simp add: root smt_Root_def treeOf_def stateRootOf_def)
  with verify_Prove [of sha256 a "accountLeaves sha256 (sm_accountStates c)"] show ?thesis
    by (simp add: sm' GetCurrentRoot_def ProveAccount_def)
qed

theorem simulation_replaces_current_root_witness:
  "GetCurrentRoot (\<lambda>_. 0) (snd (SimulateBatch (\<lambda>_. 0) someOrder 0 [] demoAfter)) = 0"
proof -
  have "SimulateBatch (\<lambda>_. 0) someOrder 0 [] demoAfter = (Inr (0, 0), snd (SimulateBatch (\<lambda>_. 0) someOrder 0 [] demoAfter))"
    by (simp add: SimulateBatch_history [OF fair_someOrder demo_history] op_simps stateRootOf_const)
  from simulation_replaces_current_root [OF fair_someOrder demo_history this] show ?thesis by blast
qed

end
