(* ===== verification/Spec2Isabelle.thy ===== *)
theory Spec2Isabelle
  imports QVM_Atomic QVM_Effects RLP_Validate Rollup_Manager
begin

text \<open>
  A verification development for the virtual machine of Quantaureum (\<open>qau\<close>), a blockchain node
  written in Go: the interpreter of \<open>src/qvm\<close> and the state of the rollup (\<open>src/rollup\<close>) on which
  it runs.

  \<^bold>\<open>The program.\<close> A transaction or message is executed by \<open>Interpreter.Execute\<close> (\<open>qvm.go\<close>). It sets up
  an \<open>Environment\<close>, the state of one call frame: stack, memory, gas meter, program counter, the
  analysed jump destinations. \<open>Interpreter.run\<close> (\<open>environment.go\<close>) then fetches one opcode after
  another, charges its base cost and dispatches to its handler. The handlers are in
  \<open>operations.go\<close>, \<open>operations_missing.go\<close>, \<open>opcodes_extended.go\<close> and \<open>call.go\<close>; those of the call
  opcodes take a snapshot of the state, run \<open>Execute\<close> for the called code in a new frame and revert
  or release the snapshot. The state is reached only through the interface \<open>StateDB\<close>.

  \<^bold>\<open>The theories\<close>, each importing the ones it calls:
  \<^item> \<open>Qau_Prelude\<close>: machine types, Go slices and \<open>copy\<close>, the state-and-error monad of the handlers, Hoare
    triples, and the locale \<open>step_rel\<close> of relations between the state before and after a handler.
  \<^item> \<open>QVM_Stack\<close> (\<open>stack.go\<close>), \<open>QVM_Memory\<close> (\<open>memory.go\<close>), \<open>QVM_Gas\<close> (\<open>gas.go\<close>), \<open>QVM_Opcodes\<close>
    (\<open>opcodes.go\<close>): one function per Go function. Shown: conversions of words are the casts and
    round-trip, push and pop are last-in first-out, reads over writes and overlapping moves of
    memory, the price of memory telescopes, checked gas arithmetic is exact, the meter never
    passes its limit, the 63/64 rule, access lists are charged once.
  \<^item> \<open>QVM_Code\<close> (\<open>validator.go\<close>, \<open>evm_translate.go\<close>, the analysis of \<open>qvm.go\<close>): jump destinations are the
    \<open>JUMPDEST\<close> bytes that start an instruction, the cache of analyses is transparent, the two
    validators agree, the translator keeps instructions in place.
  \<^item> \<open>QVM_State\<close>: the interface \<open>StateDB\<close> as a record of functions over any state type, its contract as
    the locale \<open>state_db\<close>. \<open>Rollup_State\<close> (\<open>src/rollup/state_db.go\<close>): an implementation, the
    interpretation of the contract, and its refinement of an abstract ledger.
  \<^item> \<open>QVM_Env\<close>: contexts, results, the environment of a frame and what the frames of a transaction share.
  \<^item> \<open>QVM_Arith_Ops\<close>, \<open>QVM_Data_Ops\<close>, \<open>QVM_State_Ops\<close>: the handlers that stay in the frame. The
    arithmetic ones, with fast paths and loops over bytes, are shown equal to operations on words.
  \<^item> \<open>QVM_Calls\<close>: the call and create handlers and \<open>Execute\<close>; \<open>QVM_Exec\<close>: dispatch and one turn.
  \<^item> \<open>QVM_Rel\<close>: the locales \<open>reader_rel\<close> and \<open>handler_rel\<close>, which lift a relation from the primitives to
    every handler. They carry the proofs of the theories below.
  \<^item> \<open>QVM_Run\<close>: the loop of a frame, its termination, and that a frame stays within its gas.
  \<^item> \<open>QVM_Frames\<close>: the recursion of frames. \<open>QVM_Valid\<close>: invariants of all reachable environments.
  \<^item> \<open>QVM_Safety\<close>: no execution mints, read-only frames change nothing, snapshots of callers survive.
    \<open>QVM_Atomic\<close>: a call that reports failure leaves no trace in the state.

  \<^bold>\<open>Correspondence.\<close> A Go struct is a record with the prefix of its type on the fields, a method is a function
  with the receiver's type as prefix where the name alone is ambiguous. \<open>uint64\<close> is a 64-bit word and
  every wrap-around is that of the code; \<open>Word\<close> and \<open>Hash\<close> are 256-bit words, \<open>Address\<close> a 160-bit word,
  \<open>big.Int\<close> is \<open>int\<close>. A handler is a function from the environment to an error or a value and the new
  environment; a Go error is a value of \<open>qerr\<close>, and the environment after an error is kept, since the
  interpreter goes on with it. A \<open>defer\<close> is the operator \<open>deferring\<close>.

  \<^bold>\<open>Recursion and bounds.\<close> The loop of a frame is total: a turn pays gas or advances in the code, so
  (gas + 1) * (length of the code + 1) turns are enough (\<open>loop_terminates\<close>). The recursion
  \<open>Execute\<close> - \<open>run\<close> - handler - \<open>Execute\<close> has one unit of fuel per level; the call opcodes refuse at depth 1024,
  hence 1024 units are enough, more give the same result and the equation of the Go recursion holds
  (\<open>runAll_unfold\<close>). Theorems about handlers take the runner of the sub-frames as an argument, so they
  hold whatever the sub-frames do or under the stated condition on them.

  \<^bold>\<open>Parameters.\<close> Keccak-256, SHA-256, the recovery of signers, Kyber decapsulation and the registry of
  precompiled contracts are fields of the interpreter. Where a theorem relies on them it says so: the
  locale \<open>vm_state\<close> asks that the precompiled contracts keep snapshots and do not create balances, and is
  interpreted with the rollup state.

  \<^bold>\<open>Not modelled.\<close> The recovery from Go run-time panics and the abort channel in \<open>run\<close>, the tracer, the
  option \<open>SkipValidation\<close> and the mutexes of \<open>gas.go\<close>: they observe, are test switches or belong to
  concurrent use. The bodies of the precompiled contracts and the curve arithmetic (\<open>src/qvm/precompiled\<close>,
  \<open>src/qvm/secp256k1\<close>), the compiled execution path (\<open>src/qvm/jit\<close>), parallel execution, account
  abstraction (\<open>entrypoint.go\<close>, \<open>paymaster.go\<close>), and the wrappers of \<open>executor.go\<close> around \<open>Execute\<close>. Outside
  the virtual machine: consensus, transaction pool, tries and databases, networking, wallets and the
  rest of the rollup; they reach the machine only through the context of a call and the state
  interface.
\<close>

end
